theory Spec2Isabelle
  imports Main "HOL-Library.Word" "HOL-Library.Signed_Division"
begin

unbundle bit_operations_syntax

section \<open>Data model of \<open>hid-nintendo.c\<close>\<close>

text \<open>
  The driver's fixed-width unsigned integers are words; its signed integers (\<open>s16\<close>,
  \<open>s32\<close>, \<open>int\<close>) are modelled as \<open>int\<close> with the two's-complement wrap-around
  written out where an operation can leave the 32-bit range. C division truncates towards
  zero (\<open>sdiv\<close>) and traps on a zero divisor and on \<open>INT_MIN / -1\<close>: a trap is the
  value \<open>None\<close>, and so is every call that a trap keeps from returning. The arrays of
  three axes are functions of the index.
\<close>

type_synonym u8 = "8 word"
type_synonym u16 = "16 word"
type_synonym u32 = "32 word"

definition s32 :: "int \<Rightarrow> int" where
  "s32 k = signed_take_bit 31 k"

definition c_div :: "int \<Rightarrow> int \<Rightarrow> int option" where
  "c_div a b = (if b = 0 \<or> (a = - (2 ^ 31) \<and> b = - 1) then None else Some (a sdiv b))"

definition c_mod :: "int \<Rightarrow> int \<Rightarrow> int option" where
  "c_mod a b = (if b = 0 \<or> (a = - (2 ^ 31) \<and> b = - 1) then None else Some (a smod b))"

text \<open>Error numbers of the kernel, returned negated.\<close>

definition ENOMEM :: int where "ENOMEM = 12"
definition ENODEV :: int where "ENODEV = 19"
definition EINVAL :: int where "EINVAL = 22"
definition ETIMEDOUT :: int where "ETIMEDOUT = 110"

definition NX_CON_OUTPUT_RUMBLE_AND_SUBCMD :: u8 where "NX_CON_OUTPUT_RUMBLE_AND_SUBCMD = 0x01"
definition NX_CON_OUTPUT_RUMBLE_ONLY :: u8 where "NX_CON_OUTPUT_RUMBLE_ONLY = 0x10"
definition NX_CON_OUTPUT_USB_CMD :: u8 where "NX_CON_OUTPUT_USB_CMD = 0x80"
definition NX_CON_SUBCMD_SPI_FLASH_READ :: u8 where "NX_CON_SUBCMD_SPI_FLASH_READ = 0x10"
definition NX_CON_INPUT_SUBCMD_REPLY :: u8 where "NX_CON_INPUT_SUBCMD_REPLY = 0x21"
definition NX_CON_INPUT_IMU_DATA :: u8 where "NX_CON_INPUT_IMU_DATA = 0x30"
definition NX_CON_INPUT_MCU_DATA :: u8 where "NX_CON_INPUT_MCU_DATA = 0x31"
definition NX_CON_INPUT_USB_RESPONSE :: u8 where "NX_CON_INPUT_USB_RESPONSE = 0x81"

definition NX_CON_CAL_USR_MAGIC_0 :: u8 where "NX_CON_CAL_USR_MAGIC_0 = 0xB2"
definition NX_CON_CAL_USR_MAGIC_1 :: u8 where "NX_CON_CAL_USR_MAGIC_1 = 0xA1"
definition NX_CON_CAL_USR_MAGIC_SIZE :: u8 where "NX_CON_CAL_USR_MAGIC_SIZE = 2"
definition NX_CON_CAL_USR_LEFT_MAGIC_ADDR :: u32 where "NX_CON_CAL_USR_LEFT_MAGIC_ADDR = 0x8010"
definition NX_CON_CAL_USR_LEFT_DATA_ADDR :: u32 where "NX_CON_CAL_USR_LEFT_DATA_ADDR = 0x8012"
definition NX_CON_CAL_USR_RIGHT_MAGIC_ADDR :: u32 where "NX_CON_CAL_USR_RIGHT_MAGIC_ADDR = 0x801B"
definition NX_CON_CAL_USR_RIGHT_DATA_ADDR :: u32 where "NX_CON_CAL_USR_RIGHT_DATA_ADDR = 0x801D"
definition NX_CON_CAL_STICK_DATA_SIZE :: u8 where "NX_CON_CAL_STICK_DATA_SIZE = 0x801A - 0x8012 + 1"
definition NX_CON_CAL_FCT_DATA_LEFT_ADDR :: u32 where "NX_CON_CAL_FCT_DATA_LEFT_ADDR = 0x603d"
definition NX_CON_CAL_FCT_DATA_RIGHT_ADDR :: u32 where "NX_CON_CAL_FCT_DATA_RIGHT_ADDR = 0x6046"
definition NX_CON_IMU_CAL_FCT_DATA_ADDR :: u32 where "NX_CON_IMU_CAL_FCT_DATA_ADDR = 0x6020"
definition NX_CON_IMU_CAL_DATA_SIZE :: u8 where "NX_CON_IMU_CAL_DATA_SIZE = 0x6037 - 0x6020 + 1"
definition NX_CON_IMU_CAL_USR_MAGIC_ADDR :: u32 where "NX_CON_IMU_CAL_USR_MAGIC_ADDR = 0x8026"
definition NX_CON_IMU_CAL_USR_DATA_ADDR :: u32 where "NX_CON_IMU_CAL_USR_DATA_ADDR = 0x8028"

definition NX_CON_MAX_STICK_MAG :: int where "NX_CON_MAX_STICK_MAG = 32767"
definition NX_CON_IMU_DFLT_AVG_DELTA_MS :: u32 where "NX_CON_IMU_DFLT_AVG_DELTA_MS = 15"
definition NX_CON_IMU_SAMPLES_PER_DELTA_AVG :: u32 where "NX_CON_IMU_SAMPLES_PER_DELTA_AVG = 300"
definition NX_CON_IMU_DROPPED_PKT_WARNING :: u32 where "NX_CON_IMU_DROPPED_PKT_WARNING = 3"
definition NX_CON_IMU_PREC_RANGE_SCALE :: int where "NX_CON_IMU_PREC_RANGE_SCALE = 1000"

definition NX_CON_RUMBLE_PERIOD_MS :: u32 where "NX_CON_RUMBLE_PERIOD_MS = 50"
definition NX_CON_RUMBLE_DATA_SIZE :: nat where "NX_CON_RUMBLE_DATA_SIZE = 8"
definition NX_CON_RUMBLE_QUEUE_SIZE :: int where "NX_CON_RUMBLE_QUEUE_SIZE = 8"
definition NX_CON_RUMBLE_ZERO_AMP_PKT_CNT :: u16 where "NX_CON_RUMBLE_ZERO_AMP_PKT_CNT = 5"

text \<open>
  \<open>IS_ENABLED(CONFIG_NINTENDO_FF)\<close>: the model is of the driver built with force feedback,
  the only build in which the rumble encoder exists.
\<close>

definition CONFIG_NINTENDO_FF :: bool where
  "CONFIG_NINTENDO_FF = True"

text \<open>\<open>sizeof(struct nx_con_input_report)\<close> is 13 header bytes and the 36-byte union.\<close>

definition sizeof_nx_con_input_report :: nat where
  "sizeof_nx_con_input_report = 49"

definition NX_CON_MAX_RESP_SIZE :: nat where
  "NX_CON_MAX_RESP_SIZE = sizeof_nx_con_input_report + 35"

datatype nx_con_state = NX_CON_STATE_INIT | NX_CON_STATE_READ | NX_CON_STATE_REMOVED

datatype nx_con_msg_type = NX_CON_MSG_TYPE_NONE | NX_CON_MSG_TYPE_USB | NX_CON_MSG_TYPE_SUBCMD

definition NX_CON_TYPE_JCL :: u8 where "NX_CON_TYPE_JCL = 0x01"
definition NX_CON_TYPE_JCR :: u8 where "NX_CON_TYPE_JCR = 0x02"
definition NX_CON_TYPE_PRO :: u8 where "NX_CON_TYPE_PRO = 0x03"
definition NX_CON_TYPE_NESL :: u8 where "NX_CON_TYPE_NESL = 0x09"
definition NX_CON_TYPE_NESR :: u8 where "NX_CON_TYPE_NESR = 0x0A"
definition NX_CON_TYPE_SNES :: u8 where "NX_CON_TYPE_SNES = 0x0B"
definition NX_CON_TYPE_GEN :: u8 where "NX_CON_TYPE_GEN = 0x0D"
definition NX_CON_TYPE_N64 :: u8 where "NX_CON_TYPE_N64 = 0x0C"

text \<open>
  The product of the HID device, \<open>con->hdev->product\<close>: one of the products of the
  driver's device table.
\<close>

datatype hid_product =
    USB_DEVICE_ID_NINTENDO_PROCON
  | USB_DEVICE_ID_NINTENDO_CHRGGRIP
  | USB_DEVICE_ID_NINTENDO_SNESCON
  | USB_DEVICE_ID_NINTENDO_GENCON
  | USB_DEVICE_ID_NINTENDO_N64CON
  | USB_DEVICE_ID_NINTENDO_JOYCONL
  | USB_DEVICE_ID_NINTENDO_JOYCONR

text \<open>
  The levels of the kernel's \<open>POWER_SUPPLY_CAPACITY_LEVEL\<close> enumeration, the event codes
  of its input subsystem, and the button bits of the 24-bit button field.
\<close>

definition POWER_SUPPLY_CAPACITY_LEVEL_UNKNOWN :: u8 where "POWER_SUPPLY_CAPACITY_LEVEL_UNKNOWN = 0"
definition POWER_SUPPLY_CAPACITY_LEVEL_CRITICAL :: u8 where "POWER_SUPPLY_CAPACITY_LEVEL_CRITICAL = 1"
definition POWER_SUPPLY_CAPACITY_LEVEL_LOW :: u8 where "POWER_SUPPLY_CAPACITY_LEVEL_LOW = 2"
definition POWER_SUPPLY_CAPACITY_LEVEL_NORMAL :: u8 where "POWER_SUPPLY_CAPACITY_LEVEL_NORMAL = 3"
definition POWER_SUPPLY_CAPACITY_LEVEL_HIGH :: u8 where "POWER_SUPPLY_CAPACITY_LEVEL_HIGH = 4"
definition POWER_SUPPLY_CAPACITY_LEVEL_FULL :: u8 where "POWER_SUPPLY_CAPACITY_LEVEL_FULL = 5"

definition ABS_X :: u32 where "ABS_X = 0x00"
definition ABS_Y :: u32 where "ABS_Y = 0x01"
definition ABS_RX :: u32 where "ABS_RX = 0x03"
definition ABS_RY :: u32 where "ABS_RY = 0x04"
definition ABS_HAT0X :: u32 where "ABS_HAT0X = 0x10"
definition ABS_HAT0Y :: u32 where "ABS_HAT0Y = 0x11"

definition BTN_0 :: u32 where "BTN_0 = 0x100"
definition BTN_1 :: u32 where "BTN_1 = 0x101"
definition BTN_SOUTH :: u32 where "BTN_SOUTH = 0x130"
definition BTN_A :: u32 where "BTN_A = BTN_SOUTH"
definition BTN_EAST :: u32 where "BTN_EAST = 0x131"
definition BTN_B :: u32 where "BTN_B = BTN_EAST"
definition BTN_NORTH :: u32 where "BTN_NORTH = 0x133"
definition BTN_WEST :: u32 where "BTN_WEST = 0x134"
definition BTN_Z :: u32 where "BTN_Z = 0x135"
definition BTN_TL :: u32 where "BTN_TL = 0x136"
definition BTN_TR :: u32 where "BTN_TR = 0x137"
definition BTN_TL2 :: u32 where "BTN_TL2 = 0x138"
definition BTN_TR2 :: u32 where "BTN_TR2 = 0x139"
definition BTN_SELECT :: u32 where "BTN_SELECT = 0x13a"
definition BTN_START :: u32 where "BTN_START = 0x13b"
definition BTN_THUMBL :: u32 where "BTN_THUMBL = 0x13d"
definition BTN_THUMBR :: u32 where "BTN_THUMBR = 0x13e"
definition BTN_DPAD_UP :: u32 where "BTN_DPAD_UP = 0x220"
definition BTN_DPAD_DOWN :: u32 where "BTN_DPAD_DOWN = 0x221"
definition BTN_DPAD_LEFT :: u32 where "BTN_DPAD_LEFT = 0x222"
definition BTN_DPAD_RIGHT :: u32 where "BTN_DPAD_RIGHT = 0x223"

definition BIT :: "nat \<Rightarrow> u32" where
  "BIT n = push_bit n 1"

definition NX_CON_BTN_Y :: u32 where "NX_CON_BTN_Y = BIT 0"
definition NX_CON_BTN_X :: u32 where "NX_CON_BTN_X = BIT 1"
definition NX_CON_BTN_B :: u32 where "NX_CON_BTN_B = BIT 2"
definition NX_CON_BTN_A :: u32 where "NX_CON_BTN_A = BIT 3"
definition NX_CON_BTN_SR_R :: u32 where "NX_CON_BTN_SR_R = BIT 4"
definition NX_CON_BTN_SL_R :: u32 where "NX_CON_BTN_SL_R = BIT 5"
definition NX_CON_BTN_R :: u32 where "NX_CON_BTN_R = BIT 6"
definition NX_CON_BTN_ZR :: u32 where "NX_CON_BTN_ZR = BIT 7"
definition NX_CON_BTN_MINUS :: u32 where "NX_CON_BTN_MINUS = BIT 8"
definition NX_CON_BTN_PLUS :: u32 where "NX_CON_BTN_PLUS = BIT 9"
definition NX_CON_BTN_RSTICK :: u32 where "NX_CON_BTN_RSTICK = BIT 10"
definition NX_CON_BTN_LSTICK :: u32 where "NX_CON_BTN_LSTICK = BIT 11"
definition NX_CON_BTN_HOME :: u32 where "NX_CON_BTN_HOME = BIT 12"
definition NX_CON_BTN_CAP :: u32 where "NX_CON_BTN_CAP = BIT 13"
definition NX_CON_BTN_DOWN :: u32 where "NX_CON_BTN_DOWN = BIT 16"
definition NX_CON_BTN_UP :: u32 where "NX_CON_BTN_UP = BIT 17"
definition NX_CON_BTN_RIGHT :: u32 where "NX_CON_BTN_RIGHT = BIT 18"
definition NX_CON_BTN_LEFT :: u32 where "NX_CON_BTN_LEFT = BIT 19"
definition NX_CON_BTN_SR_L :: u32 where "NX_CON_BTN_SR_L = BIT 20"
definition NX_CON_BTN_SL_L :: u32 where "NX_CON_BTN_SL_L = BIT 21"
definition NX_CON_BTN_L :: u32 where "NX_CON_BTN_L = BIT 22"
definition NX_CON_BTN_ZL :: u32 where "NX_CON_BTN_ZL = BIT 23"

record nx_con_button_mapping =
  event_code :: u32
  button_bit :: u32

record nx_con_stick_cal =
  cal_max :: int
  cal_min :: int
  cal_center :: int

record nx_con_imu_cal =
  offset :: "nat \<Rightarrow> int"
  scale :: "nat \<Rightarrow> int"

record nx_con_imu_data =
  accel_x :: int
  accel_y :: int
  accel_z :: int
  gyro_x :: int
  gyro_y :: int
  gyro_z :: int

text \<open>
  \<open>struct nx_con\<close>, without the handles of the input, LED and power-supply subsystems
  and without the locks. \<open>hdev_product\<close> is \<open>hdev->product\<close>; \<open>con_type\<close> is the field
  \<open>type\<close>: the byte the device-info reply carries.
\<close>

record nx_con =
  hdev_product :: hid_product
  state :: nx_con_state
  con_type :: u8
  msg_type :: nx_con_msg_type
  subcmd_num :: u8
  input_buf :: "u8 list"
  received_resp :: bool
  usb_ack_match :: u8
  subcmd_ack_match :: u8
  received_input_report :: bool
  last_subcmd_sent_msecs :: u32
  left_stick_cal_x :: nx_con_stick_cal
  left_stick_cal_y :: nx_con_stick_cal
  right_stick_cal_x :: nx_con_stick_cal
  right_stick_cal_y :: nx_con_stick_cal
  accel_cal :: nx_con_imu_cal
  gyro_cal :: nx_con_imu_cal
  imu_cal_accel_divisor :: "nat \<Rightarrow> int"
  imu_cal_gyro_divisor :: "nat \<Rightarrow> int"
  battery_capacity :: u8
  battery_charging :: bool
  host_powered :: bool
  rumble_data :: "u8 list list"
  rumble_queue_head :: int
  rumble_queue_tail :: int
  rumble_msecs :: u32
  rumble_ll_freq :: u16
  rumble_lh_freq :: u16
  rumble_rl_freq :: u16
  rumble_rh_freq :: u16
  rumble_zero_countdown :: u16
  imu_first_packet_received :: bool
  imu_timestamp_us :: u32
  imu_last_pkt_ms :: u32
  imu_delta_samples_count :: u32
  imu_delta_samples_sum :: u32
  imu_avg_delta_ms :: u32

text \<open>
  The controller as \<open>nintendo_hid_probe\<close> leaves it before the first command, for a
  device of the given product: zeroed by \<open>devm_kzalloc\<close>, in state \<open>NX_CON_STATE_INIT\<close>,
  the rumble queue head at the last slot and its tail at the first.
\<close>

definition nx_con_probe_alloc :: "hid_product \<Rightarrow> nx_con" where
  "nx_con_probe_alloc p =
     \<lparr>hdev_product = p,
      state = NX_CON_STATE_INIT, con_type = 0, msg_type = NX_CON_MSG_TYPE_NONE, subcmd_num = 0,
      input_buf = replicate NX_CON_MAX_RESP_SIZE 0, received_resp = False,
      usb_ack_match = 0, subcmd_ack_match = 0, received_input_report = False,
      last_subcmd_sent_msecs = 0,
      left_stick_cal_x = \<lparr>cal_max = 0, cal_min = 0, cal_center = 0\<rparr>,
      left_stick_cal_y = \<lparr>cal_max = 0, cal_min = 0, cal_center = 0\<rparr>,
      right_stick_cal_x = \<lparr>cal_max = 0, cal_min = 0, cal_center = 0\<rparr>,
      right_stick_cal_y = \<lparr>cal_max = 0, cal_min = 0, cal_center = 0\<rparr>,
      accel_cal = \<lparr>offset = (\<lambda>i. 0), scale = (\<lambda>i. 0)\<rparr>,
      gyro_cal = \<lparr>offset = (\<lambda>i. 0), scale = (\<lambda>i. 0)\<rparr>,
      imu_cal_accel_divisor = (\<lambda>i. 0), imu_cal_gyro_divisor = (\<lambda>i. 0),
      battery_capacity = 0, battery_charging = False, host_powered = False,
      rumble_data = replicate 8 (replicate NX_CON_RUMBLE_DATA_SIZE 0),
      rumble_queue_head = NX_CON_RUMBLE_QUEUE_SIZE - 1, rumble_queue_tail = 0,
      rumble_msecs = 0, rumble_ll_freq = 0, rumble_lh_freq = 0, rumble_rl_freq = 0,
      rumble_rh_freq = 0, rumble_zero_countdown = 0,
      imu_first_packet_received = False, imu_timestamp_us = 0, imu_last_pkt_ms = 0,
      imu_delta_samples_count = 0, imu_delta_samples_sum = 0, imu_avg_delta_ms = 0\<rparr>"

subsection \<open>The environment\<close>

text \<open>
  The transport, the clock and the inbound-delivery context are the environment. An
  \<open>arrival\<close> is one call of \<open>nintendo_hid_event\<close>: the \<open>size\<close> bytes of the frame, the
  bytes that follow them in the receive buffer (the report parser reads a full input report
  of 49 bytes from a frame of 12 bytes or more), and the two readings of the clock
  \<open>jiffies_to_msecs(jiffies)\<close> that the rumble and the IMU handling take. Each call of
  \<open>__nx_con_hid_send\<close> consumes one \<open>attempt\<close>: the clock that
  \<open>nx_con_enforce_subcmd_rate\<close> reads before it, then for each round of its loop the
  arrivals during \<open>nx_con_wait_for_input_report\<close> and the clock read after it, whether
  \<open>kmemdup\<close> succeeds, what \<open>hid_hw_output_report\<close> returns, and the arrivals handled
  before the caller's wait for the reply ends. The \<open>world\<close> records what the driver did,
  in order: the sends, the waits (with what \<open>wait_event_timeout\<close> found: \<open>True\<close> the
  condition, \<open>False\<close> the timeout), and the events handed to the input devices and the work
  queue.
\<close>

datatype input_event = InputAbs u32 int | InputKey u32 bool | InputSync

datatype imu_event = ImuSample u32 "int list"

datatype io_event =
    HidSend "u8 list"
  | WaitResp bool
  | WaitInputReport
  | Input input_event
  | ImuInput imu_event
  | QueueRumbleWork

record arrival =
  a_data :: "u8 list"
  a_slack :: "u8 list"
  a_clk_rumble :: u32
  a_clk_imu :: u32

record rate_wait =
  rw_inbound :: "arrival list"
  rw_clk :: u32

record attempt =
  rate_clk :: u32
  rate_waits :: "nat \<Rightarrow> rate_wait"
  alloc_ok :: bool
  send_ret :: int
  inbound :: "arrival list"

record world =
  trace :: "io_event list"
  attempts :: nat

definition sends :: "io_event list \<Rightarrow> u8 list list" where
  "sends tr = concat (map (\<lambda>e. case e of HidSend d \<Rightarrow> [d] | _ \<Rightarrow> []) tr)"

definition wait_results :: "io_event list \<Rightarrow> bool list" where
  "wait_results tr = concat (map (\<lambda>e. case e of WaitResp b \<Rightarrow> [b] | _ \<Rightarrow> []) tr)"

definition log_event :: "io_event \<Rightarrow> world \<Rightarrow> world" where
  "log_event e w = w\<lparr>trace := trace w @ [e]\<rparr>"

definition log_events :: "io_event list \<Rightarrow> world \<Rightarrow> world" where
  "log_events es w = w\<lparr>trace := trace w @ es\<rparr>"

definition world0 :: world where
  "world0 = \<lparr>trace = [], attempts = 0\<rparr>"

section \<open>Helpers of the kernel\<close>

text \<open>
  \<open>hid_field_extract(hdev, report, offset, n)\<close> reads \<open>n\<close> bits from bit \<open>offset\<close> of the
  little-endian \<open>report\<close>; \<open>get_unaligned_le16\<close> reads two bytes, low byte first. A pointer
  into a buffer is the list of the bytes from there on.
\<close>

definition le_val :: "u8 list \<Rightarrow> nat" where
  "le_val bs = foldr (\<lambda>b v. unat b + 256 * v) bs 0"

definition hid_field_extract :: "u8 list \<Rightarrow> nat \<Rightarrow> nat \<Rightarrow> int" where
  "hid_field_extract report offs n =
     int (take_bit n (drop_bit offs (le_val (take ((offs + n + 7) div 8) report))))"

definition get_unaligned_le16 :: "u8 list \<Rightarrow> u16" where
  "get_unaligned_le16 p = word_of_nat (le_val (take 2 p))"

definition put_unaligned_le32 :: "u32 \<Rightarrow> u8 list" where
  "put_unaligned_le32 v = [ucast v, ucast (drop_bit 8 v), ucast (drop_bit 16 v), ucast (drop_bit 24 v)]"

definition clamp :: "int \<Rightarrow> int \<Rightarrow> int \<Rightarrow> int" where
  \<comment> \<open>the kernel's \<open>clamp(val, lo, hi)\<close>\<close>
  "clamp val lo hi = min (max val lo) hi"

text \<open>The kernel's \<open>mult_frac(x, n, d)\<close>: \<open>(x / d) * n + ((x % d) * n) / d\<close> in 32-bit arithmetic.\<close>

definition mult_frac :: "int \<Rightarrow> int \<Rightarrow> int \<Rightarrow> int option" where
  "mult_frac x n d =
     (case (c_div x d, c_mod x d) of
        (Some q, Some r) \<Rightarrow>
          (case c_div (s32 (r * n)) d of
             Some t \<Rightarrow> Some (s32 (s32 (q * n) + t))
           | None \<Rightarrow> None)
      | _ \<Rightarrow> None)"

section \<open>Device, type and capability helpers\<close>

definition nx_con_device_is_chrggrip :: "nx_con \<Rightarrow> bool" where
  "nx_con_device_is_chrggrip con = (hdev_product con = USB_DEVICE_ID_NINTENDO_CHRGGRIP)"

definition nx_con_type_is_left_joycon :: "nx_con \<Rightarrow> bool" where
  "nx_con_type_is_left_joycon con = (con_type con = NX_CON_TYPE_JCL)"

definition nx_con_type_is_right_joycon :: "nx_con \<Rightarrow> bool" where
  "nx_con_type_is_right_joycon con = (con_type con = NX_CON_TYPE_JCR)"

definition nx_con_type_is_procon :: "nx_con \<Rightarrow> bool" where
  "nx_con_type_is_procon con = (con_type con = NX_CON_TYPE_PRO)"

definition nx_con_type_is_snescon :: "nx_con \<Rightarrow> bool" where
  "nx_con_type_is_snescon con = (con_type con = NX_CON_TYPE_SNES)"

definition nx_con_type_is_gencon :: "nx_con \<Rightarrow> bool" where
  "nx_con_type_is_gencon con = (con_type con = NX_CON_TYPE_GEN)"

definition nx_con_type_is_n64con :: "nx_con \<Rightarrow> bool" where
  "nx_con_type_is_n64con con = (con_type con = NX_CON_TYPE_N64)"

definition nx_con_type_is_left_nescon :: "nx_con \<Rightarrow> bool" where
  "nx_con_type_is_left_nescon con = (con_type con = NX_CON_TYPE_NESL)"

definition nx_con_type_is_right_nescon :: "nx_con \<Rightarrow> bool" where
  "nx_con_type_is_right_nescon con = (con_type con = NX_CON_TYPE_NESR)"

definition nx_con_type_is_any_joycon :: "nx_con \<Rightarrow> bool" where
  "nx_con_type_is_any_joycon con =
     (nx_con_type_is_left_joycon con \<or> nx_con_type_is_right_joycon con \<or>
      nx_con_device_is_chrggrip con)"

definition nx_con_type_is_any_nescon :: "nx_con \<Rightarrow> bool" where
  "nx_con_type_is_any_nescon con =
     (nx_con_type_is_left_nescon con \<or> nx_con_type_is_right_nescon con)"

definition nx_con_has_imu :: "nx_con \<Rightarrow> bool" where
  "nx_con_has_imu con =
     (nx_con_device_is_chrggrip con \<or> nx_con_type_is_any_joycon con \<or>
      nx_con_type_is_procon con)"

definition nx_con_has_joysticks :: "nx_con \<Rightarrow> bool" where
  "nx_con_has_joysticks con =
     (nx_con_device_is_chrggrip con \<or> nx_con_type_is_any_joycon con \<or>
      nx_con_type_is_procon con \<or> nx_con_type_is_n64con con)"

definition nx_con_has_rumble :: "nx_con \<Rightarrow> bool" where
  "nx_con_has_rumble con =
     (nx_con_device_is_chrggrip con \<or> nx_con_type_is_any_joycon con \<or>
      nx_con_type_is_procon con \<or> nx_con_type_is_n64con con)"

section \<open>Report normalizer\<close>

definition nx_con_map_stick_val :: "nx_con_stick_cal \<Rightarrow> int \<Rightarrow> int option" where
  "nx_con_map_stick_val cal val =
     (let center = cal_center cal; cmin = cal_min cal; cmax = cal_max cal;
          new_val = (if val > center
                     then c_div (s32 (s32 (val - center) * NX_CON_MAX_STICK_MAG)) (s32 (cmax - center))
                     else c_div (s32 (s32 (center - val) * - NX_CON_MAX_STICK_MAG)) (s32 (center - cmin)))
      in map_option (\<lambda>v. clamp v (- NX_CON_MAX_STICK_MAG) NX_CON_MAX_STICK_MAG) new_val)"

text \<open>
  The reports of the sticks, the d-pad and the buttons: \<open>rep\<close> is the input report, with
  the button field at byte 3, the left stick at byte 6 and the right stick at byte 9. Each
  returns the events it hands to the input device.
\<close>

definition nx_con_report_left_stick_inputs :: "nx_con \<Rightarrow> u8 list \<Rightarrow> input_event list option" where
  "nx_con_report_left_stick_inputs con rep =
     (let raw_x = hid_field_extract (drop 6 rep) 0 12;
          raw_y = hid_field_extract (drop 7 rep) 4 12
      in case nx_con_map_stick_val (left_stick_cal_x con) raw_x of
           None \<Rightarrow> None
         | Some x \<Rightarrow>
             (case nx_con_map_stick_val (left_stick_cal_y con) raw_y of
                None \<Rightarrow> None
              | Some y \<Rightarrow> Some [InputAbs ABS_X x, InputAbs ABS_Y (s32 (- y))]))"

definition nx_con_report_right_stick_inputs :: "nx_con \<Rightarrow> u8 list \<Rightarrow> input_event list option" where
  "nx_con_report_right_stick_inputs con rep =
     (let raw_x = hid_field_extract (drop 9 rep) 0 12;
          raw_y = hid_field_extract (drop 10 rep) 4 12
      in case nx_con_map_stick_val (right_stick_cal_x con) raw_x of
           None \<Rightarrow> None
         | Some x \<Rightarrow>
             (case nx_con_map_stick_val (right_stick_cal_y con) raw_y of
                None \<Rightarrow> None
              | Some y \<Rightarrow> Some [InputAbs ABS_RX x, InputAbs ABS_RY (s32 (- y))]))"

definition button_status :: "u8 list \<Rightarrow> u32" where
  \<comment> \<open>\<open>hid_field_extract(con->hdev, rep->button_status, 0, 24)\<close>\<close>
  "button_status rep = word_of_int (hid_field_extract (drop 3 rep) 0 24)"

definition nx_con_report_dpad_inputs :: "nx_con \<Rightarrow> u8 list \<Rightarrow> input_event list" where
  "nx_con_report_dpad_inputs con rep =
     (let btns = button_status rep;
          hatx = (if btns AND NX_CON_BTN_LEFT \<noteq> 0 then - 1
                  else if btns AND NX_CON_BTN_RIGHT \<noteq> 0 then 1 else 0);
          haty = (if btns AND NX_CON_BTN_UP \<noteq> 0 then - 1
                  else if btns AND NX_CON_BTN_DOWN \<noteq> 0 then 1 else 0)
      in [InputAbs ABS_HAT0X hatx, InputAbs ABS_HAT0Y haty])"

definition nx_con_report_button_inputs ::
  "nx_con \<Rightarrow> u8 list \<Rightarrow> nx_con_button_mapping list \<Rightarrow> input_event list" where
  "nx_con_report_button_inputs con rep button_mappings =
     (let status = button_status rep
      in map (\<lambda>button. InputKey (event_code button) (status AND button_bit button \<noteq> 0))
             button_mappings)"

text \<open>The button maps, each row as (event code, button bit), without the closing empty row.\<close>

definition button_map :: "(u32 \<times> u32) list \<Rightarrow> nx_con_button_mapping list" where
  "button_map rows = map (\<lambda>(c, b). \<lparr>event_code = c, button_bit = b\<rparr>) rows"

definition left_joycon_button_mappings :: "nx_con_button_mapping list" where
  "left_joycon_button_mappings = button_map
     [(BTN_TL, NX_CON_BTN_L), (BTN_TR, NX_CON_BTN_SL_L), (BTN_TL2, NX_CON_BTN_ZL),
      (BTN_TR2, NX_CON_BTN_SR_L), (BTN_SELECT, NX_CON_BTN_MINUS),
      (BTN_THUMBL, NX_CON_BTN_LSTICK), (BTN_DPAD_UP, NX_CON_BTN_UP),
      (BTN_DPAD_DOWN, NX_CON_BTN_DOWN), (BTN_DPAD_LEFT, NX_CON_BTN_LEFT),
      (BTN_DPAD_RIGHT, NX_CON_BTN_RIGHT), (BTN_1, NX_CON_BTN_CAP)]"

definition right_joycon_button_mappings :: "nx_con_button_mapping list" where
  "right_joycon_button_mappings = button_map
     [(BTN_EAST, NX_CON_BTN_A), (BTN_SOUTH, NX_CON_BTN_B), (BTN_NORTH, NX_CON_BTN_X),
      (BTN_WEST, NX_CON_BTN_Y), (BTN_TL, NX_CON_BTN_SL_R), (BTN_TR, NX_CON_BTN_R),
      (BTN_TL2, NX_CON_BTN_SR_R), (BTN_TR2, NX_CON_BTN_ZR), (BTN_START, NX_CON_BTN_PLUS),
      (BTN_THUMBR, NX_CON_BTN_RSTICK), (BTN_0, NX_CON_BTN_HOME)]"

definition procon_button_mappings :: "nx_con_button_mapping list" where
  "procon_button_mappings = button_map
     [(BTN_EAST, NX_CON_BTN_A), (BTN_SOUTH, NX_CON_BTN_B), (BTN_NORTH, NX_CON_BTN_X),
      (BTN_WEST, NX_CON_BTN_Y), (BTN_TL, NX_CON_BTN_L), (BTN_TR, NX_CON_BTN_R),
      (BTN_TL2, NX_CON_BTN_ZL), (BTN_TR2, NX_CON_BTN_ZR), (BTN_SELECT, NX_CON_BTN_MINUS),
      (BTN_START, NX_CON_BTN_PLUS), (BTN_THUMBL, NX_CON_BTN_LSTICK),
      (BTN_THUMBR, NX_CON_BTN_RSTICK), (BTN_0, NX_CON_BTN_HOME), (BTN_1, NX_CON_BTN_CAP)]"

definition nescon_button_mappings :: "nx_con_button_mapping list" where
  "nescon_button_mappings = button_map
     [(BTN_SOUTH, NX_CON_BTN_A), (BTN_EAST, NX_CON_BTN_B), (BTN_TL, NX_CON_BTN_L),
      (BTN_TR, NX_CON_BTN_R), (BTN_SELECT, NX_CON_BTN_MINUS), (BTN_START, NX_CON_BTN_PLUS)]"

definition snescon_button_mappings :: "nx_con_button_mapping list" where
  "snescon_button_mappings = button_map
     [(BTN_SOUTH, NX_CON_BTN_A), (BTN_EAST, NX_CON_BTN_B), (BTN_NORTH, NX_CON_BTN_X),
      (BTN_WEST, NX_CON_BTN_Y), (BTN_TL, NX_CON_BTN_L), (BTN_TR, NX_CON_BTN_R),
      (BTN_TL2, NX_CON_BTN_ZL), (BTN_TR2, NX_CON_BTN_ZR), (BTN_SELECT, NX_CON_BTN_MINUS),
      (BTN_START, NX_CON_BTN_PLUS)]"

definition gencon_button_mappings :: "nx_con_button_mapping list" where
  "gencon_button_mappings = button_map
     [(BTN_SOUTH, NX_CON_BTN_A), (BTN_EAST, NX_CON_BTN_B), (BTN_WEST, NX_CON_BTN_R),
      (BTN_SELECT, NX_CON_BTN_ZR), (BTN_START, NX_CON_BTN_PLUS), (BTN_0, NX_CON_BTN_HOME),
      (BTN_1, NX_CON_BTN_CAP)]"

definition n64con_button_mappings :: "nx_con_button_mapping list" where
  "n64con_button_mappings = button_map
     [(BTN_A, NX_CON_BTN_A), (BTN_B, NX_CON_BTN_B), (BTN_Z, NX_CON_BTN_ZL),
      (BTN_TL, NX_CON_BTN_L), (BTN_TR, NX_CON_BTN_R), (BTN_TR2, NX_CON_BTN_LSTICK),
      (BTN_START, NX_CON_BTN_PLUS), (BTN_DPAD_UP, NX_CON_BTN_Y),
      (BTN_DPAD_DOWN, NX_CON_BTN_ZR), (BTN_DPAD_LEFT, NX_CON_BTN_X),
      (BTN_DPAD_RIGHT, NX_CON_BTN_MINUS), (BTN_0, NX_CON_BTN_HOME), (BTN_1, NX_CON_BTN_CAP)]"

text \<open>The dispatch on the controller in \<open>nx_con_parse_report\<close>: what each controller reports.\<close>

definition nx_con_report_inputs :: "nx_con \<Rightarrow> u8 list \<Rightarrow> input_event list option" where
  "nx_con_report_inputs con rep =
     (if nx_con_type_is_left_joycon con
      then map_option (\<lambda>l. l @ nx_con_report_button_inputs con rep left_joycon_button_mappings)
             (nx_con_report_left_stick_inputs con rep)
      else if nx_con_type_is_right_joycon con
      then map_option (\<lambda>r. r @ nx_con_report_button_inputs con rep right_joycon_button_mappings)
             (nx_con_report_right_stick_inputs con rep)
      else if nx_con_device_is_chrggrip con
      then (case nx_con_report_left_stick_inputs con rep of
              None \<Rightarrow> None
            | Some l \<Rightarrow>
                map_option (\<lambda>r. l @ r
                     @ nx_con_report_button_inputs con rep left_joycon_button_mappings
                     @ nx_con_report_button_inputs con rep right_joycon_button_mappings)
                  (nx_con_report_right_stick_inputs con rep))
      else if nx_con_type_is_procon con
      then (case nx_con_report_left_stick_inputs con rep of
              None \<Rightarrow> None
            | Some l \<Rightarrow>
                map_option (\<lambda>r. l @ r @ nx_con_report_dpad_inputs con rep
                     @ nx_con_report_button_inputs con rep procon_button_mappings)
                  (nx_con_report_right_stick_inputs con rep))
      else if nx_con_type_is_any_nescon con
      then Some (nx_con_report_dpad_inputs con rep
                 @ nx_con_report_button_inputs con rep nescon_button_mappings)
      else if nx_con_type_is_snescon con
      then Some (nx_con_report_dpad_inputs con rep
                 @ nx_con_report_button_inputs con rep snescon_button_mappings)
      else if nx_con_type_is_gencon con
      then Some (nx_con_report_dpad_inputs con rep
                 @ nx_con_report_button_inputs con rep gencon_button_mappings)
      else if nx_con_type_is_n64con con
      then map_option (\<lambda>l. l @ nx_con_report_dpad_inputs con rep
                     @ nx_con_report_button_inputs con rep n64con_button_mappings)
             (nx_con_report_left_stick_inputs con rep)
      else Some [])"

definition nx_con_parse_battery_status :: "nx_con \<Rightarrow> u8 \<Rightarrow> nx_con" where
  "nx_con_parse_battery_status con bat_con =
     (let tmp = drop_bit 5 bat_con
      in con\<lparr>host_powered := (bat_con AND 1 \<noteq> 0),
             battery_charging := (bat_con AND 0x10 \<noteq> 0),
             battery_capacity :=
               (if tmp = 0 then POWER_SUPPLY_CAPACITY_LEVEL_CRITICAL
                else if tmp = 1 then POWER_SUPPLY_CAPACITY_LEVEL_LOW
                else if tmp = 2 then POWER_SUPPLY_CAPACITY_LEVEL_NORMAL
                else if tmp = 3 then POWER_SUPPLY_CAPACITY_LEVEL_HIGH
                else if tmp = 4 then POWER_SUPPLY_CAPACITY_LEVEL_FULL
                else POWER_SUPPLY_CAPACITY_LEVEL_UNKNOWN)\<rparr>)"

section \<open>IMU sample processor\<close>

definition parse_imu_sample :: "u8 list \<Rightarrow> nx_con_imu_data" where
  "parse_imu_sample raw =
     \<lparr>accel_x = sint (get_unaligned_le16 (drop 0 raw)),
      accel_y = sint (get_unaligned_le16 (drop 2 raw)),
      accel_z = sint (get_unaligned_le16 (drop 4 raw)),
      gyro_x = sint (get_unaligned_le16 (drop 6 raw)),
      gyro_y = sint (get_unaligned_le16 (drop 8 raw)),
      gyro_z = sint (get_unaligned_le16 (drop 10 raw))\<rparr>"

definition nx_con_input_report_parse_imu_data :: "u8 list \<Rightarrow> nx_con_imu_data list" where
  \<comment> \<open>\<open>raw\<close> is \<open>rep->imu_raw_bytes\<close>; a sample takes 12 bytes\<close>
  "nx_con_input_report_parse_imu_data raw = map (\<lambda>i. parse_imu_sample (drop (12 * i) raw)) [0..<3]"

text \<open>
  The timing half of \<open>nx_con_report_imu\<close> (up to the assignment of \<open>imu_last_pkt_ms\<close>);
  \<open>msecs\<close> is the clock reading \<open>jiffies_to_msecs(jiffies)\<close>. The result carries the
  dropped-packet count, which the first report does not compute. A division by a zero
  average is a trap.
\<close>

definition nx_con_report_imu_timing :: "nx_con \<Rightarrow> u32 \<Rightarrow> (nx_con \<times> u32 option) option" where
  "nx_con_report_imu_timing con msecs =
     (let last_msecs = imu_last_pkt_ms con
      in if \<not> imu_first_packet_received con
         then Some (con\<lparr>imu_timestamp_us := 0,
                         imu_delta_samples_count := 0,
                         imu_delta_samples_sum := 0,
                         imu_avg_delta_ms := NX_CON_IMU_DFLT_AVG_DELTA_MS,
                         imu_first_packet_received := True,
                         imu_last_pkt_ms := msecs\<rparr>, None)
         else
           (let delta = msecs - last_msecs;
                con1 = con\<lparr>imu_delta_samples_sum := imu_delta_samples_sum con + delta,
                           imu_delta_samples_count := imu_delta_samples_count con + 1\<rparr>;
                con2 = (if imu_delta_samples_count con1 \<ge> NX_CON_IMU_SAMPLES_PER_DELTA_AVG
                        then (let avg = imu_delta_samples_sum con1 div imu_delta_samples_count con1
                              in con1\<lparr>imu_avg_delta_ms := (if avg = 0 then 1 else avg),
                                      imu_delta_samples_count := 0,
                                      imu_delta_samples_sum := 0\<rparr>)
                        else con1)
            in if imu_avg_delta_ms con2 = 0 then None
               else
                 (let dropped_threshold = imu_avg_delta_ms con2 * 3 div 2;
                      dropped_pkts = (delta - min delta dropped_threshold) div imu_avg_delta_ms con2
                  in Some (con2\<lparr>imu_timestamp_us :=
                                    imu_timestamp_us con2 + 1000 * imu_avg_delta_ms con2,
                                  imu_last_pkt_ms := msecs\<rparr>,
                           Some dropped_pkts))))"

text \<open>The six scaled values of one sample, in the order gyro x, y, z, accel x, y, z.\<close>

definition imu_scale_sample :: "nx_con \<Rightarrow> nx_con_imu_data \<Rightarrow> int list option" where
  "imu_scale_sample con d =
     (case (mult_frac (s32 (NX_CON_IMU_PREC_RANGE_SCALE * (gyro_x d - offset (gyro_cal con) 0)))
              (scale (gyro_cal con) 0) (imu_cal_gyro_divisor con 0),
            mult_frac (s32 (NX_CON_IMU_PREC_RANGE_SCALE * (gyro_y d - offset (gyro_cal con) 1)))
              (scale (gyro_cal con) 1) (imu_cal_gyro_divisor con 1),
            mult_frac (s32 (NX_CON_IMU_PREC_RANGE_SCALE * (gyro_z d - offset (gyro_cal con) 2)))
              (scale (gyro_cal con) 2) (imu_cal_gyro_divisor con 2),
            c_div (s32 (accel_x d * scale (accel_cal con) 0)) (imu_cal_accel_divisor con 0),
            c_div (s32 (accel_y d * scale (accel_cal con) 1)) (imu_cal_accel_divisor con 1),
            c_div (s32 (accel_z d * scale (accel_cal con) 2)) (imu_cal_accel_divisor con 2)) of
        (Some v0, Some v1, Some v2, Some v3, Some v4, Some v5) \<Rightarrow> Some [v0, v1, v2, v3, v4, v5]
      | _ \<Rightarrow> None)"

text \<open>
  The sign correction: \<open>for (j = 1; j < 6; ++j) { if (j == 3) continue; value[j] *= -1; }\<close>
  on the right Joy-Con, nothing on any other controller.
\<close>

definition imu_negate_axes :: "nx_con \<Rightarrow> int list \<Rightarrow> int list" where
  "imu_negate_axes con val =
     (if nx_con_type_is_right_joycon con
      then fold (\<lambda>j v. if j = 3 then v else v[j := s32 (v ! j * - 1)]) [1..<6] val
      else val)"

definition imu_sample_values :: "nx_con \<Rightarrow> nx_con_imu_data \<Rightarrow> int list option" where
  "imu_sample_values con d = map_option (imu_negate_axes con) (imu_scale_sample con d)"

text \<open>
  The loop over the samples of a report: each sample is handed to the IMU input device as
  one event, the timestamp and the values reported as
  \<open>ABS_RX, ABS_RY, ABS_RZ, ABS_X, ABS_Y, ABS_Z\<close>.
\<close>

fun imu_samples_loop :: "nx_con \<Rightarrow> nx_con_imu_data list \<Rightarrow> (nx_con \<times> imu_event list) option" where
  "imu_samples_loop con [] = Some (con, [])"
| "imu_samples_loop con (d # ds) =
     (case imu_sample_values con d of
        None \<Rightarrow> None
      | Some val \<Rightarrow>
          (case imu_samples_loop
                  (con\<lparr>imu_timestamp_us :=
                         imu_timestamp_us con + imu_avg_delta_ms con * 1000 div 3\<rparr>) ds of
             None \<Rightarrow> None
           | Some (con', evs) \<Rightarrow> Some (con', ImuSample (imu_timestamp_us con) val # evs)))"

definition nx_con_report_imu ::
  "nx_con \<Rightarrow> u32 \<Rightarrow> u8 list \<Rightarrow> (nx_con \<times> u32 option \<times> imu_event list) option" where
  "nx_con_report_imu con msecs imu_raw_bytes =
     (let imu_data = nx_con_input_report_parse_imu_data imu_raw_bytes
      in case nx_con_report_imu_timing con msecs of
           None \<Rightarrow> None
         | Some (con1, dropped) \<Rightarrow>
             (case imu_samples_loop con1 imu_data of
                None \<Rightarrow> None
              | Some (con2, evs) \<Rightarrow> Some (con2, dropped, evs)))"

section \<open>Rumble: the report handler\<close>

text \<open>
  \<open>nx_con_handle_rumble_report\<close>: \<open>ff\<close> is \<open>IS_ENABLED(CONFIG_NINTENDO_FF)\<close>, \<open>msecs\<close> the
  clock, widened to \<open>unsigned long\<close> for the subtraction. The result says whether the worker
  was queued.
\<close>

definition nx_con_handle_rumble_report :: "bool \<Rightarrow> nx_con \<Rightarrow> u8 \<Rightarrow> u32 \<Rightarrow> nx_con \<times> bool" where
  "nx_con_handle_rumble_report ff con vibrator_report msecs =
     (if ff \<and> vibrator_report \<noteq> 0 \<and>
         (ucast msecs :: 64 word) - ucast (rumble_msecs con) \<ge> ucast NX_CON_RUMBLE_PERIOD_MS \<and>
         (rumble_queue_head con \<noteq> rumble_queue_tail con \<or> rumble_zero_countdown con > 0)
      then ((if rumble_zero_countdown con > 0
             then con\<lparr>rumble_zero_countdown := rumble_zero_countdown con - 1\<rparr>
             else con), True)
      else (con, False))"

section \<open>Inbound delivery\<close>

text \<open>
  \<open>nx_con_parse_report\<close>; \<open>locked\<close> is \<open>mutex_is_locked(&con->output_mutex)\<close>. The
  report is read as a \<open>struct nx_con_input_report\<close> of 49 bytes whatever the size of the
  frame: the result is \<open>None\<close> when the receive buffer ends before that, and when the
  arithmetic of the stick or IMU handling traps. The worker the rumble handling queues is
  recorded as an event: it runs later, in its own context.
\<close>

definition nx_con_parse_report :: "bool \<Rightarrow> arrival \<Rightarrow> nx_con \<Rightarrow> world \<Rightarrow> (nx_con \<times> world) option" where
  "nx_con_parse_report locked a con w =
     (let rep = a_data a @ a_slack a;
          (con1, w1) =
            (if nx_con_has_rumble con
             then (let (c, queued) = nx_con_handle_rumble_report CONFIG_NINTENDO_FF con
                                       (rep ! 12) (a_clk_rumble a)
                   in (c, if queued then log_event QueueRumbleWork w else w))
             else (con, w));
          con2 = nx_con_parse_battery_status con1 (rep ! 2)
      in if length rep < sizeof_nx_con_input_report then None else
         case (if rep ! 0 = NX_CON_INPUT_IMU_DATA \<and> nx_con_has_imu con2
               then (case nx_con_report_imu con2 (a_clk_imu a) (drop 13 rep) of
                       None \<Rightarrow> None
                     | Some (c, dropped, evs) \<Rightarrow> Some (c, log_events (map ImuInput evs) w1))
               else Some (con2, w1)) of
           None \<Rightarrow> None
         | Some (con3, w3) \<Rightarrow>
             (case nx_con_report_inputs con3 rep of
                None \<Rightarrow> None
              | Some evs \<Rightarrow>
                  Some (if locked then con3\<lparr>received_input_report := True\<rparr> else con3,
                        log_events (map Input (evs @ [InputSync])) w3)))"

definition nx_con_read_handler :: "bool \<Rightarrow> arrival \<Rightarrow> nx_con \<Rightarrow> world \<Rightarrow> (nx_con \<times> world) option" where
  "nx_con_read_handler locked a con w =
     (if (a_data a ! 0 = NX_CON_INPUT_SUBCMD_REPLY \<or>
          a_data a ! 0 = NX_CON_INPUT_IMU_DATA \<or>
          a_data a ! 0 = NX_CON_INPUT_MCU_DATA) \<and>
         length (a_data a) \<ge> 12
      then nx_con_parse_report locked a con w
      else Some (con, w))"

text \<open>
  \<open>nx_con_handle_event\<close>: a frame that is the reply the controller waits for completes the
  wait; any other frame goes to the read handler when the controller is in state
  \<open>NX_CON_STATE_READ\<close>.
\<close>

definition reply_matches :: "nx_con \<Rightarrow> u8 list \<Rightarrow> bool" where
  "reply_matches con data =
     (case msg_type con of
        NX_CON_MSG_TYPE_NONE \<Rightarrow> False
      | NX_CON_MSG_TYPE_USB \<Rightarrow>
          \<not> length data < 2 \<and> data ! 0 = NX_CON_INPUT_USB_RESPONSE \<and> data ! 1 = usb_ack_match con
      | NX_CON_MSG_TYPE_SUBCMD \<Rightarrow>
          \<not> (length data < sizeof_nx_con_input_report \<or> data ! 0 \<noteq> NX_CON_INPUT_SUBCMD_REPLY)
          \<and> data ! 14 = subcmd_ack_match con)"

definition nx_con_handle_event ::
  "bool \<Rightarrow> arrival \<Rightarrow> nx_con \<Rightarrow> world \<Rightarrow> (int \<times> nx_con \<times> world) option" where
  "nx_con_handle_event locked a con w =
     (if locked \<and> reply_matches con (a_data a)
      then Some (1, con\<lparr>input_buf := take NX_CON_MAX_RESP_SIZE (a_data a)
                                   @ drop (length (a_data a)) (input_buf con),
                        msg_type := NX_CON_MSG_TYPE_NONE,
                        received_resp := True\<rparr>, w)
      else if state con = NX_CON_STATE_READ
      then (case nx_con_read_handler locked a con w of
              None \<Rightarrow> None
            | Some (con', w') \<Rightarrow> Some (0, con', w'))
      else Some (0, con, w))"

definition nintendo_hid_event ::
  "bool \<Rightarrow> arrival \<Rightarrow> nx_con \<Rightarrow> world \<Rightarrow> (int \<times> nx_con \<times> world) option" where
  "nintendo_hid_event locked a con w =
     (if length (a_data a) < 1 then Some (- EINVAL, con, w)
      else nx_con_handle_event locked a con w)"

text \<open>The arrivals during a wait of the synchronous send, which holds the output mutex.\<close>

fun deliver :: "arrival list \<Rightarrow> nx_con \<Rightarrow> world \<Rightarrow> (nx_con \<times> world) option" where
  "deliver [] con w = Some (con, w)"
| "deliver (a # as) con w =
     (case nintendo_hid_event True a con w of
        None \<Rightarrow> None
      | Some (ret, con', w') \<Rightarrow> deliver as con' w')"

section \<open>Command coordinator\<close>

definition nx_con_hid_send_raw :: "(nat \<Rightarrow> attempt) \<Rightarrow> u8 list \<Rightarrow> world \<Rightarrow> int \<times> world" where
  \<comment> \<open>\<open>__nx_con_hid_send\<close>\<close>
  "nx_con_hid_send_raw env data w =
     (let a = env (attempts w); w' = w\<lparr>attempts := Suc (attempts w)\<rparr>
      in if \<not> alloc_ok a then (- ENOMEM, w')
         else (send_ret a, log_event (HidSend data) w'))"

text \<open>
  \<open>nx_con_wait_for_input_report\<close> and the loop of \<open>nx_con_enforce_subcmd_rate\<close>: \<open>rws i\<close>
  is what round \<open>i\<close> of the loop meets, \<open>current_ms\<close> the clock read last. The loop ends
  only when the clock has advanced by 25 ms or the state is not \<open>NX_CON_STATE_READ\<close>; it
  is \<open>None\<close> when it never does.
\<close>

definition nx_con_wait_for_input_report ::
  "rate_wait \<Rightarrow> nx_con \<Rightarrow> world \<Rightarrow> (nx_con \<times> world) option" where
  "nx_con_wait_for_input_report rw con w =
     (if state con = NX_CON_STATE_READ
      then deliver (rw_inbound rw) (con\<lparr>received_input_report := False\<rparr>)
             (log_event WaitInputReport w)
      else Some (con, w))"

partial_function (option) enforce_subcmd_rate_loop ::
  "(nat \<Rightarrow> rate_wait) \<Rightarrow> nat \<Rightarrow> u32 \<Rightarrow> nx_con \<Rightarrow> world \<Rightarrow> (nx_con \<times> world) option" where
  "enforce_subcmd_rate_loop rws i current_ms con w =
     (if current_ms - last_subcmd_sent_msecs con < 25 \<and> state con = NX_CON_STATE_READ
      then (case nx_con_wait_for_input_report (rws i) con w of
              None \<Rightarrow> None
            | Some (con', w') \<Rightarrow>
                enforce_subcmd_rate_loop rws (Suc i) (rw_clk (rws i)) con' w')
      else Some (con\<lparr>last_subcmd_sent_msecs := current_ms\<rparr>, w))"

definition nx_con_enforce_subcmd_rate ::
  "(nat \<Rightarrow> attempt) \<Rightarrow> nx_con \<Rightarrow> world \<Rightarrow> (nx_con \<times> world) option" where
  "nx_con_enforce_subcmd_rate env con w =
     (let a = env (attempts w)
      in enforce_subcmd_rate_loop (rate_waits a) 0 (rate_clk a) con w)"

definition clear_input_buf :: "nx_con \<Rightarrow> nx_con" where
  \<comment> \<open>\<open>memset(con->input_buf, 0, NX_CON_MAX_RESP_SIZE)\<close>\<close>
  "clear_input_buf con = con\<lparr>input_buf := replicate NX_CON_MAX_RESP_SIZE 0\<rparr>"

text \<open>
  The loop \<open>while (tries--)\<close> of \<open>nx_con_hid_send_sync\<close>, by recursion on \<open>tries\<close>;
  \<open>ret\<close> is the value of the previous round. \<open>wait_event_timeout\<close> returns non-zero when
  \<open>received_resp\<close> is set once the arrivals of the attempt have been handled.
\<close>

fun hid_send_sync_loop ::
  "(nat \<Rightarrow> attempt) \<Rightarrow> u8 list \<Rightarrow> nat \<Rightarrow> int \<Rightarrow> nx_con \<Rightarrow> world
     \<Rightarrow> (int \<times> nx_con \<times> world) option" where
  "hid_send_sync_loop env data 0 ret con w = Some (ret, con\<lparr>received_resp := False\<rparr>, w)"
| "hid_send_sync_loop env data (Suc tries) ret con w =
     (case nx_con_enforce_subcmd_rate env con w of
        None \<Rightarrow> None
      | Some (con1, w1) \<Rightarrow>
          (let a = env (attempts w1);
               (r, w2) = nx_con_hid_send_raw env data w1
           in if r < 0 then Some (r, clear_input_buf con1, w2)
              else
                (case deliver (inbound a) con1 w2 of
                   None \<Rightarrow> None
                 | Some (con3, w3) \<Rightarrow>
                     if \<not> received_resp con3
                     then hid_send_sync_loop env data tries (- ETIMEDOUT)
                            (clear_input_buf con3) (log_event (WaitResp False) w3)
                     else Some (0, con3\<lparr>received_resp := False\<rparr>,
                                log_event (WaitResp True) w3))))"

definition nx_con_hid_send_sync ::
  "(nat \<Rightarrow> attempt) \<Rightarrow> u8 list \<Rightarrow> nx_con \<Rightarrow> world \<Rightarrow> (int \<times> nx_con \<times> world) option" where
  "nx_con_hid_send_sync env data con w = hid_send_sync_loop env data 2 0 con w"

definition nx_con_send_usb ::
  "(nat \<Rightarrow> attempt) \<Rightarrow> u8 \<Rightarrow> nx_con \<Rightarrow> world \<Rightarrow> (int \<times> nx_con \<times> world) option" where
  "nx_con_send_usb env cmd con w =
     nx_con_hid_send_sync env [NX_CON_OUTPUT_USB_CMD, cmd]
       (con\<lparr>usb_ack_match := cmd, msg_type := NX_CON_MSG_TYPE_USB\<rparr>) w"

record nx_con_subcmd_request =
  sc_output_id :: u8
  sc_packet_num :: u8
  sc_rumble_data :: "u8 list"
  subcmd_id :: u8
  sc_data :: "u8 list"

definition subcmd_bytes :: "nx_con_subcmd_request \<Rightarrow> u8 list" where
  "subcmd_bytes req =
     sc_output_id req # sc_packet_num req # sc_rumble_data req @ subcmd_id req # sc_data req"

record nx_con_rumble_output =
  ro_output_id :: u8
  ro_packet_num :: u8
  ro_rumble_data :: "u8 list"

definition rumble_output_bytes :: "nx_con_rumble_output \<Rightarrow> u8 list" where
  "rumble_output_bytes out = ro_output_id out # ro_packet_num out # ro_rumble_data out"

definition next_subcmd_num :: "u8 \<Rightarrow> u8" where
  \<comment> \<open>\<open>if (++con->subcmd_num > 0xF) con->subcmd_num = 0;\<close>\<close>
  "next_subcmd_num n = (if n + 1 > 0xF then 0 else n + 1)"

definition nx_con_send_subcmd ::
  "(nat \<Rightarrow> attempt) \<Rightarrow> nx_con_subcmd_request \<Rightarrow> nx_con \<Rightarrow> world
     \<Rightarrow> (int \<times> nx_con \<times> world) option" where
  "nx_con_send_subcmd env subcmd con w =
     (if state con = NX_CON_STATE_REMOVED then Some (- ENODEV, con, w)
      else
        (let subcmd1 = subcmd\<lparr>sc_rumble_data := rumble_data con ! nat (rumble_queue_tail con),
                              sc_output_id := NX_CON_OUTPUT_RUMBLE_AND_SUBCMD,
                              sc_packet_num := subcmd_num con\<rparr>;
             con1 = con\<lparr>subcmd_num := next_subcmd_num (subcmd_num con),
                        subcmd_ack_match := subcmd_id subcmd1,
                        msg_type := NX_CON_MSG_TYPE_SUBCMD\<rparr>
         in case nx_con_hid_send_sync env (subcmd_bytes subcmd1) con1 w of
              None \<Rightarrow> None
            | Some (ret, con2, w2) \<Rightarrow>
                if ret < 0 then Some (ret, con2, w2) else Some (0, con2, w2)))"

definition nx_con_send_rumble_data ::
  "(nat \<Rightarrow> attempt) \<Rightarrow> nx_con \<Rightarrow> world \<Rightarrow> (int \<times> nx_con \<times> world) option" where
  "nx_con_send_rumble_data env con w =
     (if state con = NX_CON_STATE_REMOVED then Some (- ENODEV, con, w)
      else
        (let out = \<lparr>ro_output_id = NX_CON_OUTPUT_RUMBLE_ONLY,
                    ro_packet_num = subcmd_num con,
                    ro_rumble_data = rumble_data con ! nat (rumble_queue_tail con)\<rparr>;
             con1 = con\<lparr>subcmd_num := next_subcmd_num (subcmd_num con)\<rparr>
         in case nx_con_enforce_subcmd_rate env con1 w of
              None \<Rightarrow> None
            | Some (con2, w1) \<Rightarrow>
                (let (ret, w2) = nx_con_hid_send_raw env (rumble_output_bytes out) w1
                 in Some (ret, con2, w2))))"

section \<open>Calibration loader\<close>

text \<open>
  \<open>nx_con_request_spi_flash_read\<close>: on success the reply pointer is \<open>&report->subcmd_reply.data[5]\<close>,
  byte 20 of the input buffer; on failure it is not set.
\<close>

definition nx_con_request_spi_flash_read ::
  "(nat \<Rightarrow> attempt) \<Rightarrow> u32 \<Rightarrow> u8 \<Rightarrow> nx_con \<Rightarrow> world
     \<Rightarrow> (int \<times> u8 list option \<times> nx_con \<times> world) option" where
  "nx_con_request_spi_flash_read env start_addr sz con w =
     (let req = \<lparr>sc_output_id = 0, sc_packet_num = 0, sc_rumble_data = replicate 8 0,
                 subcmd_id = NX_CON_SUBCMD_SPI_FLASH_READ,
                 sc_data = put_unaligned_le32 start_addr @ [sz]\<rparr>
      in case nx_con_send_subcmd env req con w of
           None \<Rightarrow> None
         | Some (ret, con', w') \<Rightarrow>
             if ret \<noteq> 0 then Some (ret, None, con', w')
             else Some (ret, Some (drop 20 (input_buf con')), con', w'))"

definition nx_con_check_for_cal_magic ::
  "(nat \<Rightarrow> attempt) \<Rightarrow> u32 \<Rightarrow> nx_con \<Rightarrow> world \<Rightarrow> (int \<times> nx_con \<times> world) option" where
  "nx_con_check_for_cal_magic env flash_addr con w =
     (case nx_con_request_spi_flash_read env flash_addr NX_CON_CAL_USR_MAGIC_SIZE con w of
        None \<Rightarrow> None
      | Some (ret, reply, con', w') \<Rightarrow>
          (case reply of
             None \<Rightarrow> Some (ret, con', w')
           | Some rp \<Rightarrow>
               Some ((if rp ! 0 \<noteq> NX_CON_CAL_USR_MAGIC_0 \<or> rp ! 1 \<noteq> NX_CON_CAL_USR_MAGIC_1
                      then 1 else 0), con', w')))"

text \<open>The parsing half of \<open>nx_con_read_stick_calibration\<close>: the x and the y calibration.\<close>

definition parse_stick_cal :: "u8 list \<Rightarrow> bool \<Rightarrow> nx_con_stick_cal \<times> nx_con_stick_cal" where
  "parse_stick_cal raw left_stick =
     (let (x_max_above, y_max_above, x_center, y_center, x_min_below, y_min_below) =
            (if left_stick
             then (hid_field_extract (drop 0 raw) 0 12, hid_field_extract (drop 1 raw) 4 12,
                   hid_field_extract (drop 3 raw) 0 12, hid_field_extract (drop 4 raw) 4 12,
                   hid_field_extract (drop 6 raw) 0 12, hid_field_extract (drop 7 raw) 4 12)
             else (hid_field_extract (drop 6 raw) 0 12, hid_field_extract (drop 7 raw) 4 12,
                   hid_field_extract (drop 0 raw) 0 12, hid_field_extract (drop 1 raw) 4 12,
                   hid_field_extract (drop 3 raw) 0 12, hid_field_extract (drop 4 raw) 4 12))
      in (\<lparr>cal_max = x_center + x_max_above, cal_min = x_center - x_min_below,
           cal_center = x_center\<rparr>,
          \<lparr>cal_max = y_center + y_max_above, cal_min = y_center - y_min_below,
           cal_center = y_center\<rparr>))"

definition nx_con_read_stick_calibration ::
  "(nat \<Rightarrow> attempt) \<Rightarrow> u32 \<Rightarrow> bool \<Rightarrow> nx_con \<Rightarrow> world
     \<Rightarrow> (int \<times> (nx_con_stick_cal \<times> nx_con_stick_cal) option \<times> nx_con \<times> world) option" where
  "nx_con_read_stick_calibration env cal_addr left_stick con w =
     (case nx_con_request_spi_flash_read env cal_addr NX_CON_CAL_STICK_DATA_SIZE con w of
        None \<Rightarrow> None
      | Some (ret, reply, con', w') \<Rightarrow>
          (case reply of
             None \<Rightarrow> Some (ret, None, con', w')
           | Some raw \<Rightarrow> Some (0, Some (parse_stick_cal raw left_stick), con', w')))"

definition DFLT_STICK_CAL_CEN :: int where "DFLT_STICK_CAL_CEN = 2000"
definition DFLT_STICK_CAL_MAX :: int where "DFLT_STICK_CAL_MAX = 3500"
definition DFLT_STICK_CAL_MIN :: int where "DFLT_STICK_CAL_MIN = 500"

definition dflt_stick_cal :: nx_con_stick_cal where
  "dflt_stick_cal = \<lparr>cal_max = DFLT_STICK_CAL_MAX, cal_min = DFLT_STICK_CAL_MIN,
                     cal_center = DFLT_STICK_CAL_CEN\<rparr>"

definition nx_con_request_calibration ::
  "(nat \<Rightarrow> attempt) \<Rightarrow> nx_con \<Rightarrow> world \<Rightarrow> (int \<times> nx_con \<times> world) option" where
  "nx_con_request_calibration env con w =
     (case nx_con_check_for_cal_magic env NX_CON_CAL_USR_LEFT_MAGIC_ADDR con w of
        None \<Rightarrow> None
      | Some (m1, con1, w1) \<Rightarrow>
     (case nx_con_check_for_cal_magic env NX_CON_CAL_USR_RIGHT_MAGIC_ADDR con1 w1 of
        None \<Rightarrow> None
      | Some (m2, con2, w2) \<Rightarrow>
     (let left_stick_addr = (if m1 = 0 then NX_CON_CAL_USR_LEFT_DATA_ADDR
                             else NX_CON_CAL_FCT_DATA_LEFT_ADDR);
          right_stick_addr = (if m2 = 0 then NX_CON_CAL_USR_RIGHT_DATA_ADDR
                              else NX_CON_CAL_FCT_DATA_RIGHT_ADDR)
      in case nx_con_read_stick_calibration env left_stick_addr True con2 w2 of
           None \<Rightarrow> None
         | Some (r3, l, con3, w3) \<Rightarrow>
     (let con4 = (case l of
                    None \<Rightarrow> con3\<lparr>left_stick_cal_x := dflt_stick_cal,
                                  left_stick_cal_y := dflt_stick_cal\<rparr>
                  | Some (cx, cy) \<Rightarrow> con3\<lparr>left_stick_cal_x := cx, left_stick_cal_y := cy\<rparr>)
      in case nx_con_read_stick_calibration env right_stick_addr False con4 w3 of
           None \<Rightarrow> None
         | Some (r5, r, con5, w5) \<Rightarrow>
             Some (0,
                   (case r of
                      None \<Rightarrow> con5\<lparr>right_stick_cal_x := dflt_stick_cal,
                                    right_stick_cal_y := dflt_stick_cal\<rparr>
                    | Some (cx, cy) \<Rightarrow> con5\<lparr>right_stick_cal_x := cx, right_stick_cal_y := cy\<rparr>),
                   w5)))))"

definition nx_con_calc_imu_cal_divisors :: "nx_con \<Rightarrow> nx_con" where
  "nx_con_calc_imu_cal_divisors con =
     fold (\<lambda>i c. c\<lparr>imu_cal_accel_divisor :=
                      (imu_cal_accel_divisor c)(i := scale (accel_cal c) i - offset (accel_cal c) i),
                    imu_cal_gyro_divisor :=
                      (imu_cal_gyro_divisor c)(i := scale (gyro_cal c) i - offset (gyro_cal c) i)\<rparr>)
          [0..<3] con"

definition DFLT_ACCEL_OFFSET :: int where "DFLT_ACCEL_OFFSET = 0"
definition DFLT_ACCEL_SCALE :: int where "DFLT_ACCEL_SCALE = 16384"
definition DFLT_GYRO_OFFSET :: int where "DFLT_GYRO_OFFSET = 0"
definition DFLT_GYRO_SCALE :: int where "DFLT_GYRO_SCALE = 13371"

definition set_dflt_imu_cal :: "nx_con \<Rightarrow> nx_con" where
  "set_dflt_imu_cal con =
     fold (\<lambda>i c. c\<lparr>accel_cal := \<lparr>offset = (offset (accel_cal c))(i := DFLT_ACCEL_OFFSET),
                                  scale = (scale (accel_cal c))(i := DFLT_ACCEL_SCALE)\<rparr>,
                    gyro_cal := \<lparr>offset = (offset (gyro_cal c))(i := DFLT_GYRO_OFFSET),
                                 scale = (scale (gyro_cal c))(i := DFLT_GYRO_SCALE)\<rparr>\<rparr>)
          [0..<3] con"

definition parse_imu_cal :: "u8 list \<Rightarrow> nx_con \<Rightarrow> nx_con" where
  "parse_imu_cal raw_cal con =
     fold (\<lambda>i c. let j = i * 2 in
             c\<lparr>accel_cal :=
                 \<lparr>offset = (offset (accel_cal c))(i := sint (get_unaligned_le16 (drop j raw_cal))),
                  scale = (scale (accel_cal c))(i := sint (get_unaligned_le16 (drop (j + 6) raw_cal)))\<rparr>,
               gyro_cal :=
                 \<lparr>offset = (offset (gyro_cal c))(i := sint (get_unaligned_le16 (drop (j + 12) raw_cal))),
                  scale = (scale (gyro_cal c))(i := sint (get_unaligned_le16 (drop (j + 18) raw_cal)))\<rparr>\<rparr>)
          [0..<3] con"

definition nx_con_request_imu_calibration ::
  "(nat \<Rightarrow> attempt) \<Rightarrow> nx_con \<Rightarrow> world \<Rightarrow> (int \<times> nx_con \<times> world) option" where
  "nx_con_request_imu_calibration env con w =
     (case nx_con_check_for_cal_magic env NX_CON_IMU_CAL_USR_MAGIC_ADDR con w of
        None \<Rightarrow> None
      | Some (m, con1, w1) \<Rightarrow>
          (let imu_cal_addr = (if m = 0 then NX_CON_IMU_CAL_USR_DATA_ADDR
                               else NX_CON_IMU_CAL_FCT_DATA_ADDR)
           in case nx_con_request_spi_flash_read env imu_cal_addr NX_CON_IMU_CAL_DATA_SIZE
                     con1 w1 of
                None \<Rightarrow> None
              | Some (ret, reply, con2, w2) \<Rightarrow>
                  (case reply of
                     None \<Rightarrow>
                       Some (ret, nx_con_calc_imu_cal_divisors (set_dflt_imu_cal con2), w2)
                   | Some raw_cal \<Rightarrow>
                       Some (0, nx_con_calc_imu_cal_divisors (parse_imu_cal raw_cal con2),
                             w2))))"

section \<open>Rumble encoder and scheduler\<close>

record nx_con_rumble_freq_data =
  freq_high :: u16
  freq_low :: u8
  freq :: u16

record nx_con_rumble_amp_data =
  amp_high :: u8
  amp_low :: u16
  amp :: u16

text \<open>The two tables, each row as (high, low, key).\<close>

definition nx_con_rumble_frequencies :: "nx_con_rumble_freq_data list" where
  "nx_con_rumble_frequencies =
     map (\<lambda>(h, l, f). \<lparr>freq_high = h, freq_low = l, freq = f\<rparr>)
     [
      (0x0000, 0x01, 41), (0x0000, 0x02, 42), (0x0000, 0x03, 43), (0x0000, 0x04, 44),
      (0x0000, 0x05, 45), (0x0000, 0x06, 46), (0x0000, 0x07, 47), (0x0000, 0x08, 48),
      (0x0000, 0x09, 49), (0x0000, 0x0a, 50), (0x0000, 0x0b, 51), (0x0000, 0x0c, 52),
      (0x0000, 0x0d, 53), (0x0000, 0x0e, 54), (0x0000, 0x0f, 55), (0x0000, 0x10, 57),
      (0x0000, 0x11, 58), (0x0000, 0x12, 59), (0x0000, 0x13, 60), (0x0000, 0x14, 62),
      (0x0000, 0x15, 63), (0x0000, 0x16, 64), (0x0000, 0x17, 66), (0x0000, 0x18, 67),
      (0x0000, 0x19, 69), (0x0000, 0x1a, 70), (0x0000, 0x1b, 72), (0x0000, 0x1c, 73),
      (0x0000, 0x1d, 75), (0x0000, 0x1e, 77), (0x0000, 0x1f, 78), (0x0000, 0x20, 80),
      (0x0400, 0x21, 82), (0x0800, 0x22, 84), (0x0c00, 0x23, 85), (0x1000, 0x24, 87),
      (0x1400, 0x25, 89), (0x1800, 0x26, 91), (0x1c00, 0x27, 93), (0x2000, 0x28, 95),
      (0x2400, 0x29, 97), (0x2800, 0x2a, 99), (0x2c00, 0x2b, 102), (0x3000, 0x2c, 104),
      (0x3400, 0x2d, 106), (0x3800, 0x2e, 108), (0x3c00, 0x2f, 111), (0x4000, 0x30, 113),
      (0x4400, 0x31, 116), (0x4800, 0x32, 118), (0x4c00, 0x33, 121), (0x5000, 0x34, 123),
      (0x5400, 0x35, 126), (0x5800, 0x36, 129), (0x5c00, 0x37, 132), (0x6000, 0x38, 135),
      (0x6400, 0x39, 137), (0x6800, 0x3a, 141), (0x6c00, 0x3b, 144), (0x7000, 0x3c, 147),
      (0x7400, 0x3d, 150), (0x7800, 0x3e, 153), (0x7c00, 0x3f, 157), (0x8000, 0x40, 160),
      (0x8400, 0x41, 164), (0x8800, 0x42, 167), (0x8c00, 0x43, 171), (0x9000, 0x44, 174),
      (0x9400, 0x45, 178), (0x9800, 0x46, 182), (0x9c00, 0x47, 186), (0xa000, 0x48, 190),
      (0xa400, 0x49, 194), (0xa800, 0x4a, 199), (0xac00, 0x4b, 203), (0xb000, 0x4c, 207),
      (0xb400, 0x4d, 212), (0xb800, 0x4e, 217), (0xbc00, 0x4f, 221), (0xc000, 0x50, 226),
      (0xc400, 0x51, 231), (0xc800, 0x52, 236), (0xcc00, 0x53, 241), (0xd000, 0x54, 247),
      (0xd400, 0x55, 252), (0xd800, 0x56, 258), (0xdc00, 0x57, 263), (0xe000, 0x58, 269),
      (0xe400, 0x59, 275), (0xe800, 0x5a, 281), (0xec00, 0x5b, 287), (0xf000, 0x5c, 293),
      (0xf400, 0x5d, 300), (0xf800, 0x5e, 306), (0xfc00, 0x5f, 313), (0x0001, 0x60, 320),
      (0x0401, 0x61, 327), (0x0801, 0x62, 334), (0x0c01, 0x63, 341), (0x1001, 0x64, 349),
      (0x1401, 0x65, 357), (0x1801, 0x66, 364), (0x1c01, 0x67, 372), (0x2001, 0x68, 381),
      (0x2401, 0x69, 389), (0x2801, 0x6a, 397), (0x2c01, 0x6b, 406), (0x3001, 0x6c, 415),
      (0x3401, 0x6d, 424), (0x3801, 0x6e, 433), (0x3c01, 0x6f, 443), (0x4001, 0x70, 453),
      (0x4401, 0x71, 462), (0x4801, 0x72, 473), (0x4c01, 0x73, 483), (0x5001, 0x74, 494),
      (0x5401, 0x75, 504), (0x5801, 0x76, 515), (0x5c01, 0x77, 527), (0x6001, 0x78, 538),
      (0x6401, 0x79, 550), (0x6801, 0x7a, 562), (0x6c01, 0x7b, 574), (0x7001, 0x7c, 587),
      (0x7401, 0x7d, 600), (0x7801, 0x7e, 613), (0x7c01, 0x7f, 626), (0x8001, 0x00, 640),
      (0x8401, 0x00, 654), (0x8801, 0x00, 668), (0x8c01, 0x00, 683), (0x9001, 0x00, 698),
      (0x9401, 0x00, 713), (0x9801, 0x00, 729), (0x9c01, 0x00, 745), (0xa001, 0x00, 761),
      (0xa401, 0x00, 778), (0xa801, 0x00, 795), (0xac01, 0x00, 812), (0xb001, 0x00, 830),
      (0xb401, 0x00, 848), (0xb801, 0x00, 867), (0xbc01, 0x00, 886), (0xc001, 0x00, 905),
      (0xc401, 0x00, 925), (0xc801, 0x00, 945), (0xcc01, 0x00, 966), (0xd001, 0x00, 987),
      (0xd401, 0x00, 1009), (0xd801, 0x00, 1031), (0xdc01, 0x00, 1053), (0xe001, 0x00, 1076),
      (0xe401, 0x00, 1100), (0xe801, 0x00, 1124), (0xec01, 0x00, 1149), (0xf001, 0x00, 1174),
      (0xf401, 0x00, 1199), (0xf801, 0x00, 1226), (0xfc01, 0x00, 1253)]"

definition nx_con_max_rumble_amp :: u16 where
  "nx_con_max_rumble_amp = 1003"

definition nx_con_rumble_amplitudes :: "nx_con_rumble_amp_data list" where
  "nx_con_rumble_amplitudes =
     map (\<lambda>(h, l, a). \<lparr>amp_high = h, amp_low = l, amp = a\<rparr>)
     [
      (0x00, 0x0040, 0), (0x02, 0x8040, 10), (0x04, 0x0041, 12), (0x06, 0x8041, 14),
      (0x08, 0x0042, 17), (0x0a, 0x8042, 20), (0x0c, 0x0043, 24), (0x0e, 0x8043, 28),
      (0x10, 0x0044, 33), (0x12, 0x8044, 40), (0x14, 0x0045, 47), (0x16, 0x8045, 56),
      (0x18, 0x0046, 67), (0x1a, 0x8046, 80), (0x1c, 0x0047, 95), (0x1e, 0x8047, 112),
      (0x20, 0x0048, 117), (0x22, 0x8048, 123), (0x24, 0x0049, 128), (0x26, 0x8049, 134),
      (0x28, 0x004a, 140), (0x2a, 0x804a, 146), (0x2c, 0x004b, 152), (0x2e, 0x804b, 159),
      (0x30, 0x004c, 166), (0x32, 0x804c, 173), (0x34, 0x004d, 181), (0x36, 0x804d, 189),
      (0x38, 0x004e, 198), (0x3a, 0x804e, 206), (0x3c, 0x004f, 215), (0x3e, 0x804f, 225),
      (0x40, 0x0050, 230), (0x42, 0x8050, 235), (0x44, 0x0051, 240), (0x46, 0x8051, 245),
      (0x48, 0x0052, 251), (0x4a, 0x8052, 256), (0x4c, 0x0053, 262), (0x4e, 0x8053, 268),
      (0x50, 0x0054, 273), (0x52, 0x8054, 279), (0x54, 0x0055, 286), (0x56, 0x8055, 292),
      (0x58, 0x0056, 298), (0x5a, 0x8056, 305), (0x5c, 0x0057, 311), (0x5e, 0x8057, 318),
      (0x60, 0x0058, 325), (0x62, 0x8058, 332), (0x64, 0x0059, 340), (0x66, 0x8059, 347),
      (0x68, 0x005a, 355), (0x6a, 0x805a, 362), (0x6c, 0x005b, 370), (0x6e, 0x805b, 378),
      (0x70, 0x005c, 387), (0x72, 0x805c, 395), (0x74, 0x005d, 404), (0x76, 0x805d, 413),
      (0x78, 0x005e, 422), (0x7a, 0x805e, 431), (0x7c, 0x005f, 440), (0x7e, 0x805f, 450),
      (0x80, 0x0060, 460), (0x82, 0x8060, 470), (0x84, 0x0061, 480), (0x86, 0x8061, 491),
      (0x88, 0x0062, 501), (0x8a, 0x8062, 512), (0x8c, 0x0063, 524), (0x8e, 0x8063, 535),
      (0x90, 0x0064, 547), (0x92, 0x8064, 559), (0x94, 0x0065, 571), (0x96, 0x8065, 584),
      (0x98, 0x0066, 596), (0x9a, 0x8066, 609), (0x9c, 0x0067, 623), (0x9e, 0x8067, 636),
      (0xa0, 0x0068, 650), (0xa2, 0x8068, 665), (0xa4, 0x0069, 679), (0xa6, 0x8069, 694),
      (0xa8, 0x006a, 709), (0xaa, 0x806a, 725), (0xac, 0x006b, 741), (0xae, 0x806b, 757),
      (0xb0, 0x006c, 773), (0xb2, 0x806c, 790), (0xb4, 0x006d, 808), (0xb6, 0x806d, 825),
      (0xb8, 0x006e, 843), (0xba, 0x806e, 862), (0xbc, 0x006f, 881), (0xbe, 0x806f, 900),
      (0xc0, 0x0070, 920), (0xc2, 0x8070, 940), (0xc4, 0x0071, 960), (0xc6, 0x8071, 981),
      (0xc8, 0x0072, nx_con_max_rumble_amp)]"

text \<open>
  The search loop of \<open>nx_con_find_rumble_freq\<close>,
  \<open>for (i = 1; i < length - 1; i++) if (freq > data[i - 1].freq && freq <= data[i].freq) break;\<close>,
  over any table, returning the final index.
\<close>

function find_rumble_freq_loop :: "nx_con_rumble_freq_data list \<Rightarrow> u16 \<Rightarrow> nat \<Rightarrow> nat" where
  "find_rumble_freq_loop data f i =
     (if i < length data - 1
      then (if f > freq (data ! (i - 1)) \<and> f \<le> freq (data ! i) then i
            else find_rumble_freq_loop data f (i + 1))
      else i)"
  by pat_completeness auto
termination
  by (relation "measure (\<lambda>(data, f, i). length data - i)") auto

declare find_rumble_freq_loop.simps [simp del]

definition find_rumble_freq_in :: "nx_con_rumble_freq_data list \<Rightarrow> u16 \<Rightarrow> nx_con_rumble_freq_data" where
  "find_rumble_freq_in data f =
     data ! (if f > freq (data ! 0) then find_rumble_freq_loop data f 1 else 0)"

definition nx_con_find_rumble_freq :: "u16 \<Rightarrow> nx_con_rumble_freq_data" where
  "nx_con_find_rumble_freq f = find_rumble_freq_in nx_con_rumble_frequencies f"

function find_rumble_amp_loop :: "nx_con_rumble_amp_data list \<Rightarrow> u16 \<Rightarrow> nat \<Rightarrow> nat" where
  "find_rumble_amp_loop data a i =
     (if i < length data - 1
      then (if a > amp (data ! (i - 1)) \<and> a \<le> amp (data ! i) then i
            else find_rumble_amp_loop data a (i + 1))
      else i)"
  by pat_completeness auto
termination
  by (relation "measure (\<lambda>(data, a, i). length data - i)") auto

declare find_rumble_amp_loop.simps [simp del]

definition nx_con_find_rumble_amp :: "u16 \<Rightarrow> nx_con_rumble_amp_data" where
  "nx_con_find_rumble_amp a =
     nx_con_rumble_amplitudes !
       (if a > amp (nx_con_rumble_amplitudes ! 0)
        then find_rumble_amp_loop nx_con_rumble_amplitudes a 1 else 0)"

definition nx_con_encode_rumble :: "u16 \<Rightarrow> u16 \<Rightarrow> u16 \<Rightarrow> u8 list" where
  "nx_con_encode_rumble freq_lo freq_hi a =
     (let freq_data_low = nx_con_find_rumble_freq freq_lo;
          freq_data_high = nx_con_find_rumble_freq freq_hi;
          amp_data = nx_con_find_rumble_amp a
      in [ucast (drop_bit 8 (freq_high freq_data_high) AND 0xFF),
          ucast (freq_high freq_data_high AND 0xFF) + amp_high amp_data,
          freq_low freq_data_low + ucast (drop_bit 8 (amp_low amp_data) AND 0xFF),
          ucast (amp_low amp_data AND 0xFF)])"

definition scale_amp :: "u16 \<Rightarrow> u16" where
  \<comment> \<open>\<open>amp * (u32)nx_con_max_rumble_amp / 65535\<close>, stored in a \<open>u16\<close>\<close>
  "scale_amp a = ucast ((ucast a :: u32) * ucast nx_con_max_rumble_amp div 65535)"

definition queue_next :: "int \<Rightarrow> int" where
  \<comment> \<open>\<open>if (++i >= NX_CON_RUMBLE_QUEUE_SIZE) i = 0;\<close> on an \<open>int\<close>\<close>
  "queue_next i = (if s32 (i + 1) \<ge> NX_CON_RUMBLE_QUEUE_SIZE then 0 else s32 (i + 1))"

text \<open>
  \<open>nx_con_set_rumble\<close>; the last component of the result says whether the worker was
  queued at once.
\<close>

definition nx_con_set_rumble :: "nx_con \<Rightarrow> u16 \<Rightarrow> u16 \<Rightarrow> bool \<Rightarrow> int \<times> nx_con \<times> bool" where
  "nx_con_set_rumble con amp_r amp_l schedule_now =
     (let freq_r_low = rumble_rl_freq con;
          freq_r_high = rumble_rh_freq con;
          freq_l_low = rumble_ll_freq con;
          freq_l_high = rumble_lh_freq con;
          con1 = (if amp_l \<noteq> 0 \<or> amp_r \<noteq> 0
                  then con\<lparr>rumble_zero_countdown := NX_CON_RUMBLE_ZERO_AMP_PKT_CNT\<rparr>
                  else con);
          data_r = nx_con_encode_rumble freq_r_low freq_r_high (scale_amp amp_r);
          data_l = nx_con_encode_rumble freq_l_low freq_l_high (scale_amp amp_l);
          head = queue_next (rumble_queue_head con1);
          con2 = con1\<lparr>rumble_queue_head := head,
                      rumble_data := (rumble_data con1)[nat head := data_l @ data_r]\<rparr>
      in (0, con2, schedule_now))"

text \<open>
  \<open>nx_con_rumble_worker\<close>: the loop ends when the tail has caught up with the head; the
  clock is read after each send, as a function of the number of send attempts so far.
\<close>

partial_function (option) nx_con_rumble_worker ::
  "(nat \<Rightarrow> attempt) \<Rightarrow> (nat \<Rightarrow> u32) \<Rightarrow> nx_con \<Rightarrow> world \<Rightarrow> (nx_con \<times> world) option" where
  "nx_con_rumble_worker env clock con w =
     (case nx_con_send_rumble_data env con w of
        None \<Rightarrow> None
      | Some (ret, con1, w1) \<Rightarrow>
          (let con2 = con1\<lparr>rumble_msecs := clock (attempts w1)\<rparr>
           in if rumble_queue_tail con2 \<noteq> rumble_queue_head con2
              then nx_con_rumble_worker env clock
                     (con2\<lparr>rumble_queue_tail := queue_next (rumble_queue_tail con2)\<rparr>) w1
              else Some (con2, w1)))"

text \<open>
  The scheduler driven by a sequence of input reports, each given by its vibrator byte and
  the time elapsed since the last rumble send; a report that queues the worker is followed
  by the worker's run. The result lists, per report, whether the sender fired.
\<close>

fun rumble_reports ::
  "(nat \<Rightarrow> attempt) \<Rightarrow> (nat \<Rightarrow> u32) \<Rightarrow> bool \<Rightarrow> (u8 \<times> u32) list \<Rightarrow> nx_con \<Rightarrow> world
     \<Rightarrow> (bool list \<times> nx_con \<times> world) option" where
  "rumble_reports env clock ff [] con w = Some ([], con, w)"
| "rumble_reports env clock ff ((vib, elapsed) # rs) con w =
     (case nx_con_handle_rumble_report ff con vib (rumble_msecs con + elapsed) of
        (con1, fire) \<Rightarrow>
          (case (if fire then nx_con_rumble_worker env clock con1 w else Some (con1, w)) of
             None \<Rightarrow> None
           | Some (con2, w2) \<Rightarrow>
               (case rumble_reports env clock ff rs con2 w2 of
                  None \<Rightarrow> None
                | Some (fs, con3, w3) \<Rightarrow> Some (fire # fs, con3, w3))))"

section \<open>Predicates and sample inputs of the properties\<close>

subsection \<open>Command coordinator\<close>

text \<open>
  What an attempt of the environment means for the caller: the send fails when the buffer
  copy or the transport fails, the error is then \<open>-ENOMEM\<close> or the transport's code, and the
  frame reaches the transport only when the buffer copy succeeded; no arrival while the
  rate is enforced (there is none unless the state is \<open>NX_CON_STATE_READ\<close>), and none of the
  attempt at all, is the reply the controller waits for.
\<close>

definition send_fails :: "attempt \<Rightarrow> bool" where
  "send_fails a = (\<not> alloc_ok a \<or> send_ret a < 0)"

definition send_error :: "attempt \<Rightarrow> int" where
  "send_error a = (if \<not> alloc_ok a then - ENOMEM else send_ret a)"

definition sent_frames :: "attempt \<Rightarrow> u8 list \<Rightarrow> u8 list list" where
  "sent_frames a data = (if alloc_ok a then [data] else [])"

definition rate_silent :: "nx_con \<Rightarrow> attempt \<Rightarrow> bool" where
  "rate_silent con a =
     (state con \<noteq> NX_CON_STATE_READ \<or>
      (\<forall>j. \<forall>d \<in> set (rw_inbound (rate_waits a j)). \<not> reply_matches con (a_data d)))"


text \<open>
  The frames and the outcomes of the waits that a call has added to the trace.
\<close>

definition new_frames :: "world \<Rightarrow> world \<Rightarrow> u8 list list" where
  "new_frames w w' = drop (length (sends (trace w))) (sends (trace w'))"

definition new_wait_results :: "world \<Rightarrow> world \<Rightarrow> bool list" where
  "new_wait_results w w' = drop (length (wait_results (trace w))) (wait_results (trace w'))"

text \<open>
  Sample environments: a device that never answers, a transport that rejects every send, a
  host out of memory, and a transport that takes the first send and rejects the others; in
  each of them the clock stands at 0 when the rate is checked and at 30 after a wait for an
  input report.
\<close>

definition quiet_rate_wait :: "nat \<Rightarrow> rate_wait" where
  "quiet_rate_wait i = \<lparr>rw_inbound = [], rw_clk = 30\<rparr>"

definition env_silent :: "nat \<Rightarrow> attempt" where
  "env_silent n = \<lparr>rate_clk = 0, rate_waits = quiet_rate_wait,
                   alloc_ok = True, send_ret = 0, inbound = []\<rparr>"

definition env_unplugged :: "nat \<Rightarrow> attempt" where
  "env_unplugged n = \<lparr>rate_clk = 0, rate_waits = quiet_rate_wait,
                      alloc_ok = True, send_ret = - 19, inbound = []\<rparr>"



text \<open>
  A Pro Controller in state \<open>NX_CON_STATE_READ\<close> holding the default calibrations, the
  same waiting for the reply to subcommand \<open>0x30\<close>, and a device that in every window
  (while the rate is enforced and while the caller waits) sends the reply to another
  subcommand, \<open>0x03\<close>: a full input report, buttons A and B held, both sticks centred.
\<close>

definition con_ready :: nx_con where
  "con_ready =
     (nx_con_calc_imu_cal_divisors
        (set_dflt_imu_cal (nx_con_probe_alloc USB_DEVICE_ID_NINTENDO_PROCON)))
       \<lparr>con_type := NX_CON_TYPE_PRO, state := NX_CON_STATE_READ,
        left_stick_cal_x := dflt_stick_cal, left_stick_cal_y := dflt_stick_cal,
        right_stick_cal_x := dflt_stick_cal, right_stick_cal_y := dflt_stick_cal\<rparr>"





text \<open>
  What the handling of inbound frames leaves alone: \<open>keeps_sender_fields\<close> holds across
  every delivery, \<open>same_sync_fields\<close> across the deliveries of frames that are not the
  awaited reply; and \<open>quiet\<close> relates two worlds between which nothing was sent and no wait
  for a reply ended.
\<close>

definition keeps_stick_cal :: "nx_con \<Rightarrow> nx_con \<Rightarrow> bool" where
  "keeps_stick_cal c c' =
     (left_stick_cal_x c' = left_stick_cal_x c \<and> left_stick_cal_y c' = left_stick_cal_y c \<and>
      right_stick_cal_x c' = right_stick_cal_x c \<and> right_stick_cal_y c' = right_stick_cal_y c)"

definition keeps_sender_fields :: "nx_con \<Rightarrow> nx_con \<Rightarrow> bool" where
  "keeps_sender_fields c c' =
     (state c' = state c \<and> subcmd_num c' = subcmd_num c \<and>
      usb_ack_match c' = usb_ack_match c \<and> subcmd_ack_match c' = subcmd_ack_match c \<and>
      keeps_stick_cal c c')"

definition same_sync_fields :: "nx_con \<Rightarrow> nx_con \<Rightarrow> bool" where
  "same_sync_fields c c' =
     (keeps_sender_fields c c' \<and> msg_type c' = msg_type c \<and> input_buf c' = input_buf c \<and>
      received_resp c' = received_resp c)"

definition quiet :: "world \<Rightarrow> world \<Rightarrow> bool" where
  "quiet w w' =
     (attempts w' = attempts w \<and> sends (trace w') = sends (trace w) \<and>
      wait_results (trace w') = wait_results (trace w))"

text \<open>
  A sample subcommand (set player lights), and a driver for sequences of sends interleaved
  with state changes (as \<open>nintendo_hid_probe\<close> and \<open>nintendo_hid_remove\<close> make).
\<close>

definition req_leds :: nx_con_subcmd_request where
  "req_leds = \<lparr>sc_output_id = 0, sc_packet_num = 0, sc_rumble_data = replicate 8 0,
               subcmd_id = 0x30, sc_data = [0x01]\<rparr>"






subsection \<open>Calibration loader and sticks\<close>

text \<open>
  A stick calibration built from 12-bit fields, and a device whose calibration flash is
  erased (every data byte \<open>0xFF\<close>) but answers each read.
\<close>

definition erased_flash_reply :: "u8 list" where
  "erased_flash_reply =
     [0x21, 0, 0, 0, 0, 0, 0, 0, 0, 0, 0, 0, 0, 0x90, 0x10, 0, 0, 0, 0, 0,
      0xFF, 0xFF, 0xFF, 0xFF, 0xFF, 0xFF, 0xFF, 0xFF, 0xFF, 0xFF, 0xFF, 0xFF,
      0xFF, 0xFF, 0xFF, 0xFF, 0xFF, 0xFF, 0xFF, 0xFF, 0xFF, 0xFF, 0xFF, 0xFF,
      0xFF, 0xFF, 0xFF, 0xFF, 0xFF]"

definition env_erased_flash :: "nat \<Rightarrow> attempt" where
  "env_erased_flash n =
     \<lparr>rate_clk = 0, rate_waits = quiet_rate_wait, alloc_ok = True, send_ret = 0,
      inbound = [\<lparr>a_data = erased_flash_reply, a_slack = [], a_clk_rumble = 0, a_clk_imu = 0\<rparr>]\<rparr>"

definition stick_cal_12bit :: "nx_con_stick_cal \<Rightarrow> bool" where
  "stick_cal_12bit cal =
     (0 \<le> cal_center cal \<and> cal_center cal \<le> 4095 \<and>
      cal_center cal \<le> cal_max cal \<and> cal_max cal \<le> cal_center cal + 4095 \<and>
      cal_center cal - 4095 \<le> cal_min cal \<and> cal_min cal \<le> cal_center cal)"


subsection \<open>IMU\<close>

text \<open>
  Feeding the averager a sequence of reports given by their inter-report deltas, and the
  invariant the averager keeps once the first report has arrived.
\<close>

fun imu_feed :: "nx_con \<Rightarrow> u32 list \<Rightarrow> nx_con option" where
  "imu_feed con [] = Some con"
| "imu_feed con (d # ds) =
     (case nx_con_report_imu_timing con (imu_last_pkt_ms con + d) of
        None \<Rightarrow> None
      | Some (con', dropped) \<Rightarrow> imu_feed con' ds)"

definition imu_timing_inv :: "nx_con \<Rightarrow> bool" where
  "imu_timing_inv con =
     (imu_first_packet_received con \<longrightarrow>
        imu_delta_samples_count con < 300 \<and>
        1 \<le> imu_avg_delta_ms con \<and> imu_avg_delta_ms con \<le> 14316557)"

text \<open>A right Joy-Con holding the default IMU calibration, and a sample with all raw values 100.\<close>

definition con_jcr_dflt :: nx_con where
  "con_jcr_dflt =
     nx_con_calc_imu_cal_divisors (set_dflt_imu_cal (nx_con_probe_alloc USB_DEVICE_ID_NINTENDO_JOYCONR\<lparr>con_type := NX_CON_TYPE_JCR\<rparr>))"

definition sample_100 :: nx_con_imu_data where
  "sample_100 = \<lparr>accel_x = 100, accel_y = 100, accel_z = 100,
                 gyro_x = 100, gyro_y = 100, gyro_z = 100\<rparr>"

text \<open>
  The dropped-packet expression and the floor of the average as functions of their inputs,
  and two controllers for examples: one that has just received its first IMU report at
  clock 1000, and one whose current average is 11 ms.
\<close>

definition dropped_of :: "u32 \<Rightarrow> u32 \<Rightarrow> u32" where
  "dropped_of delta avg = (delta - min delta (avg * 3 div 2)) div avg"

definition floor1 :: "u32 \<Rightarrow> u32" where
  "floor1 a = (if a = 0 then 1 else a)"


definition con_avg_11 :: nx_con where
  "con_avg_11 = nx_con_probe_alloc USB_DEVICE_ID_NINTENDO_PROCON\<lparr>imu_first_packet_received := True, imu_avg_delta_ms := 11,
                                   imu_last_pkt_ms := 1000\<rparr>"

subsection \<open>Rumble\<close>

text \<open>
  A lookup table the search loop can work on: at least two rows, keys strictly ascending
  (checked row by row by \<open>ascending\<close>); and two rows of the frequency table.
\<close>

definition freq_table_ok :: "nx_con_rumble_freq_data list \<Rightarrow> bool" where
  "freq_table_ok data = (2 \<le> length data \<and> sorted_wrt (<) (map freq data))"

fun ascending :: "u16 list \<Rightarrow> bool" where
  "ascending [] = True"
| "ascending [x] = True"
| "ascending (x # y # zs) = (x < y \<and> ascending (y # zs))"

definition freq_entry_160 :: nx_con_rumble_freq_data where
  "freq_entry_160 = \<lparr>freq_high = 0x8000, freq_low = 0x40, freq = 160\<rparr>"

definition freq_entry_164 :: nx_con_rumble_freq_data where
  "freq_entry_164 = \<lparr>freq_high = 0x8400, freq_low = 0x41, freq = 164\<rparr>"

section \<open>Verified properties\<close>

subsection \<open>Arithmetic of the calibration and the stick mapping\<close>

lemma upt3: "[0..<3] = [0, Suc 0, Suc (Suc 0)]"
  by (simp add: numeral_3_eq_3 upt_rec)

lemma lt3_cases: "i < 3 \<Longrightarrow> i = 0 \<or> i = Suc 0 \<or> i = Suc (Suc 0)"
  by arith

lemma calc_divisors_cal [simp]:
  "accel_cal (nx_con_calc_imu_cal_divisors con) = accel_cal con"
  "gyro_cal (nx_con_calc_imu_cal_divisors con) = gyro_cal con"
  by (simp_all add: nx_con_calc_imu_cal_divisors_def upt3)

lemma calc_divisors_val:
  "i < 3 \<Longrightarrow> imu_cal_accel_divisor (nx_con_calc_imu_cal_divisors con) i
               = scale (accel_cal con) i - offset (accel_cal con) i"
  "i < 3 \<Longrightarrow> imu_cal_gyro_divisor (nx_con_calc_imu_cal_divisors con) i
               = scale (gyro_cal con) i - offset (gyro_cal con) i"
  by (auto simp: nx_con_calc_imu_cal_divisors_def upt3 dest!: lt3_cases)

lemma set_dflt_imu_cal_val:
  "i < 3 \<Longrightarrow> offset (accel_cal (set_dflt_imu_cal con)) i = 0"
  "i < 3 \<Longrightarrow> scale (accel_cal (set_dflt_imu_cal con)) i = 16384"
  "i < 3 \<Longrightarrow> offset (gyro_cal (set_dflt_imu_cal con)) i = 0"
  "i < 3 \<Longrightarrow> scale (gyro_cal (set_dflt_imu_cal con)) i = 13371"
  by (auto simp: set_dflt_imu_cal_def upt3 DFLT_ACCEL_OFFSET_def DFLT_ACCEL_SCALE_def
      DFLT_GYRO_OFFSET_def DFLT_GYRO_SCALE_def dest!: lt3_cases)

lemma hid_field_extract_12: "0 \<le> hid_field_extract r offs 12 \<and> hid_field_extract r offs 12 \<le> 4095"
proof -
  have "take_bit 12 (drop_bit offs (le_val (take ((offs + 12 + 7) div 8) r))) < (2::nat) ^ 12"
    by (rule take_bit_nat_less_exp)
  then show ?thesis by (simp add: hid_field_extract_def)
qed

lemma parse_stick_cal_12bit:
  "stick_cal_12bit (fst (parse_stick_cal raw left)) \<and> stick_cal_12bit (snd (parse_stick_cal raw left))"
  using hid_field_extract_12[of "drop 0 raw" 0] hid_field_extract_12[of "drop 1 raw" 4]
    hid_field_extract_12[of "drop 3 raw" 0] hid_field_extract_12[of "drop 4 raw" 4]
    hid_field_extract_12[of "drop 6 raw" 0] hid_field_extract_12[of "drop 7 raw" 4]
  by (simp add: parse_stick_cal_def stick_cal_12bit_def Let_def del: drop_0)

lemma dflt_stick_cal_12bit: "stick_cal_12bit dflt_stick_cal"
  by (simp add: stick_cal_12bit_def dflt_stick_cal_def DFLT_STICK_CAL_CEN_def
      DFLT_STICK_CAL_MAX_def DFLT_STICK_CAL_MIN_def)

lemma s32_id: "- (2 ^ 31) \<le> k \<Longrightarrow> k < 2 ^ 31 \<Longrightarrow> s32 k = k"
  unfolding s32_def by (rule signed_take_bit_int_eq_self) simp_all

lemma s32_range: "- (2 ^ 31) \<le> s32 k \<and> s32 k < 2 ^ 31"
  unfolding s32_def
  using signed_take_bit_int_greater_eq_minus_exp[of 31 k] signed_take_bit_int_less_exp[of 31 k]
  by simp

lemma sdiv_nonneg: "0 \<le> a \<Longrightarrow> 0 < b \<Longrightarrow> a sdiv b = a div (b::int)"
  by (simp add: signed_divide_int_def sgn_if)

lemma sdiv_nonpos: "a \<le> 0 \<Longrightarrow> 0 < b \<Longrightarrow> a sdiv b = - ((- a) div (b::int))"
  by (simp add: signed_divide_int_def sgn_if)

lemma c_div_pos: "0 < b \<Longrightarrow> c_div a b = Some (a sdiv b)"
  by (simp add: c_div_def)

lemma map_stick_upper:
  assumes "stick_cal_12bit cal" "cal_center cal < cal_max cal"
    "cal_center cal < v" "v \<le> cal_center cal + 65535"
  shows "nx_con_map_stick_val cal v =
     Some (min ((v - cal_center cal) * 32767 div (cal_max cal - cal_center cal)) 32767)"
proof -
  define N where "N = (v - cal_center cal) * 32767"
  define D where "D = cal_max cal - cal_center cal"
  have d: "0 < D" "D \<le> 4095" using assms by (simp_all add: stick_cal_12bit_def D_def)
  have n: "0 < v - cal_center cal" "v - cal_center cal \<le> 65535" using assms by simp_all
  have p: "0 \<le> N" "N < 2 ^ 31" using n by (simp_all add: N_def)
  have 1: "s32 (v - cal_center cal) = v - cal_center cal" using n by (intro s32_id) simp_all
  have 2: "s32 N = N" using p by (intro s32_id) simp_all
  have 3: "s32 D = D" using d by (intro s32_id) simp_all
  have q: "0 \<le> N div D"
    using p d by (simp add: pos_imp_zdiv_nonneg_iff)
  have "nx_con_map_stick_val cal v = map_option (\<lambda>x. clamp x (- 32767) 32767) (c_div (s32 N) (s32 D))"
    using assms(3) by (simp add: nx_con_map_stick_val_def Let_def 1 N_def D_def NX_CON_MAX_STICK_MAG_def)
  also have "\<dots> = Some (clamp (N div D) (- 32767) 32767)"
    using d p by (simp add: 2 3 c_div_pos sdiv_nonneg)
  also have "clamp (N div D) (- 32767) 32767 = min (N div D) 32767"
    using q by (simp add: clamp_def max_def)
  finally show ?thesis by (simp add: N_def D_def)
qed

lemma map_stick_lower:
  assumes "stick_cal_12bit cal" "cal_min cal < cal_center cal"
    "v \<le> cal_center cal" "cal_center cal - 65535 \<le> v"
  shows "nx_con_map_stick_val cal v =
     Some (max (- ((cal_center cal - v) * 32767 div (cal_center cal - cal_min cal))) (- 32767))"
proof -
  define N where "N = (cal_center cal - v) * 32767"
  define D where "D = cal_center cal - cal_min cal"
  have d: "0 < D" "D \<le> 4095" using assms by (simp_all add: stick_cal_12bit_def D_def)
  have n: "0 \<le> cal_center cal - v" "cal_center cal - v \<le> 65535" using assms by simp_all
  have p: "0 \<le> N" "N < 2 ^ 31" using n by (simp_all add: N_def)
  have 1: "s32 (cal_center cal - v) = cal_center cal - v" using n by (intro s32_id) simp_all
  have 2: "s32 (- N) = - N" using p by (intro s32_id) simp_all
  have 3: "s32 D = D" using d by (intro s32_id) simp_all
  have q: "0 \<le> N div D"
    using p d by (simp add: pos_imp_zdiv_nonneg_iff)
  have "nx_con_map_stick_val cal v = map_option (\<lambda>x. clamp x (- 32767) 32767) (c_div (s32 (- N)) (s32 D))"
    using assms(3) by (simp add: nx_con_map_stick_val_def Let_def 1 N_def D_def NX_CON_MAX_STICK_MAG_def)
  also have "\<dots> = Some (clamp (- (N div D)) (- 32767) 32767)"
    using d p by (simp add: 2 3 c_div_pos sdiv_nonpos sdiv_nonneg)
  also have "clamp (- (N div D)) (- 32767) 32767 = max (- (N div D)) (- 32767)"
    using q by (simp add: clamp_def min_def)
  finally show ?thesis by (simp add: N_def D_def)
qed

lemma div_le_32767:
  assumes "0 \<le> a" "a \<le> (d::int)" "0 < d"
  shows "a * 32767 div d \<le> 32767"
proof -
  have "a * 32767 \<le> 32767 * d" using assms by simp
  then have "a * 32767 div d \<le> 32767 * d div d" by (rule zdiv_mono1) (rule assms(3))
  then show ?thesis using assms(3) by simp
qed

lemma map_stick_upper_in_range:
  assumes "stick_cal_12bit cal" "cal_center cal < v" "v \<le> cal_max cal"
  shows "nx_con_map_stick_val cal v =
     Some ((v - cal_center cal) * 32767 sdiv (cal_max cal - cal_center cal))"
proof -
  have m: "cal_center cal < cal_max cal" using assms by simp
  have b: "v \<le> cal_center cal + 65535" using assms by (simp add: stick_cal_12bit_def)
  have "(v - cal_center cal) * 32767 div (cal_max cal - cal_center cal) \<le> 32767"
    using assms by (intro div_le_32767) simp_all
  moreover have "(v - cal_center cal) * 32767 sdiv (cal_max cal - cal_center cal)
     = (v - cal_center cal) * 32767 div (cal_max cal - cal_center cal)"
    using assms by (intro sdiv_nonneg) simp_all
  ultimately show ?thesis
    by (simp add: map_stick_upper[OF assms(1) m assms(2) b])
qed

lemma map_stick_lower_in_range:
  assumes "stick_cal_12bit cal" "cal_min cal \<le> v" "v \<le> cal_center cal" "cal_min cal < cal_center cal"
  shows "nx_con_map_stick_val cal v =
     Some ((cal_center cal - v) * (- 32767) sdiv (cal_center cal - cal_min cal))"
proof -
  have b: "cal_center cal - 65535 \<le> v" using assms by (simp add: stick_cal_12bit_def)
  have "(cal_center cal - v) * 32767 div (cal_center cal - cal_min cal) \<le> 32767"
    using assms by (intro div_le_32767) simp_all
  moreover have "(cal_center cal - v) * (- 32767) sdiv (cal_center cal - cal_min cal)
     = - ((- ((cal_center cal - v) * (- 32767))) div (cal_center cal - cal_min cal))"
    using assms by (intro sdiv_nonpos) (simp_all add: mult_le_0_iff)
  ultimately show ?thesis
    by (simp add: map_stick_lower[OF assms(1) assms(4) assms(3) b])
qed

lemma clamp_range: "- 32767 \<le> clamp x (- 32767) 32767 \<and> clamp x (- 32767) 32767 \<le> 32767"
  by (simp add: clamp_def)

lemma map_stick_total:
  assumes "stick_cal_12bit cal" "cal_min cal < cal_center cal" "cal_center cal < cal_max cal"
  shows "\<exists>y. nx_con_map_stick_val cal v = Some y \<and> - 32767 \<le> y \<and> y \<le> 32767"
proof -
  have d: "0 < cal_max cal - cal_center cal" "cal_max cal - cal_center cal < 2 ^ 31"
    "0 < cal_center cal - cal_min cal" "cal_center cal - cal_min cal < 2 ^ 31"
    using assms by (simp_all add: stick_cal_12bit_def)
  have 1: "s32 (cal_max cal - cal_center cal) = cal_max cal - cal_center cal"
    using d by (intro s32_id) simp_all
  have 2: "s32 (cal_center cal - cal_min cal) = cal_center cal - cal_min cal"
    using d by (intro s32_id) simp_all
  show ?thesis
    using d clamp_range
    by (simp add: nx_con_map_stick_val_def Let_def 1 2 c_div_pos NX_CON_MAX_STICK_MAG_def)
qed

lemma map_stick_mono:
  assumes c: "stick_cal_12bit cal" "cal_min cal < cal_center cal" "cal_center cal < cal_max cal"
    and v: "cal_min cal \<le> v1" "v1 \<le> v2" "v2 \<le> cal_max cal"
    and y: "nx_con_map_stick_val cal v1 = Some y1" "nx_con_map_stick_val cal v2 = Some y2"
  shows "y1 \<le> y2"
proof -
  define C where "C = cal_center cal"
  define U where "U = cal_max cal - C"
  define L where "L = C - cal_min cal"
  have pos: "0 < U" "0 < L" using c by (simp_all add: U_def L_def C_def)
  have up: "nx_con_map_stick_val cal v = Some ((v - C) * 32767 div U)"
    if "C < v" "v \<le> cal_max cal" for v
  proof -
    have "(v - C) * 32767 sdiv U = (v - C) * 32767 div U"
      using that pos by (intro sdiv_nonneg) simp_all
    then show ?thesis
      using map_stick_upper_in_range[OF c(1), of v] that by (simp add: C_def U_def)
  qed
  have lo: "nx_con_map_stick_val cal v = Some (- ((C - v) * 32767 div L))"
    if "cal_min cal \<le> v" "v \<le> C" for v
  proof -
    have "(C - v) * (- 32767) sdiv L = - ((- ((C - v) * (- 32767))) div L)"
      using that pos by (intro sdiv_nonpos) (simp_all add: mult_le_0_iff)
    then show ?thesis
      using map_stick_lower_in_range[OF c(1), of v] that c(2) by (simp add: C_def L_def)
  qed
  consider "v2 \<le> C" | "v1 \<le> C" "C < v2" | "C < v1" using v by linarith
  then show ?thesis
  proof cases
    case 1
    then have "v1 \<le> C" using v by simp
    have "(C - v2) * 32767 div L \<le> (C - v1) * 32767 div L"
      using v pos by (intro zdiv_mono1) simp_all
    then show ?thesis using lo[of v1] lo[of v2] y v 1 \<open>v1 \<le> C\<close> by simp
  next
    case 2
    have a: "0 \<le> (C - v1) * 32767 div L" using 2 pos by (simp add: pos_imp_zdiv_nonneg_iff)
    have b: "0 \<le> (v2 - C) * 32767 div U" using 2 pos by (simp add: pos_imp_zdiv_nonneg_iff)
    show ?thesis using lo[of v1] up[of v2] y v 2 a b by simp
  next
    case 3
    then have "C < v2" using v by simp
    have "(v1 - C) * 32767 div U \<le> (v2 - C) * 32767 div U"
      using v pos by (intro zdiv_mono1) simp_all
    then show ?thesis using up[of v1] up[of v2] y v 3 \<open>C < v2\<close> by simp
  qed
qed

lemma le16_ff: "sint (get_unaligned_le16 (0xFF # 0xFF # xs)) = - 1"
  by (simp add: get_unaligned_le16_def le_val_def)

subsection \<open>What the handling of inbound frames leaves alone\<close>

lemma sends_append [simp]: "sends (xs @ ys) = sends xs @ sends ys"
  by (simp add: sends_def)

lemma sends_simps [simp]:
  "sends [] = []" "sends (HidSend d # tr) = d # sends tr" "sends (WaitResp b # tr) = sends tr"
  "sends (WaitInputReport # tr) = sends tr" "sends (Input e # tr) = sends tr"
  "sends (ImuInput i # tr) = sends tr" "sends (QueueRumbleWork # tr) = sends tr"
  by (simp_all add: sends_def)

lemma wait_results_append [simp]: "wait_results (xs @ ys) = wait_results xs @ wait_results ys"
  by (simp add: wait_results_def)

lemma wait_results_simps [simp]:
  "wait_results [] = []" "wait_results (HidSend d # tr) = wait_results tr"
  "wait_results (WaitResp b # tr) = b # wait_results tr"
  "wait_results (WaitInputReport # tr) = wait_results tr"
  "wait_results (Input e # tr) = wait_results tr"
  "wait_results (ImuInput i # tr) = wait_results tr"
  "wait_results (QueueRumbleWork # tr) = wait_results tr"
  by (simp_all add: wait_results_def)

lemma sends_map_Input [simp]: "sends (map Input es) = []"
  by (induction es) simp_all

lemma sends_map_ImuInput [simp]: "sends (map ImuInput es) = []"
  by (induction es) simp_all

lemma wait_results_map_Input [simp]: "wait_results (map Input es) = []"
  by (induction es) simp_all

lemma wait_results_map_ImuInput [simp]: "wait_results (map ImuInput es) = []"
  by (induction es) simp_all

lemma quiet_refl [simp]: "quiet w w"
  by (simp add: quiet_def)

lemma quiet_trans: "quiet a b \<Longrightarrow> quiet b c \<Longrightarrow> quiet a c"
  by (simp add: quiet_def)

lemma quiet_log [simp]:
  "quiet w (log_event WaitInputReport w')= quiet w w'"
  "quiet w (log_event QueueRumbleWork w') = quiet w w'"
  "quiet w (log_events (map Input es) w') = quiet w w'"
  "quiet w (log_events (map ImuInput is) w') = quiet w w'"
  by (simp_all add: quiet_def log_event_def log_events_def)

lemma keeps_stick_cal_refl [simp]: "keeps_stick_cal c c"
  by (simp add: keeps_stick_cal_def)

lemma keeps_stick_cal_trans: "keeps_stick_cal a b \<Longrightarrow> keeps_stick_cal b c \<Longrightarrow> keeps_stick_cal a c"
  by (simp add: keeps_stick_cal_def)

lemma keeps_sender_fields_refl [simp]: "keeps_sender_fields c c"
  by (simp add: keeps_sender_fields_def)

lemma keeps_sender_fields_trans:
  "keeps_sender_fields a b \<Longrightarrow> keeps_sender_fields b c \<Longrightarrow> keeps_sender_fields a c"
  by (auto simp add: keeps_sender_fields_def intro: keeps_stick_cal_trans)

lemma same_sync_fields_refl [simp]: "same_sync_fields c c"
  by (simp add: same_sync_fields_def)

lemma same_sync_fields_trans:
  "same_sync_fields a b \<Longrightarrow> same_sync_fields b c \<Longrightarrow> same_sync_fields a c"
  by (auto simp add: same_sync_fields_def intro: keeps_sender_fields_trans)

lemma same_sync_keeps: "same_sync_fields a b \<Longrightarrow> keeps_sender_fields a b"
  by (simp add: same_sync_fields_def)

lemma reply_matches_same:
  "same_sync_fields c c' \<Longrightarrow> reply_matches c' d = reply_matches c d"
  by (simp add: same_sync_fields_def keeps_sender_fields_def reply_matches_def
      split: nx_con_msg_type.splits)

lemma imu_samples_loop_same:
  "imu_samples_loop con ds = Some (con', evs) \<Longrightarrow> same_sync_fields con con'"
proof (induction ds arbitrary: con con' evs)
  case Nil
  then show ?case by simp
next
  case (Cons d ds)
  from Cons.prems obtain c1 where
    "imu_samples_loop (con\<lparr>imu_timestamp_us :=
        imu_timestamp_us con + imu_avg_delta_ms con * 1000 div 3\<rparr>) ds = Some (con', c1)"
    by (auto split: option.splits)
  from Cons.IH[OF this] show ?case
    by (simp add: same_sync_fields_def keeps_sender_fields_def keeps_stick_cal_def)
qed

lemma report_imu_timing_same:
  "nx_con_report_imu_timing con m = Some (con', d) \<Longrightarrow> same_sync_fields con con'"
  by (auto simp add: nx_con_report_imu_timing_def Let_def same_sync_fields_def
      keeps_sender_fields_def keeps_stick_cal_def split: if_splits)

lemma report_imu_same:
  "nx_con_report_imu con m raw = Some (con', d, evs) \<Longrightarrow> same_sync_fields con con'"
  by (auto simp add: nx_con_report_imu_def Let_def split: option.splits
      dest!: report_imu_timing_same imu_samples_loop_same intro: same_sync_fields_trans)

lemma handle_rumble_report_same:
  "nx_con_handle_rumble_report ff con v m = (con', q) \<Longrightarrow> same_sync_fields con con'"
  by (auto simp add: nx_con_handle_rumble_report_def same_sync_fields_def
      keeps_sender_fields_def keeps_stick_cal_def split: if_splits)

lemma parse_battery_status_same:
  "same_sync_fields con (nx_con_parse_battery_status con b)"
  by (simp add: nx_con_parse_battery_status_def Let_def same_sync_fields_def
      keeps_sender_fields_def keeps_stick_cal_def)

lemma parse_report_same:
  assumes "nx_con_parse_report locked a con w = Some (con', w')"
  shows "same_sync_fields con con' \<and> quiet w w'"
proof -
  let ?rep = "a_data a @ a_slack a"
  obtain c1 q where r: "nx_con_handle_rumble_report CONFIG_NINTENDO_FF con (?rep ! 12) (a_clk_rumble a) = (c1, q)"
    by (cases "nx_con_handle_rumble_report CONFIG_NINTENDO_FF con (?rep ! 12) (a_clk_rumble a)")
  define con1 where "con1 = (if nx_con_has_rumble con then c1 else con)"
  define w1 where "w1 = (if nx_con_has_rumble con \<and> q then log_event QueueRumbleWork w else w)"
  define con2 where "con2 = nx_con_parse_battery_status con1 (?rep ! 2)"
  have s1: "same_sync_fields con con1"
    using handle_rumble_report_same[OF r] by (simp add: con1_def)
  have s2: "same_sync_fields con con2"
    using s1 parse_battery_status_same[of con1] unfolding con2_def
    by (blast intro: same_sync_fields_trans)
  have q1: "quiet w w1" by (simp add: w1_def)
  from assms obtain con3 w3 evs where
    i: "(if ?rep ! 0 = NX_CON_INPUT_IMU_DATA \<and> nx_con_has_imu con2
         then (case nx_con_report_imu con2 (a_clk_imu a) (drop 13 ?rep) of
                 None \<Rightarrow> None
               | Some (c, dropped, evs) \<Rightarrow> Some (c, log_events (map ImuInput evs) w1))
         else Some (con2, w1)) = Some (con3, w3)"
    and e: "con' = (if locked then con3\<lparr>received_input_report := True\<rparr> else con3)"
           "w' = log_events (map Input (evs @ [InputSync])) w3"
    by (auto simp add: nx_con_parse_report_def Let_def r con1_def w1_def con2_def
        split: option.splits if_splits)
  from i have s3: "same_sync_fields con2 con3" and q3: "quiet w1 w3"
    by (auto split: if_splits option.splits dest: report_imu_same)
  have s': "same_sync_fields con3 con'"
    by (simp add: e same_sync_fields_def keeps_sender_fields_def keeps_stick_cal_def)
  have q': "quiet w3 w'"
    unfolding e by (simp add: quiet_def log_events_def)
  show ?thesis
    using s2 s3 s' q1 q3 q' by (blast intro: same_sync_fields_trans quiet_trans)
qed

lemma read_handler_same:
  "nx_con_read_handler locked a con w = Some (con', w') \<Longrightarrow>
     same_sync_fields con con' \<and> quiet w w'"
  by (auto simp add: nx_con_read_handler_def split: if_splits dest: parse_report_same)

lemma handle_event_no_match:
  assumes "nx_con_handle_event locked a con w = Some (r, con', w')"
    and "\<not> (locked \<and> reply_matches con (a_data a))"
  shows "same_sync_fields con con' \<and> quiet w w' \<and> r = 0"
  using assms
  by (auto simp add: nx_con_handle_event_def split: if_splits option.splits
      dest: read_handler_same)

lemma handle_event_match:
  assumes "locked \<and> reply_matches con (a_data a)"
  shows "nx_con_handle_event locked a con w =
     Some (1, con\<lparr>input_buf := take NX_CON_MAX_RESP_SIZE (a_data a)
                                @ drop (length (a_data a)) (input_buf con),
                    msg_type := NX_CON_MSG_TYPE_NONE, received_resp := True\<rparr>, w)"
  using assms by (simp add: nx_con_handle_event_def)

lemma handle_event_keeps:
  assumes "nx_con_handle_event locked a con w = Some (r, con', w')"
  shows "keeps_sender_fields con con' \<and> quiet w w' \<and> (received_resp con \<longrightarrow> received_resp con')"
proof (cases "locked \<and> reply_matches con (a_data a)")
  case True
  from assms show ?thesis
    unfolding handle_event_match[OF True]
    by (auto simp add: keeps_sender_fields_def keeps_stick_cal_def)
next
  case False
  from handle_event_no_match[OF assms False] show ?thesis
    by (simp add: same_sync_fields_def)
qed

lemma hid_event_no_match:
  assumes "nintendo_hid_event locked a con w = Some (r, con', w')"
    and "\<not> (locked \<and> reply_matches con (a_data a))"
  shows "same_sync_fields con con' \<and> quiet w w'"
  using assms
  by (auto simp add: nintendo_hid_event_def split: if_splits dest: handle_event_no_match)

lemma hid_event_keeps:
  assumes "nintendo_hid_event locked a con w = Some (r, con', w')"
  shows "keeps_sender_fields con con' \<and> quiet w w' \<and> (received_resp con \<longrightarrow> received_resp con')"
  using assms
  by (auto simp add: nintendo_hid_event_def split: if_splits dest: handle_event_keeps)

lemma deliver_keeps:
  "deliver as con w = Some (con', w') \<Longrightarrow>
     keeps_sender_fields con con' \<and> quiet w w' \<and> (received_resp con \<longrightarrow> received_resp con')"
proof (induction as arbitrary: con w)
  case Nil
  then show ?case by simp
next
  case (Cons a as)
  from Cons.prems obtain r c1 w1 where
    h: "nintendo_hid_event True a con w = Some (r, c1, w1)"
    and d: "deliver as c1 w1 = Some (con', w')"
    by (auto split: option.splits)
  from hid_event_keeps[OF h] Cons.IH[OF d] show ?case
    by (blast intro: keeps_sender_fields_trans quiet_trans)
qed

lemma deliver_no_match:
  "deliver as con w = Some (con', w') \<Longrightarrow>
   \<forall>a \<in> set as. \<not> reply_matches con (a_data a) \<Longrightarrow>
     same_sync_fields con con'"
proof (induction as arbitrary: con w)
  case Nil
  then show ?case by simp
next
  case (Cons a as)
  from Cons.prems(1) obtain r c1 w1 where
    h: "nintendo_hid_event True a con w = Some (r, c1, w1)"
    and d: "deliver as c1 w1 = Some (con', w')"
    by (auto split: option.splits)
  from Cons.prems(2) have "\<not> (True \<and> reply_matches con (a_data a))" by simp
  from hid_event_no_match[OF h this] have s: "same_sync_fields con c1" by simp
  from Cons.prems(2) have "\<forall>a \<in> set as. \<not> reply_matches c1 (a_data a)"
    by (simp add: reply_matches_same[OF s])
  from Cons.IH[OF d this] s show ?case
    by (blast intro: same_sync_fields_trans)
qed

lemma quiet_log_left [simp]: "quiet (log_event WaitInputReport w) w' = quiet w w'"
  by (simp add: quiet_def log_event_def)

lemma wait_for_input_report_keeps:
  assumes "nx_con_wait_for_input_report rw con w = Some (con', w')"
  shows "keeps_sender_fields con con' \<and> quiet w w' \<and> (received_resp con \<longrightarrow> received_resp con')
     \<and> ((\<forall>a \<in> set (rw_inbound rw). \<not> reply_matches con (a_data a)) \<longrightarrow> same_sync_fields con con')"
proof (cases "state con = NX_CON_STATE_READ")
  case True
  let ?c = "con\<lparr>received_input_report := False\<rparr>"
  have s: "same_sync_fields con ?c"
    by (simp add: same_sync_fields_def keeps_sender_fields_def keeps_stick_cal_def)
  from assms True have d: "deliver (rw_inbound rw) ?c (log_event WaitInputReport w) = Some (con', w')"
    by (simp add: nx_con_wait_for_input_report_def)
  from deliver_keeps[OF d] have k: "keeps_sender_fields con con'" "quiet w w'"
    "received_resp con \<longrightarrow> received_resp con'"
    by (auto simp add: keeps_sender_fields_def keeps_stick_cal_def)
  have "same_sync_fields con con'" if n: "\<forall>a \<in> set (rw_inbound rw). \<not> reply_matches con (a_data a)"
  proof -
    from n have "\<forall>a \<in> set (rw_inbound rw). \<not> reply_matches ?c (a_data a)"
      by (simp add: reply_matches_same[OF s])
    from deliver_no_match[OF d this] s show ?thesis
      by (blast intro: same_sync_fields_trans)
  qed
  with k show ?thesis by blast
next
  case False
  with assms show ?thesis by (simp add: nx_con_wait_for_input_report_def)
qed

lemma last_sent_same [simp]: "same_sync_fields con (con\<lparr>last_subcmd_sent_msecs := m\<rparr>)"
  by (simp add: same_sync_fields_def keeps_sender_fields_def keeps_stick_cal_def)

lemma enforce_loop_keeps:
  assumes "enforce_subcmd_rate_loop rws i cur con w = Some y"
  shows "keeps_sender_fields con (fst y) \<and> quiet w (snd y)
     \<and> (received_resp con \<longrightarrow> received_resp (fst y))
     \<and> ((\<forall>j. \<forall>a \<in> set (rw_inbound (rws j)). \<not> reply_matches con (a_data a))
          \<longrightarrow> same_sync_fields con (fst y))"
proof -
  define P where "P = (\<lambda>(rws :: nat \<Rightarrow> rate_wait) (i :: nat) (cur :: u32) con w (y :: nx_con \<times> world).
     keeps_sender_fields con (fst y) \<and> quiet w (snd y)
     \<and> (received_resp con \<longrightarrow> received_resp (fst y))
     \<and> ((\<forall>j. \<forall>a \<in> set (rw_inbound (rws j)). \<not> reply_matches con (a_data a))
          \<longrightarrow> same_sync_fields con (fst y)))"
  have "P rws i cur con w y"
  proof (rule enforce_subcmd_rate_loop.raw_induct[OF _ assms])
    fix f and rws :: "nat \<Rightarrow> rate_wait" and i :: nat and cur :: u32 and con w
      and y :: "nx_con \<times> world"
    assume IH: "\<And>rws i cur con w y. f rws i cur con w = Some y \<Longrightarrow> P rws i cur con w y"
      and body: "(if cur - last_subcmd_sent_msecs con < 25 \<and> state con = NX_CON_STATE_READ
          then case nx_con_wait_for_input_report (rws i) con w of
                 None \<Rightarrow> None
               | Some (con', w') \<Rightarrow> f rws (Suc i) (rw_clk (rws i)) con' w'
          else Some (con\<lparr>last_subcmd_sent_msecs := cur\<rparr>, w)) = Some y"
    show "P rws i cur con w y"
    proof (cases "cur - last_subcmd_sent_msecs con < 25 \<and> state con = NX_CON_STATE_READ")
      case True
      with body obtain c1 w1 where
        wt: "nx_con_wait_for_input_report (rws i) con w = Some (c1, w1)"
        and r: "f rws (Suc i) (rw_clk (rws i)) c1 w1 = Some y"
        by (auto split: option.splits)
      note a = wait_for_input_report_keeps[OF wt]
      note b = IH[OF r, unfolded P_def]
      have "same_sync_fields con (fst y)"
        if n: "\<forall>j. \<forall>a \<in> set (rw_inbound (rws j)). \<not> reply_matches con (a_data a)"
      proof -
        from a n have s: "same_sync_fields con c1" by blast
        with n have "\<forall>j. \<forall>a \<in> set (rw_inbound (rws j)). \<not> reply_matches c1 (a_data a)"
          by (simp add: reply_matches_same[OF s])
        with b s show ?thesis by (blast intro: same_sync_fields_trans)
      qed
      with a b show ?thesis
        unfolding P_def by (blast intro: keeps_sender_fields_trans quiet_trans)
    next
      case False
      with body have "y = (con\<lparr>last_subcmd_sent_msecs := cur\<rparr>, w)" by auto
      then show ?thesis
        unfolding P_def
        using same_sync_keeps[OF last_sent_same[of con cur]]
        by (simp add: same_sync_fields_def)
    qed
  qed
  then show ?thesis by (simp add: P_def)
qed

lemma enforce_rate_not_read:
  "state con \<noteq> NX_CON_STATE_READ \<Longrightarrow>
   nx_con_enforce_subcmd_rate env con w =
     Some (con\<lparr>last_subcmd_sent_msecs := rate_clk (env (attempts w))\<rparr>, w)"
  unfolding nx_con_enforce_subcmd_rate_def Let_def
  by (subst enforce_subcmd_rate_loop.simps) simp

lemma enforce_rate_keeps:
  assumes "nx_con_enforce_subcmd_rate env con w = Some (con', w')"
  shows "keeps_sender_fields con con' \<and> quiet w w'
     \<and> (received_resp con \<longrightarrow> received_resp con')
     \<and> (rate_silent con (env (attempts w)) \<longrightarrow> same_sync_fields con con')"
proof -
  from assms have l: "enforce_subcmd_rate_loop (rate_waits (env (attempts w))) 0
      (rate_clk (env (attempts w))) con w = Some (con', w')"
    by (simp add: nx_con_enforce_subcmd_rate_def Let_def)
  note k = enforce_loop_keeps[OF l]
  have "same_sync_fields con con'" if "state con \<noteq> NX_CON_STATE_READ"
    using assms unfolding enforce_rate_not_read[OF that] by auto
  with k show ?thesis by (auto simp add: rate_silent_def)
qed

subsection \<open>Synchronous send: one retry after a timeout, none after a failed send\<close>

lemma reply_matches_clear [simp]: "reply_matches (clear_input_buf con) d = reply_matches con d"
  by (simp add: reply_matches_def clear_input_buf_def split: nx_con_msg_type.splits)

lemma received_resp_clear [simp]: "received_resp (clear_input_buf con) = received_resp con"
  by (simp add: clear_input_buf_def)

lemma clear_input_buf_keeps [simp]: "keeps_sender_fields con (clear_input_buf con)"
  by (simp add: clear_input_buf_def keeps_sender_fields_def keeps_stick_cal_def)

lemma send_raw_fails:
  "send_fails (env (attempts w)) \<Longrightarrow>
   nx_con_hid_send_raw env data w =
     (send_error (env (attempts w)),
      w\<lparr>attempts := Suc (attempts w),
        trace := trace w @ map HidSend (sent_frames (env (attempts w)) data)\<rparr>)"
  by (auto simp: nx_con_hid_send_raw_def send_fails_def send_error_def log_event_def Let_def
      sent_frames_def)

lemma send_raw_ok:
  "\<not> send_fails (env (attempts w)) \<Longrightarrow>
   nx_con_hid_send_raw env data w =
     (send_ret (env (attempts w)),
      w\<lparr>attempts := Suc (attempts w), trace := trace w @ [HidSend data]\<rparr>)"
  by (auto simp: nx_con_hid_send_raw_def send_fails_def log_event_def Let_def)

lemma send_error_neg: "send_fails a \<Longrightarrow> send_error a < 0"
  by (auto simp: send_fails_def send_error_def ENOMEM_def)

lemma sends_map_HidSend [simp]: "sends (map HidSend fs) = fs"
  by (induction fs) simp_all

lemma wait_results_map_HidSend [simp]: "wait_results (map HidSend fs) = []"
  by (induction fs) simp_all

text \<open>One round of the loop: the send fails, the reply arrives, or the wait times out.\<close>

lemma sync_round_cases:
  assumes "hid_send_sync_loop env data (Suc tries) ret con w = Some (r, con', w')"
  obtains
    (fail) con1 w1 where
      "nx_con_enforce_subcmd_rate env con w = Some (con1, w1)"
      "send_fails (env (attempts w))" "r = send_error (env (attempts w))"
      "con' = clear_input_buf con1"
      "attempts w' = Suc (attempts w)"
      "sends (trace w') = sends (trace w) @ sent_frames (env (attempts w)) data"
      "wait_results (trace w') = wait_results (trace w)"
  | (reply) con1 w1 con3 w2 w3 where
      "nx_con_enforce_subcmd_rate env con w = Some (con1, w1)"
      "\<not> send_fails (env (attempts w))"
      "deliver (inbound (env (attempts w))) con1 w2 = Some (con3, w3)"
      "received_resp con3" "r = 0" "con' = con3\<lparr>received_resp := False\<rparr>"
      "attempts w' = Suc (attempts w)"
      "sends (trace w') = sends (trace w) @ [data]"
      "wait_results (trace w') = wait_results (trace w) @ [True]"
  | (timeout) con1 w1 con3 w2 w3 w4 where
      "nx_con_enforce_subcmd_rate env con w = Some (con1, w1)"
      "\<not> send_fails (env (attempts w))"
      "deliver (inbound (env (attempts w))) con1 w2 = Some (con3, w3)"
      "\<not> received_resp con3"
      "hid_send_sync_loop env data tries (- ETIMEDOUT) (clear_input_buf con3) w4
         = Some (r, con', w')"
      "attempts w4 = Suc (attempts w)"
      "sends (trace w4) = sends (trace w) @ [data]"
      "wait_results (trace w4) = wait_results (trace w) @ [False]"
proof -
  from assms obtain con1 w1 where
    e: "nx_con_enforce_subcmd_rate env con w = Some (con1, w1)"
    by (auto split: option.splits)
  from enforce_rate_keeps[OF e] have q: "attempts w1 = attempts w"
    "sends (trace w1) = sends (trace w)" "wait_results (trace w1) = wait_results (trace w)"
    by (simp_all add: quiet_def)
  let ?a = "env (attempts w)"
  show thesis
  proof (cases "send_fails ?a")
    case True
    then have sf: "send_fails (env (attempts w1))" by (simp add: q)
    from assms have "r = send_error ?a \<and> con' = clear_input_buf con1 \<and>
       w' = w1\<lparr>attempts := Suc (attempts w1),
              trace := trace w1 @ map HidSend (sent_frames (env (attempts w1)) data)\<rparr>"
      using send_error_neg[OF sf]
      by (simp add: e send_raw_fails[of env w1, OF sf] Let_def q)
    then show ?thesis
      using fail[OF e True] by (simp add: q)
  next
    case False
    then have sf: "\<not> send_fails (env (attempts w1))" by (simp add: q)
    then have nn: "\<not> send_ret (env (attempts w1)) < 0" by (simp add: send_fails_def)
    let ?w2 = "w1\<lparr>attempts := Suc (attempts w), trace := trace w1 @ [HidSend data]\<rparr>"
    from assms obtain con3 w3 where
      d: "deliver (inbound ?a) con1 ?w2 = Some (con3, w3)"
      using nn by (auto simp add: e send_raw_ok[of env w1, OF sf] Let_def q split: option.splits)
    from deliver_keeps[OF d] have q3: "attempts w3 = Suc (attempts w)"
      "sends (trace w3) = sends (trace w) @ [data]"
      "wait_results (trace w3) = wait_results (trace w)"
      by (simp_all add: quiet_def q)
    show ?thesis
    proof (cases "received_resp con3")
      case True
      from assms have "r = 0 \<and> con' = con3\<lparr>received_resp := False\<rparr> \<and>
          w' = log_event (WaitResp True) w3"
        using nn True by (simp add: e send_raw_ok[of env w1, OF sf] Let_def q d)
      then show ?thesis
        using reply[OF e False d True] by (simp add: q3 log_event_def)
    next
      case f: False
      from assms have "hid_send_sync_loop env data tries (- ETIMEDOUT) (clear_input_buf con3)
          (log_event (WaitResp False) w3) = Some (r, con', w')"
        using nn f by (simp add: e send_raw_ok[of env w1, OF sf] Let_def q d)
      then show ?thesis
        using timeout[OF e False d f] by (simp add: q3 log_event_def)
    qed
  qed
qed

lemma hid_send_sync_unfold:
  "nx_con_hid_send_sync env data con w = hid_send_sync_loop env data (Suc (Suc 0)) 0 con w"
  by (simp add: nx_con_hid_send_sync_def numeral_2_eq_2)

lemma new_frames_eq: "sends (trace w') = sends (trace w) @ fs \<Longrightarrow> new_frames w w' = fs"
  by (simp add: new_frames_def)

lemma new_wait_results_eq:
  "wait_results (trace w') = wait_results (trace w) @ bs \<Longrightarrow> new_wait_results w w' = bs"
  by (simp add: new_wait_results_def)








text \<open>
  The five ways a synchronous send can go, read off the return value and the trace: the
  first send fails; the first wait finds the reply; the first wait times out and the second
  send fails; the second wait finds the reply; the second wait times out too.
\<close>

lemma sync_send_shape:
  assumes "nx_con_hid_send_sync env data con w = Some (ret, con', w')"
  shows
    "send_fails (env (attempts w)) \<and> ret = send_error (env (attempts w)) \<and>
       new_wait_results w w' = [] \<and> new_frames w w' = sent_frames (env (attempts w)) data \<and>
       attempts w' = attempts w + 1
     \<or> \<not> send_fails (env (attempts w)) \<and> ret = 0 \<and>
       new_wait_results w w' = [True] \<and> new_frames w w' = [data] \<and>
       attempts w' = attempts w + 1
     \<or> \<not> send_fails (env (attempts w)) \<and> send_fails (env (Suc (attempts w))) \<and>
       ret = send_error (env (Suc (attempts w))) \<and> new_wait_results w w' = [False] \<and>
       new_frames w w' = data # sent_frames (env (Suc (attempts w))) data \<and>
       attempts w' = attempts w + 2
     \<or> \<not> send_fails (env (attempts w)) \<and> \<not> send_fails (env (Suc (attempts w))) \<and> ret = 0 \<and>
       new_wait_results w w' = [False, True] \<and> new_frames w w' = [data, data] \<and>
       attempts w' = attempts w + 2
     \<or> \<not> send_fails (env (attempts w)) \<and> \<not> send_fails (env (Suc (attempts w))) \<and>
       ret = - ETIMEDOUT \<and>
       new_wait_results w w' = [False, False] \<and> new_frames w w' = [data, data] \<and>
       attempts w' = attempts w + 2"
  using assms[unfolded hid_send_sync_unfold]
proof (cases rule: sync_round_cases)
  case (fail con1 w1)
  then show ?thesis
    by (simp add: new_frames_eq new_wait_results_eq[of w' w "[]"])
next
  case (reply con1 w1 con3 w2 w3)
  then show ?thesis
    by (simp add: new_frames_eq new_wait_results_eq)
next
  case (timeout con1 w1 con3 w2 w3 w4)
  note t = timeout
  from t(5) show ?thesis
  proof (cases rule: sync_round_cases)
    case (fail c1 v1)
    with t show ?thesis
      by (simp add: new_frames_eq new_wait_results_eq)
  next
    case (reply c1 v1 c3 v2 v3)
    with t show ?thesis
      by (simp add: new_frames_eq new_wait_results_eq)
  next
    case (timeout c1 v1 c3 v2 v3 v4)
    from timeout(5) have "ret = - ETIMEDOUT" "w' = v4" by simp_all
    with t timeout show ?thesis
      by (simp add: new_frames_eq new_wait_results_eq)
  qed
qed


subsection \<open>The steps of the senders\<close>

lemma sync_loop_keeps:
  "hid_send_sync_loop env data tries ret con w = Some (r, con', w') \<Longrightarrow>
     keeps_sender_fields con con'"
proof (induction tries arbitrary: ret con w)
  case 0
  then show ?case by (auto simp add: keeps_sender_fields_def keeps_stick_cal_def)
next
  case (Suc tries)
  from Suc.prems show ?case
  proof (cases rule: sync_round_cases)
    case (fail con1 w1)
    from enforce_rate_keeps[OF fail(1)] clear_input_buf_keeps[of con1] fail(4) show ?thesis
      by (blast intro: keeps_sender_fields_trans)
  next
    case (reply con1 w1 con3 w2 w3)
    have "keeps_sender_fields con3 con'"
      by (simp add: reply(6) keeps_sender_fields_def keeps_stick_cal_def)
    with enforce_rate_keeps[OF reply(1)] deliver_keeps[OF reply(3)] show ?thesis
      by (blast intro: keeps_sender_fields_trans)
  next
    case (timeout con1 w1 con3 w2 w3 w4)
    from enforce_rate_keeps[OF timeout(1)] deliver_keeps[OF timeout(3)]
      clear_input_buf_keeps[of con3] Suc.IH[OF timeout(5)]
    show ?thesis
      by (blast intro: keeps_sender_fields_trans)
  qed
qed



lemma shape_frames:
  assumes "nx_con_hid_send_sync env data con w = Some (ret, con', w')"
  shows "set (new_frames w w') \<subseteq> {data}" "length (new_frames w w') \<le> 2"
    "alloc_ok (env (attempts w)) \<longrightarrow> hd (new_frames w w') = data \<and> new_frames w w' \<noteq> []"
    "\<not> alloc_ok (env (attempts w)) \<longrightarrow> new_frames w w' = []"
    "sends (trace w') = sends (trace w) @ new_frames w w'"
proof -
  note s = sync_send_shape[OF assms]
  from s show "set (new_frames w w') \<subseteq> {data}"
    by (auto simp add: sent_frames_def split: if_splits)
  from s show "length (new_frames w w') \<le> 2"
    by (auto simp add: sent_frames_def split: if_splits)
  from s show "alloc_ok (env (attempts w)) \<longrightarrow> hd (new_frames w w') = data \<and> new_frames w w' \<noteq> []"
    by (auto simp add: sent_frames_def split: if_splits)
  from s show "\<not> alloc_ok (env (attempts w)) \<longrightarrow> new_frames w w' = []"
    by (auto simp add: sent_frames_def send_fails_def split: if_splits)
  from assms[unfolded hid_send_sync_unfold]
  show "sends (trace w') = sends (trace w) @ new_frames w w'"
  proof (cases rule: sync_round_cases)
    case (fail con1 w1)
    then show ?thesis by (simp add: new_frames_def)
  next
    case (reply con1 w1 con3 w2 w3)
    then show ?thesis by (simp add: new_frames_def)
  next
    case (timeout con1 w1 con3 w2 w3 w4)
    note t = timeout
    from t(5) show ?thesis
    proof (cases rule: sync_round_cases)
      case (fail c1 v1)
      with t show ?thesis by (simp add: new_frames_def)
    next
      case (reply c1 v1 c3 v2 v3)
      with t show ?thesis by (simp add: new_frames_def)
    next
      case (timeout c1 v1 c3 v2 v3 v4)
      from timeout(5) have "w' = v4" by simp
      with t timeout show ?thesis by (simp add: new_frames_def)
    qed
  qed
qed

lemma send_subcmd_sync:
  assumes "nx_con_send_subcmd env subcmd con w = Some (r, con', w')"
    and "state con \<noteq> NX_CON_STATE_REMOVED"
  obtains ret where
    "nx_con_hid_send_sync env
       (NX_CON_OUTPUT_RUMBLE_AND_SUBCMD # subcmd_num con #
          rumble_data con ! nat (rumble_queue_tail con) @ subcmd_id subcmd # sc_data subcmd)
       (con\<lparr>subcmd_num := next_subcmd_num (subcmd_num con),
            subcmd_ack_match := subcmd_id subcmd,
            msg_type := NX_CON_MSG_TYPE_SUBCMD\<rparr>) w = Some (ret, con', w')"
    "r = (if ret < 0 then ret else 0)"
  using assms
  by (auto simp add: nx_con_send_subcmd_def Let_def subcmd_bytes_def
      split: option.splits if_splits)

lemma send_subcmd_step:
  assumes "nx_con_send_subcmd env subcmd con w = Some (r, con', w')"
    and "state con \<noteq> NX_CON_STATE_REMOVED"
  shows "subcmd_num con' = next_subcmd_num (subcmd_num con)"
    and "state con' = state con" and "keeps_stick_cal con con'"
    and "set (new_frames w w') \<subseteq>
           {NX_CON_OUTPUT_RUMBLE_AND_SUBCMD # subcmd_num con #
            rumble_data con ! nat (rumble_queue_tail con) @ subcmd_id subcmd # sc_data subcmd}"
    and "alloc_ok (env (attempts w)) \<longrightarrow> new_frames w w' \<noteq> []"
    and "sends (trace w') = sends (trace w) @ new_frames w w'"
proof -
  from assms obtain ret where
    s: "nx_con_hid_send_sync env
       (NX_CON_OUTPUT_RUMBLE_AND_SUBCMD # subcmd_num con #
          rumble_data con ! nat (rumble_queue_tail con) @ subcmd_id subcmd # sc_data subcmd)
       (con\<lparr>subcmd_num := next_subcmd_num (subcmd_num con),
            subcmd_ack_match := subcmd_id subcmd,
            msg_type := NX_CON_MSG_TYPE_SUBCMD\<rparr>) w = Some (ret, con', w')"
    by (rule send_subcmd_sync)
  from sync_loop_keeps[OF s[unfolded hid_send_sync_unfold]]
  show "subcmd_num con' = next_subcmd_num (subcmd_num con)"
    and "state con' = state con" and "keeps_stick_cal con con'"
    by (simp_all add: keeps_sender_fields_def keeps_stick_cal_def)
  from shape_frames[OF s]
  show "set (new_frames w w') \<subseteq>
           {NX_CON_OUTPUT_RUMBLE_AND_SUBCMD # subcmd_num con #
            rumble_data con ! nat (rumble_queue_tail con) @ subcmd_id subcmd # sc_data subcmd}"
    and "alloc_ok (env (attempts w)) \<longrightarrow> new_frames w w' \<noteq> []"
    and "sends (trace w') = sends (trace w) @ new_frames w w'"
    by simp_all
qed








subsection \<open>Claim C4: the retry of the synchronous send\<close>


subsection \<open>Sends after removal\<close>

text \<open>
  Claim C5. In state \<open>NX_CON_STATE_REMOVED\<close> both the subcommand send and the rumble-only
  send return \<open>-ENODEV\<close> with the controller and the transport untouched: no frame is
  emitted, no wait is made, the packet counter does not move.
\<close>

theorem removed_send_returns_ENODEV:
  "state con = NX_CON_STATE_REMOVED \<Longrightarrow>
     nx_con_send_subcmd env subcmd con w = Some (- ENODEV, con, w) \<and>
     nx_con_send_rumble_data env con w = Some (- ENODEV, con, w)"
  by (simp add: nx_con_send_subcmd_def nx_con_send_rumble_data_def)











theorem removed_send_returns_ENODEV_witness:
  "state (con_ready\<lparr>state := NX_CON_STATE_REMOVED\<rparr>) = NX_CON_STATE_REMOVED \<and>
   nx_con_send_subcmd env_silent req_leds (con_ready\<lparr>state := NX_CON_STATE_REMOVED\<rparr>) world0
     = Some (- 19, con_ready\<lparr>state := NX_CON_STATE_REMOVED\<rparr>, world0) \<and>
   nx_con_send_rumble_data env_silent (con_ready\<lparr>state := NX_CON_STATE_REMOVED\<rparr>) world0
     = Some (- 19, con_ready\<lparr>state := NX_CON_STATE_REMOVED\<rparr>, world0) \<and>
   sends (trace world0) = []"
  using removed_send_returns_ENODEV [of "con_ready\<lparr>state := NX_CON_STATE_REMOVED\<rparr>"
      env_silent req_leds world0]
  by (simp add: ENODEV_def world0_def)

subsection \<open>The packet counter\<close>




subsection \<open>IMU calibration and its divisors\<close>

lemma flash_read_ret:
  "nx_con_request_spi_flash_read env a n con w = Some (ret, reply, con', w') \<Longrightarrow>
     (reply = None) = (ret \<noteq> 0)"
  by (auto simp: nx_con_request_spi_flash_read_def Let_def split: option.splits if_splits)

lemma imu_load_divisors:
  assumes "nx_con_request_imu_calibration env con w = Some (ret, con', w')" and "i < 3"
  shows "imu_cal_accel_divisor con' i = scale (accel_cal con') i - offset (accel_cal con') i \<and>
     imu_cal_gyro_divisor con' i = scale (gyro_cal con') i - offset (gyro_cal con') i \<and>
     (ret \<noteq> 0 \<longrightarrow> imu_cal_accel_divisor con' i = 16384 \<and> imu_cal_gyro_divisor con' i = 13371)"
proof -
  from assms(1) obtain m con1 w1 where
    m: "nx_con_check_for_cal_magic env NX_CON_IMU_CAL_USR_MAGIC_ADDR con w = Some (m, con1, w1)"
    by (auto simp add: nx_con_request_imu_calibration_def split: option.splits)
  from assms(1) obtain r reply con2 w2 where
    f: "nx_con_request_spi_flash_read env
          (if m = 0 then NX_CON_IMU_CAL_USR_DATA_ADDR else NX_CON_IMU_CAL_FCT_DATA_ADDR)
          NX_CON_IMU_CAL_DATA_SIZE con1 w1 = Some (r, reply, con2, w2)"
    by (auto simp add: nx_con_request_imu_calibration_def m Let_def split: option.splits)
  from assms(1) have
    c: "(ret, con', w') = (case reply of
              None \<Rightarrow> (r, nx_con_calc_imu_cal_divisors (set_dflt_imu_cal con2), w2)
            | Some raw_cal \<Rightarrow> (0, nx_con_calc_imu_cal_divisors (parse_imu_cal raw_cal con2), w2))"
    by (auto simp add: nx_con_request_imu_calibration_def m f Let_def split: option.splits)
  show ?thesis
  proof (cases reply)
    case None
    with c have "con' = nx_con_calc_imu_cal_divisors (set_dflt_imu_cal con2)" by simp
    then show ?thesis using assms(2) by (simp add: calc_divisors_val set_dflt_imu_cal_val)
  next
    case (Some raw)
    with c have "con' = nx_con_calc_imu_cal_divisors (parse_imu_cal raw con2)" "ret = 0"
      by simp_all
    then show ?thesis using assms(2) by (simp add: calc_divisors_val)
  qed
qed

lemma next_subcmd_num_examples:
  "next_subcmd_num 0 = 1" "next_subcmd_num 1 = 2" "next_subcmd_num 0xF = 0"
  by (simp_all add: next_subcmd_num_def)

lemmas send_eval_defs =
  nx_con_request_spi_flash_read_def nx_con_send_subcmd_def hid_send_sync_unfold
  enforce_rate_not_read log_event_def nx_con_hid_send_raw_def
  nintendo_hid_event_def nx_con_handle_event_def reply_matches_def clear_input_buf_def
  subcmd_bytes_def NX_CON_SUBCMD_SPI_FLASH_READ_def NX_CON_INPUT_SUBCMD_REPLY_def
  sizeof_nx_con_input_report_def NX_CON_MAX_RESP_SIZE_def NX_CON_OUTPUT_RUMBLE_AND_SUBCMD_def
  nx_con_check_for_cal_magic_def NX_CON_CAL_USR_MAGIC_0_def NX_CON_CAL_USR_MAGIC_1_def

lemma erased_load:
  "\<exists>c w. nx_con_request_imu_calibration env_erased_flash (nx_con_probe_alloc p) world0
            = Some (0, c, w) \<and>
     imu_cal_accel_divisor c 0 = 0 \<and> imu_cal_accel_divisor c 1 = 0 \<and>
     imu_cal_accel_divisor c 2 = 0 \<and>
     imu_cal_gyro_divisor c 0 = 0 \<and> imu_cal_gyro_divisor c 1 = 0 \<and>
     imu_cal_gyro_divisor c 2 = 0"
  apply (simp add: nx_con_request_imu_calibration_def send_eval_defs env_erased_flash_def
      erased_flash_reply_def nx_con_probe_alloc_def world0_def Let_def
      next_subcmd_num_examples)
  apply (auto simp: calc_divisors_val parse_imu_cal_def upt3 le16_ff)
  done

lemma unplugged_load:
  "\<exists>c w. nx_con_request_imu_calibration env_unplugged (nx_con_probe_alloc p) world0
            = Some (- 19, c, w)"
  by (simp add: nx_con_request_imu_calibration_def send_eval_defs env_unplugged_def
      nx_con_probe_alloc_def world0_def Let_def next_subcmd_num_examples)

lemma scale_sample_zero_divisor:
  "imu_cal_gyro_divisor con 0 = 0 \<Longrightarrow> imu_scale_sample con d = None"
  by (simp add: imu_scale_sample_def mult_frac_def c_div_def)

lemma samples_loop_zero_divisor:
  "imu_cal_gyro_divisor con 0 = 0 \<Longrightarrow> ds \<noteq> [] \<Longrightarrow> imu_samples_loop con ds = None"
  by (cases ds) (simp_all add: imu_sample_values_def scale_sample_zero_divisor)

lemma report_imu_timing_divisor:
  "nx_con_report_imu_timing con m = Some (con', d) \<Longrightarrow>
     imu_cal_gyro_divisor con' = imu_cal_gyro_divisor con"
  by (auto simp add: nx_con_report_imu_timing_def Let_def split: if_splits)

lemma report_imu_zero_divisor:
  assumes "imu_cal_gyro_divisor con 0 = 0"
  shows "nx_con_report_imu con msecs raw = None"
proof (cases "nx_con_report_imu_timing con msecs")
  case None
  then show ?thesis by (simp add: nx_con_report_imu_def Let_def)
next
  case (Some y)
  obtain con1 d where y: "y = (con1, d)" by (cases y)
  from report_imu_timing_divisor[OF Some[unfolded y]] assms
  have "imu_cal_gyro_divisor con1 0 = 0" by simp
  from samples_loop_zero_divisor[OF this, of "nx_con_input_report_parse_imu_data raw"]
  show ?thesis
    by (simp add: nx_con_report_imu_def Let_def Some y nx_con_input_report_parse_imu_data_def
        upt3)
qed

text \<open>
  Claim C1: a defect of the code. The loader stores whatever the flash returns and
  \<open>nx_con_calc_imu_cal_divisors\<close> subtracts without a check. A device whose calibration
  flash is erased answers every read with bytes \<open>0xFF\<close>: the load completes with return
  value 0, every scale and offset is -1, and all six divisors are 0. The next IMU report
  then divides by zero in \<open>nx_con_report_imu\<close>, whatever the clock and the report hold.
  Only the fallback path of a failed read (here: a transport that rejects every send) is
  safe, with the divisors 16384 and 13371 of the default calibration.
\<close>

theorem imu_load_erased_flash_zero_divisors:
  "(\<exists>c w. nx_con_request_imu_calibration env_erased_flash (nx_con_probe_alloc p) world0
            = Some (0, c, w) \<and>
      imu_cal_accel_divisor c 0 = 0 \<and> imu_cal_accel_divisor c 1 = 0 \<and>
      imu_cal_accel_divisor c 2 = 0 \<and>
      imu_cal_gyro_divisor c 0 = 0 \<and> imu_cal_gyro_divisor c 1 = 0 \<and>
      imu_cal_gyro_divisor c 2 = 0 \<and>
      (\<forall>msecs raw. nx_con_report_imu c msecs raw = None))
   \<and> (\<exists>c w. nx_con_request_imu_calibration env_unplugged (nx_con_probe_alloc p) world0
            = Some (- 19, c, w) \<and>
      imu_cal_accel_divisor c 0 = 16384 \<and> imu_cal_accel_divisor c 1 = 16384 \<and>
      imu_cal_accel_divisor c 2 = 16384 \<and>
      imu_cal_gyro_divisor c 0 = 13371 \<and> imu_cal_gyro_divisor c 1 = 13371 \<and>
      imu_cal_gyro_divisor c 2 = 13371)"
proof
  from erased_load[of p] obtain c w where
    l: "nx_con_request_imu_calibration env_erased_flash (nx_con_probe_alloc p) world0
          = Some (0, c, w)"
    and z: "imu_cal_accel_divisor c 0 = 0" "imu_cal_accel_divisor c 1 = 0"
      "imu_cal_accel_divisor c 2 = 0" "imu_cal_gyro_divisor c 0 = 0"
      "imu_cal_gyro_divisor c 1 = 0" "imu_cal_gyro_divisor c 2 = 0"
    by blast
  from report_imu_zero_divisor[OF z(4)] have "\<forall>msecs raw. nx_con_report_imu c msecs raw = None"
    by simp
  with l z show "\<exists>c w. nx_con_request_imu_calibration env_erased_flash (nx_con_probe_alloc p) world0
            = Some (0, c, w) \<and>
      imu_cal_accel_divisor c 0 = 0 \<and> imu_cal_accel_divisor c 1 = 0 \<and>
      imu_cal_accel_divisor c 2 = 0 \<and>
      imu_cal_gyro_divisor c 0 = 0 \<and> imu_cal_gyro_divisor c 1 = 0 \<and>
      imu_cal_gyro_divisor c 2 = 0 \<and>
      (\<forall>msecs raw. nx_con_report_imu c msecs raw = None)"
    by blast
next
  from unplugged_load[of p] obtain c w where
    l: "nx_con_request_imu_calibration env_unplugged (nx_con_probe_alloc p) world0
          = Some (- 19, c, w)" by blast
  from imu_load_divisors[OF l, of 0] imu_load_divisors[OF l, of 1] imu_load_divisors[OF l, of 2]
  have "imu_cal_accel_divisor c 0 = 16384 \<and> imu_cal_accel_divisor c 1 = 16384 \<and>
      imu_cal_accel_divisor c 2 = 16384 \<and>
      imu_cal_gyro_divisor c 0 = 13371 \<and> imu_cal_gyro_divisor c 1 = 13371 \<and>
      imu_cal_gyro_divisor c 2 = 13371"
    by simp
  with l show "\<exists>c w. nx_con_request_imu_calibration env_unplugged (nx_con_probe_alloc p) world0
            = Some (- 19, c, w) \<and>
      imu_cal_accel_divisor c 0 = 16384 \<and> imu_cal_accel_divisor c 1 = 16384 \<and>
      imu_cal_accel_divisor c 2 = 16384 \<and>
      imu_cal_gyro_divisor c 0 = 13371 \<and> imu_cal_gyro_divisor c 1 = 13371 \<and>
      imu_cal_gyro_divisor c 2 = 13371"
    by blast
qed

subsection \<open>Stick calibration and the stick mapping\<close>

lemma send_subcmd_keeps:
  assumes "nx_con_send_subcmd env subcmd con w = Some (r, con', w')"
  shows "keeps_stick_cal con con'"
proof (cases "state con = NX_CON_STATE_REMOVED")
  case True
  with assms show ?thesis by (simp add: nx_con_send_subcmd_def)
next
  case False
  from send_subcmd_step(3)[OF assms False] show ?thesis .
qed

lemma flash_read_keeps:
  "nx_con_request_spi_flash_read env a n con w = Some (r, reply, con', w') \<Longrightarrow>
     keeps_stick_cal con con'"
  by (auto simp: nx_con_request_spi_flash_read_def Let_def
      split: if_splits option.splits dest!: send_subcmd_keeps)

lemma read_stick_cal_result:
  assumes "nx_con_read_stick_calibration env a left con w = Some (r, res, con', w')"
  shows "keeps_stick_cal con con' \<and>
     (case res of None \<Rightarrow> True
      | Some (cx, cy) \<Rightarrow> stick_cal_12bit cx \<and> stick_cal_12bit cy)"
proof -
  from assms obtain r0 reply where
    f: "nx_con_request_spi_flash_read env a NX_CON_CAL_STICK_DATA_SIZE con w
          = Some (r0, reply, con', w')"
    and res: "res = map_option (\<lambda>raw. parse_stick_cal raw left) reply"
    by (auto simp add: nx_con_read_stick_calibration_def split: option.splits)
  show ?thesis
  proof (cases reply)
    case None
    with flash_read_keeps[OF f] show ?thesis by (simp add: res)
  next
    case (Some raw)
    obtain cx cy where p: "parse_stick_cal raw left = (cx, cy)"
      by (cases "parse_stick_cal raw left")
    from parse_stick_cal_12bit[of raw left] have "stick_cal_12bit cx \<and> stick_cal_12bit cy"
      by (simp add: p)
    with flash_read_keeps[OF f] show ?thesis by (simp add: res Some p)
  qed
qed

lemma request_calibration_12bit:
  assumes "nx_con_request_calibration env con w = Some (r, con', w')"
  shows "stick_cal_12bit (left_stick_cal_x con') \<and> stick_cal_12bit (left_stick_cal_y con') \<and>
         stick_cal_12bit (right_stick_cal_x con') \<and> stick_cal_12bit (right_stick_cal_y con')"
proof -
  from assms obtain m1 con1 w1 where
    1: "nx_con_check_for_cal_magic env NX_CON_CAL_USR_LEFT_MAGIC_ADDR con w = Some (m1, con1, w1)"
    by (auto simp add: nx_con_request_calibration_def split: option.splits)
  from assms obtain m2 con2 w2 where
    2: "nx_con_check_for_cal_magic env NX_CON_CAL_USR_RIGHT_MAGIC_ADDR con1 w1
          = Some (m2, con2, w2)"
    by (auto simp add: nx_con_request_calibration_def 1 split: option.splits)
  let ?la = "if m1 = 0 then NX_CON_CAL_USR_LEFT_DATA_ADDR else NX_CON_CAL_FCT_DATA_LEFT_ADDR"
  let ?ra = "if m2 = 0 then NX_CON_CAL_USR_RIGHT_DATA_ADDR else NX_CON_CAL_FCT_DATA_RIGHT_ADDR"
  from assms obtain r3 l con3 w3 where
    3: "nx_con_read_stick_calibration env ?la True con2 w2 = Some (r3, l, con3, w3)"
    by (auto simp add: nx_con_request_calibration_def 1 2 Let_def split: option.splits)
  define con4 where "con4 = (case l of
       None \<Rightarrow> con3\<lparr>left_stick_cal_x := dflt_stick_cal, left_stick_cal_y := dflt_stick_cal\<rparr>
     | Some (cx, cy) \<Rightarrow> con3\<lparr>left_stick_cal_x := cx, left_stick_cal_y := cy\<rparr>)"
  from assms obtain r5 rr con5 w5 where
    5: "nx_con_read_stick_calibration env ?ra False con4 w3 = Some (r5, rr, con5, w5)"
    by (auto simp add: nx_con_request_calibration_def 1 2 3 Let_def con4_def
        split: option.splits)
  have c': "con' = (case rr of
       None \<Rightarrow> con5\<lparr>right_stick_cal_x := dflt_stick_cal, right_stick_cal_y := dflt_stick_cal\<rparr>
     | Some (cx, cy) \<Rightarrow> con5\<lparr>right_stick_cal_x := cx, right_stick_cal_y := cy\<rparr>)"
    using assms 5
    by (simp add: nx_con_request_calibration_def 1 2 3 Let_def con4_def[symmetric])
  have l4: "stick_cal_12bit (left_stick_cal_x con4) \<and> stick_cal_12bit (left_stick_cal_y con4)"
    using read_stick_cal_result[OF 3] dflt_stick_cal_12bit
    by (auto simp: con4_def split: option.splits)
  have k5: "keeps_stick_cal con4 con5" using read_stick_cal_result[OF 5] by simp
  have l5: "stick_cal_12bit (left_stick_cal_x con5) \<and> stick_cal_12bit (left_stick_cal_y con5)"
    using l4 k5 by (simp add: keeps_stick_cal_def)
  show ?thesis
    using l5 read_stick_cal_result[OF 5] dflt_stick_cal_12bit
    by (auto simp: c' split: option.splits)
qed

lemma dflt_stick_cal_examples:
  "nx_con_map_stick_val \<lparr>cal_max = 3500, cal_min = 500, cal_center = 2000\<rparr> 3500 = Some 32767"
  "nx_con_map_stick_val \<lparr>cal_max = 3500, cal_min = 500, cal_center = 2000\<rparr> 500 = Some (- 32767)"
  "nx_con_map_stick_val \<lparr>cal_max = 3500, cal_min = 500, cal_center = 2000\<rparr> 2000 = Some 0"
  by (simp_all add: nx_con_map_stick_val_def Let_def s32_def c_div_def clamp_def
      NX_CON_MAX_STICK_MAG_def signed_divide_int_def)

text \<open>
  Claim C2. Let \<open>cal\<close> be any of the four stick calibrations that
  \<open>nx_con_request_calibration\<close> leaves in the controller (parsed from 12-bit flash fields
  or the defaults), with \<open>min < center < max\<close>. Then the mapping never traps and its result
  lies in [-32767, 32767] for every raw value; it is monotonically non-decreasing on
  [min, max]; the centre maps to 0; above the centre it is \<open>(v - center) * 32767 / (max - center)\<close>
  and at or below it \<open>(center - v) * -32767 / (center - min)\<close>, with C's truncating
  division; and for centre 2000, min 500, max 3500 the values 3500, 500, 2000 map to
  32767, -32767, 0.
\<close>

theorem stick_map_monotone_clamped:
  assumes "nx_con_request_calibration env con w = Some (r, con', w')"
    and "cal \<in> {left_stick_cal_x con', left_stick_cal_y con',
                 right_stick_cal_x con', right_stick_cal_y con'}"
    and "cal_min cal < cal_center cal" and "cal_center cal < cal_max cal"
  shows "(\<forall>v. \<exists>y. nx_con_map_stick_val cal v = Some y \<and> - 32767 \<le> y \<and> y \<le> 32767) \<and>
     (\<forall>v1 v2 y1 y2. cal_min cal \<le> v1 \<and> v1 \<le> v2 \<and> v2 \<le> cal_max cal \<and>
         nx_con_map_stick_val cal v1 = Some y1 \<and> nx_con_map_stick_val cal v2 = Some y2
         \<longrightarrow> y1 \<le> y2) \<and>
     nx_con_map_stick_val cal (cal_center cal) = Some 0 \<and>
     (\<forall>v. cal_center cal < v \<and> v \<le> cal_max cal \<longrightarrow>
         nx_con_map_stick_val cal v =
           Some ((v - cal_center cal) * 32767 sdiv (cal_max cal - cal_center cal))) \<and>
     (\<forall>v. cal_min cal \<le> v \<and> v \<le> cal_center cal \<longrightarrow>
         nx_con_map_stick_val cal v =
           Some ((cal_center cal - v) * (- 32767) sdiv (cal_center cal - cal_min cal))) \<and>
     nx_con_map_stick_val \<lparr>cal_max = 3500, cal_min = 500, cal_center = 2000\<rparr> 3500 = Some 32767 \<and>
     nx_con_map_stick_val \<lparr>cal_max = 3500, cal_min = 500, cal_center = 2000\<rparr> 500 = Some (- 32767) \<and>
     nx_con_map_stick_val \<lparr>cal_max = 3500, cal_min = 500, cal_center = 2000\<rparr> 2000 = Some 0"
proof -
  have wf: "stick_cal_12bit cal"
    using request_calibration_12bit[OF assms(1)] assms(2) by auto
  have 1: "\<forall>v. \<exists>y. nx_con_map_stick_val cal v = Some y \<and> - 32767 \<le> y \<and> y \<le> 32767"
    using map_stick_total[OF wf assms(3,4)] by blast
  have 2: "\<forall>v1 v2 y1 y2. cal_min cal \<le> v1 \<and> v1 \<le> v2 \<and> v2 \<le> cal_max cal \<and>
         nx_con_map_stick_val cal v1 = Some y1 \<and> nx_con_map_stick_val cal v2 = Some y2
         \<longrightarrow> y1 \<le> y2"
    using map_stick_mono[OF wf assms(3,4)] by blast
  have 3: "nx_con_map_stick_val cal (cal_center cal) = Some 0"
    using map_stick_lower_in_range[OF wf, of "cal_center cal"] assms(3) by simp
  have 4: "\<forall>v. cal_center cal < v \<and> v \<le> cal_max cal \<longrightarrow>
         nx_con_map_stick_val cal v =
           Some ((v - cal_center cal) * 32767 sdiv (cal_max cal - cal_center cal))"
    using map_stick_upper_in_range[OF wf] by blast
  have 5: "\<forall>v. cal_min cal \<le> v \<and> v \<le> cal_center cal \<longrightarrow>
         nx_con_map_stick_val cal v =
           Some ((cal_center cal - v) * (- 32767) sdiv (cal_center cal - cal_min cal))"
    using map_stick_lower_in_range[OF wf] assms(3) by blast
  show ?thesis
    using 1 2 3 4 5 dflt_stick_cal_examples by blast
qed

lemma request_calibration_unplugged:
  "\<exists>r c w. nx_con_request_calibration env_unplugged (nx_con_probe_alloc p) world0 = Some (r, c, w) \<and>
     left_stick_cal_x c = \<lparr>cal_max = 3500, cal_min = 500, cal_center = 2000\<rparr>"
  by (simp add: nx_con_request_calibration_def nx_con_read_stick_calibration_def send_eval_defs
      env_unplugged_def nx_con_probe_alloc_def world0_def Let_def dflt_stick_cal_def
      DFLT_STICK_CAL_CEN_def DFLT_STICK_CAL_MAX_def DFLT_STICK_CAL_MIN_def
      next_subcmd_num_examples)

theorem stick_map_monotone_clamped_witness:
  "(\<exists>r c w. nx_con_request_calibration env_unplugged
        (nx_con_probe_alloc USB_DEVICE_ID_NINTENDO_PROCON) world0 = Some (r, c, w) \<and>
      left_stick_cal_x c = \<lparr>cal_max = 3500, cal_min = 500, cal_center = 2000\<rparr>) \<and>
   nx_con_map_stick_val \<lparr>cal_max = 3500, cal_min = 500, cal_center = 2000\<rparr> 1000 = Some (- 21844) \<and>
   nx_con_map_stick_val \<lparr>cal_max = 3500, cal_min = 500, cal_center = 2000\<rparr> 3000 = Some 21844"
proof -
  let ?cal = "\<lparr>cal_max = 3500, cal_min = 500, cal_center = 2000\<rparr>"
  from request_calibration_unplugged[of USB_DEVICE_ID_NINTENDO_PROCON] obtain r c w where
    l: "nx_con_request_calibration env_unplugged
          (nx_con_probe_alloc USB_DEVICE_ID_NINTENDO_PROCON) world0 = Some (r, c, w)"
    and x: "left_stick_cal_x c = ?cal" by blast
  have m: "?cal \<in> {left_stick_cal_x c, left_stick_cal_y c, right_stick_cal_x c, right_stick_cal_y c}"
    using x by simp
  have "cal_min ?cal < cal_center ?cal" "cal_center ?cal < cal_max ?cal" by simp_all
  from stick_map_monotone_clamped[OF l m this]
  have "nx_con_map_stick_val ?cal 1000 = Some ((2000 - 1000) * (- 32767) sdiv (2000 - 500))"
    "nx_con_map_stick_val ?cal 3000 = Some ((3000 - 2000) * 32767 sdiv (3500 - 2000))"
    by simp_all
  then show ?thesis using l x by (simp add: signed_divide_int_def)
qed

subsection \<open>IMU samples: the sign correction of the right Joy-Con\<close>

lemma upt_1_6: "[Suc 0..<6] = [Suc 0, 2, 3, 4, 5]"
  by (simp add: upt_rec)

lemma negate_axes_right:
  "nx_con_type_is_right_joycon con \<Longrightarrow>
     imu_negate_axes con [v0, v1, v2, v3, v4, v5] = [v0, s32 (- v1), s32 (- v2), v3, s32 (- v4), s32 (- v5)]"
  by (simp add: imu_negate_axes_def upt_1_6)

lemma s32_neg: "- (2 ^ 31) < v \<Longrightarrow> v < 2 ^ 31 \<Longrightarrow> s32 (- v) = - v"
  by (rule s32_id) simp_all

lemma c_div_range:
  assumes "c_div a b = Some q" "- (2 ^ 31) \<le> a" "a < 2 ^ 31"
  shows "- (2 ^ 31) \<le> q \<and> q < 2 ^ 31"
proof -
  have q: "q = a sdiv b" and nz: "b \<noteq> 0" and nm: "\<not> (a = - (2 ^ 31) \<and> b = - 1)"
    using assms(1) by (auto simp: c_div_def split: if_splits)
  have r: "- \<bar>a\<bar> \<le> a sdiv b" "a sdiv b \<le> \<bar>a\<bar>"
    using sdiv_int_range[of a b] by simp_all
  show ?thesis
  proof (cases "a = - (2 ^ 31)")
    case False
    with assms(2,3) have "\<bar>a\<bar> < 2 ^ 31" by simp
    with r q show ?thesis by simp
  next
    case True
    with nm have b1: "b \<noteq> - 1" by simp
    have "a sdiv b \<noteq> 2 ^ 31"
    proof
      assume e: "a sdiv b = 2 ^ 31"
      have "a sdiv b = - a" using e True by simp
      moreover have "a \<noteq> 0" using True by simp
      ultimately have "b = - 1" using int_sdiv_negated_is_minus1[of a b] by simp
      with b1 show False by simp
    qed
    with r q True show ?thesis by simp
  qed
qed

lemma mult_frac_range:
  "mult_frac x n d = Some v \<Longrightarrow> - (2 ^ 31) \<le> v \<and> v < 2 ^ 31"
  using s32_range by (auto simp: mult_frac_def split: option.splits)

lemma scale_sample_shape:
  assumes "imu_scale_sample con d = Some val"
  shows "length val = 6 \<and> (\<forall>j < 6. - (2 ^ 31) \<le> val ! j \<and> val ! j < 2 ^ 31)"
proof -
  from assms obtain v0 v1 v2 v3 v4 v5 where
    v: "val = [v0, v1, v2, v3, v4, v5]"
    and g: "mult_frac (s32 (NX_CON_IMU_PREC_RANGE_SCALE * (gyro_x d - offset (gyro_cal con) 0)))
              (scale (gyro_cal con) 0) (imu_cal_gyro_divisor con 0) = Some v0"
      "mult_frac (s32 (NX_CON_IMU_PREC_RANGE_SCALE * (gyro_y d - offset (gyro_cal con) 1)))
              (scale (gyro_cal con) 1) (imu_cal_gyro_divisor con 1) = Some v1"
      "mult_frac (s32 (NX_CON_IMU_PREC_RANGE_SCALE * (gyro_z d - offset (gyro_cal con) 2)))
              (scale (gyro_cal con) 2) (imu_cal_gyro_divisor con 2) = Some v2"
    and a: "c_div (s32 (accel_x d * scale (accel_cal con) 0)) (imu_cal_accel_divisor con 0) = Some v3"
      "c_div (s32 (accel_y d * scale (accel_cal con) 1)) (imu_cal_accel_divisor con 1) = Some v4"
      "c_div (s32 (accel_z d * scale (accel_cal con) 2)) (imu_cal_accel_divisor con 2) = Some v5"
    by (auto simp: imu_scale_sample_def split: option.splits)
  have r: "- (2 ^ 31) \<le> v0 \<and> v0 < 2 ^ 31" "- (2 ^ 31) \<le> v1 \<and> v1 < 2 ^ 31"
    "- (2 ^ 31) \<le> v2 \<and> v2 < 2 ^ 31" "- (2 ^ 31) \<le> v3 \<and> v3 < 2 ^ 31"
    "- (2 ^ 31) \<le> v4 \<and> v4 < 2 ^ 31" "- (2 ^ 31) \<le> v5 \<and> v5 < 2 ^ 31"
    using mult_frac_range[OF g(1)] mult_frac_range[OF g(2)] mult_frac_range[OF g(3)]
      c_div_range[OF a(1)] c_div_range[OF a(2)] c_div_range[OF a(3)] s32_range
    by simp_all
  have "\<forall>j < 6. - (2 ^ 31) \<le> val ! j \<and> val ! j < 2 ^ 31"
  proof (intro allI impI)
    fix j :: nat assume "j < 6"
    then consider "j = 0" | "j = 1" | "j = 2" | "j = 3" | "j = 4" | "j = 5" by linarith
    then show "- (2 ^ 31) \<le> val ! j \<and> val ! j < 2 ^ 31"
      using r by cases (simp_all add: v)
  qed
  then show ?thesis by (simp add: v)
qed

text \<open>
  Claim C3, as the code has it. On the right Joy-Con the loop negates indices 1, 2, 4 and 5
  of the scaled vector [gyro x, gyro y, gyro z, accel x, accel y, accel z] and skips index 3
  as well as index 0: both x axes keep their sign. The negation is the 32-bit one, which
  is the arithmetic negation for every value but \<open>INT_MIN\<close>.
\<close>

theorem right_joycon_sign_correction:
  "nx_con_type_is_right_joycon con \<Longrightarrow> imu_scale_sample con d = Some val \<Longrightarrow>
     length val = 6 \<and>
     imu_sample_values con d =
       Some [val ! 0, s32 (- (val ! 1)), s32 (- (val ! 2)), val ! 3, s32 (- (val ! 4)), s32 (- (val ! 5))] \<and>
     (\<forall>j \<in> {1, 2, 4, 5}. val ! j \<noteq> - (2 ^ 31) \<longrightarrow> s32 (- (val ! j)) = - (val ! j))"
proof -
  assume rj: "nx_con_type_is_right_joycon con" and sc: "imu_scale_sample con d = Some val"
  from scale_sample_shape[OF sc] have len: "length val = 6"
    and rng: "\<forall>j < 6. - (2 ^ 31) \<le> val ! j \<and> val ! j < 2 ^ 31" by simp_all
  from len obtain v0 v1 v2 v3 v4 v5 where v: "val = [v0, v1, v2, v3, v4, v5]"
    by (auto simp: length_Suc_conv numeral_eq_Suc)
  have "\<forall>j \<in> {1, 2, 4, 5}. val ! j \<noteq> - (2 ^ 31) \<longrightarrow> s32 (- (val ! j)) = - (val ! j)"
  proof (intro ballI impI)
    fix j :: nat assume j: "j \<in> {1, 2, 4, 5}" and n: "val ! j \<noteq> - (2 ^ 31)"
    from j have "j < 6" by auto
    with rng have "- (2 ^ 31) \<le> val ! j" "val ! j < 2 ^ 31" by simp_all
    with n show "s32 (- (val ! j)) = - (val ! j)" by (intro s32_neg) simp_all
  qed
  then show ?thesis
    using len by (simp add: imu_sample_values_def sc v negate_axes_right[OF rj])
qed

lemma con_jcr_dflt_fields:
  "nx_con_type_is_right_joycon con_jcr_dflt"
  "i < 3 \<Longrightarrow> offset (gyro_cal con_jcr_dflt) i = 0"
  "i < 3 \<Longrightarrow> scale (gyro_cal con_jcr_dflt) i = 13371"
  "i < 3 \<Longrightarrow> scale (accel_cal con_jcr_dflt) i = 16384"
  "i < 3 \<Longrightarrow> imu_cal_gyro_divisor con_jcr_dflt i = 13371"
  "i < 3 \<Longrightarrow> imu_cal_accel_divisor con_jcr_dflt i = 16384"
  by (simp_all add: con_jcr_dflt_def calc_divisors_val set_dflt_imu_cal_val
      nx_con_type_is_right_joycon_def nx_con_calc_imu_cal_divisors_def set_dflt_imu_cal_def upt3
      DFLT_ACCEL_OFFSET_def DFLT_ACCEL_SCALE_def DFLT_GYRO_OFFSET_def DFLT_GYRO_SCALE_def)

lemma scale_sample_100:
  "imu_scale_sample con_jcr_dflt sample_100 = Some [100000, 100000, 100000, 100, 100, 100]"
  by (simp add: imu_scale_sample_def sample_100_def con_jcr_dflt_fields mult_frac_def c_div_def c_mod_def
      s32_def NX_CON_IMU_PREC_RANGE_SCALE_def signed_divide_int_def signed_modulo_int_def)

text \<open>
  Claim C3 as stated fails at index 3: for a right Joy-Con with the default calibration and
  a sample whose raw values are all 100, the accelerometer x value is 100 before and after
  the correction.
\<close>

theorem right_joycon_accel_x_not_negated:
  "nx_con_type_is_right_joycon con_jcr_dflt \<and>
   the (imu_scale_sample con_jcr_dflt sample_100) ! 3 = 100 \<and>
   the (imu_sample_values con_jcr_dflt sample_100) ! 3 = 100 \<and>
   the (imu_sample_values con_jcr_dflt sample_100) ! 3
     \<noteq> - (the (imu_scale_sample con_jcr_dflt sample_100) ! 3)"
  by (simp add: imu_sample_values_def scale_sample_100 negate_axes_right con_jcr_dflt_fields s32_def)

theorem right_joycon_sign_correction_witness:
  "nx_con_type_is_right_joycon con_jcr_dflt \<and>
   imu_scale_sample con_jcr_dflt sample_100 = Some [100000, 100000, 100000, 100, 100, 100] \<and>
   imu_sample_values con_jcr_dflt sample_100 = Some [100000, - 100000, - 100000, 100, - 100, - 100]"
  using right_joycon_sign_correction [OF con_jcr_dflt_fields(1) scale_sample_100]
  by (simp add: con_jcr_dflt_fields scale_sample_100 s32_def)

subsection \<open>IMU timing: the running average and the dropped-packet count\<close>

lemma timing_first:
  "\<not> imu_first_packet_received con \<Longrightarrow>
   nx_con_report_imu_timing con msecs =
     Some (con\<lparr>imu_timestamp_us := 0, imu_delta_samples_count := 0, imu_delta_samples_sum := 0,
               imu_avg_delta_ms := 15, imu_first_packet_received := True,
               imu_last_pkt_ms := msecs\<rparr>, None)"
  by (simp add: nx_con_report_imu_timing_def NX_CON_IMU_DFLT_AVG_DELTA_MS_def)

lemma timing_keep:
  assumes "imu_first_packet_received con" "imu_delta_samples_count con + 1 < 300"
    "imu_avg_delta_ms con \<noteq> 0"
  shows "nx_con_report_imu_timing con msecs =
     Some (con\<lparr>imu_delta_samples_sum := imu_delta_samples_sum con + (msecs - imu_last_pkt_ms con),
               imu_delta_samples_count := imu_delta_samples_count con + 1,
               imu_timestamp_us := imu_timestamp_us con + 1000 * imu_avg_delta_ms con,
               imu_last_pkt_ms := msecs\<rparr>,
           Some (dropped_of (msecs - imu_last_pkt_ms con) (imu_avg_delta_ms con)))"
  using assms
  by (simp add: nx_con_report_imu_timing_def NX_CON_IMU_SAMPLES_PER_DELTA_AVG_def Let_def
      dropped_of_def not_le)

lemma floor1_nz [simp]: "floor1 a \<noteq> 0"
  by (simp add: floor1_def)

lemma timing_recompute:
  assumes "imu_first_packet_received con" "300 \<le> imu_delta_samples_count con + 1"
  shows "nx_con_report_imu_timing con msecs =
     Some (con\<lparr>imu_delta_samples_sum := 0,
               imu_delta_samples_count := 0,
               imu_avg_delta_ms :=
                 floor1 ((imu_delta_samples_sum con + (msecs - imu_last_pkt_ms con)) div
                         (imu_delta_samples_count con + 1)),
               imu_timestamp_us := imu_timestamp_us con + 1000 *
                 floor1 ((imu_delta_samples_sum con + (msecs - imu_last_pkt_ms con)) div
                         (imu_delta_samples_count con + 1)),
               imu_last_pkt_ms := msecs\<rparr>,
           Some (dropped_of (msecs - imu_last_pkt_ms con)
                  (floor1 ((imu_delta_samples_sum con + (msecs - imu_last_pkt_ms con)) div
                         (imu_delta_samples_count con + 1)))))"
  using assms
  by (simp add: nx_con_report_imu_timing_def NX_CON_IMU_SAMPLES_PER_DELTA_AVG_def Let_def
      dropped_of_def floor1_def)

lemma count_succ_cases:
  fixes c :: u32
  assumes "c < 300"
  shows "(c + 1 < 300 \<and> c + 1 \<noteq> 300) \<or> (c + 1 = 300 \<and> 300 \<le> c + 1)"
  using assms by unat_arith

lemma avg_bound:
  fixes s :: u32
  shows "floor1 (s div 300) \<le> 14316557 \<and> 1 \<le> floor1 (s div 300)"
proof -
  have "unat (s div 300) = unat s div 300" by (simp add: unat_div)
  moreover have "unat s < 2 ^ 32" using unsigned_less[of s] by simp
  ultimately have "unat (s div 300) \<le> 14316557" by simp
  then have "s div 300 \<le> 14316557" by (simp add: word_le_nat_alt)
  then show ?thesis by (auto simp: floor1_def word_le_nat_alt unat_gt_0 Suc_le_eq)
qed

lemma timing_step:
  assumes f: "imu_first_packet_received con" and inv: "imu_timing_inv con"
  shows "\<exists>con' d. nx_con_report_imu_timing con msecs = Some (con', Some d) \<and>
     imu_timing_inv con' \<and> imu_first_packet_received con' \<and>
     imu_last_pkt_ms con' = msecs \<and>
     d = dropped_of (msecs - imu_last_pkt_ms con) (imu_avg_delta_ms con') \<and>
     (if imu_delta_samples_count con + 1 = 300
      then imu_avg_delta_ms con' =
             floor1 ((imu_delta_samples_sum con + (msecs - imu_last_pkt_ms con)) div 300) \<and>
           imu_delta_samples_count con' = 0 \<and> imu_delta_samples_sum con' = 0
      else imu_avg_delta_ms con' = imu_avg_delta_ms con \<and>
           imu_delta_samples_count con' = imu_delta_samples_count con + 1 \<and>
           imu_delta_samples_sum con' =
             imu_delta_samples_sum con + (msecs - imu_last_pkt_ms con))"
proof -
  from f inv have c: "imu_delta_samples_count con < 300"
    and a: "1 \<le> imu_avg_delta_ms con" "imu_avg_delta_ms con \<le> 14316557"
    by (simp_all add: imu_timing_inv_def)
  have anz: "imu_avg_delta_ms con \<noteq> 0" using a(1) by auto
  from count_succ_cases[OF c] show ?thesis
  proof
    assume k: "imu_delta_samples_count con + 1 < 300 \<and> imu_delta_samples_count con + 1 \<noteq> 300"
    then show ?thesis
      using timing_keep[OF f _ anz, of msecs] a f
      by (simp add: imu_timing_inv_def)
  next
    assume k: "imu_delta_samples_count con + 1 = 300 \<and> 300 \<le> imu_delta_samples_count con + 1"
    then show ?thesis
      using timing_recompute[OF f, of msecs] f
        avg_bound[of "imu_delta_samples_sum con + (msecs - imu_last_pkt_ms con)"]
      by (simp add: imu_timing_inv_def)
  qed
qed

lemma unat_succ_small:
  fixes c :: u32
  assumes "unat c < 300"
  shows "unat (c + 1) = unat c + 1"
  using assms by (simp add: unat_word_ariths)

lemma replicate_snoc: "replicate (Suc n) x = replicate n x @ [x]"
  by (simp add: replicate_append_same)

lemma feed_below:
  assumes "imu_first_packet_received con" "imu_timing_inv con"
    "unat (imu_delta_samples_count con) + n < 300"
  shows "\<exists>c. imu_feed con (replicate n d) = Some c \<and>
     imu_first_packet_received c \<and> imu_timing_inv c \<and>
     imu_avg_delta_ms c = imu_avg_delta_ms con \<and>
     imu_delta_samples_count c = imu_delta_samples_count con + of_nat n \<and>
     imu_delta_samples_sum c = imu_delta_samples_sum con + of_nat n * d"
  using assms
proof (induction n arbitrary: con)
  case 0
  then show ?case by simp
next
  case (Suc n)
  have u: "unat (imu_delta_samples_count con + 1) = unat (imu_delta_samples_count con) + 1"
    using Suc.prems(3) by (intro unat_succ_small) simp
  have ne: "imu_delta_samples_count con + 1 \<noteq> 300"
  proof
    assume "imu_delta_samples_count con + 1 = 300"
    then have "unat (imu_delta_samples_count con + 1) = 300" by simp
    with u Suc.prems(3) show False by simp
  qed
  from timing_step[OF Suc.prems(1,2), of "imu_last_pkt_ms con + d"] ne
  obtain con' dr where
    st: "nx_con_report_imu_timing con (imu_last_pkt_ms con + d) = Some (con', dr)"
    and i: "imu_timing_inv con'" "imu_first_packet_received con'"
    and v: "imu_avg_delta_ms con' = imu_avg_delta_ms con"
      "imu_delta_samples_count con' = imu_delta_samples_count con + 1"
      "imu_delta_samples_sum con' = imu_delta_samples_sum con + d"
    by auto
  have "unat (imu_delta_samples_count con') + n < 300"
    using Suc.prems(3) by (simp add: v u)
  from Suc.IH[OF i(2) i(1) this] obtain c where
    "imu_feed con' (replicate n d) = Some c" "imu_first_packet_received c" "imu_timing_inv c"
    "imu_avg_delta_ms c = imu_avg_delta_ms con'"
    "imu_delta_samples_count c = imu_delta_samples_count con' + of_nat n"
    "imu_delta_samples_sum c = imu_delta_samples_sum con' + of_nat n * d"
    by blast
  moreover have "imu_feed con (replicate (Suc n) d) = imu_feed con' (replicate n d)"
    by (simp add: st)
  ultimately show ?case
    by (simp add: v algebra_simps)
qed

lemma feed_append:
  "imu_feed con (xs @ ys) = (case imu_feed con xs of None \<Rightarrow> None | Some c \<Rightarrow> imu_feed c ys)"
  by (induction xs arbitrary: con) (auto split: option.splits)

lemma feed_300:
  assumes f: "imu_first_packet_received con" and inv: "imu_timing_inv con"
    and z: "imu_delta_samples_count con = 0" "imu_delta_samples_sum con = 0"
  shows "\<exists>c. imu_feed con (replicate 300 d) = Some c \<and>
     imu_avg_delta_ms c = floor1 (300 * d div 300) \<and>
     imu_delta_samples_count c = 0 \<and> imu_delta_samples_sum c = 0"
proof -
  have "unat (imu_delta_samples_count con) + 299 < 300" by (simp add: z)
  from feed_below[OF f inv this, of d] obtain c where
    c: "imu_feed con (replicate 299 d) = Some c" "imu_first_packet_received c" "imu_timing_inv c"
      "imu_delta_samples_count c = 299" "imu_delta_samples_sum c = 299 * d"
    by (auto simp: z)
  have k: "imu_delta_samples_count c + 1 = 300" by (simp add: c)
  from timing_step[OF c(2,3), of "imu_last_pkt_ms c + d"] k
  obtain con' dr where
    st: "nx_con_report_imu_timing c (imu_last_pkt_ms c + d) = Some (con', dr)"
    and v: "imu_avg_delta_ms con' = floor1 ((imu_delta_samples_sum c + d) div 300)"
      "imu_delta_samples_count con' = 0" "imu_delta_samples_sum con' = 0"
    by auto
  have "(300::nat) = Suc 299" by simp
  then have r: "replicate 300 d = replicate 299 d @ [d]"
    by (simp only: replicate_snoc)
  have s: "imu_delta_samples_sum c + d = 300 * d" by (simp add: c)
  show ?thesis
    unfolding r feed_append by (simp add: c st v s)
qed







lemma con_avg_11_inv: "imu_timing_inv con_avg_11" "imu_first_packet_received con_avg_11"
  by (simp_all add: imu_timing_inv_def con_avg_11_def nx_con_probe_alloc_def)



text \<open>
  Claim C6. The first report sets the average to 15 and clears count and sum. Every later
  report adds its delta; exactly when the count reaches 300 the average becomes
  \<open>sum / 300\<close>, floored to 1 when that is 0, and count and sum are cleared; otherwise the
  average is unchanged. In particular 300 reports of delta 15 fed into a cleared averager
  yield the average 15, and none of the first 299 changes the average.
\<close>

theorem imu_average_recomputed_every_300:
  assumes "imu_timing_inv con"
  shows "(\<not> imu_first_packet_received con \<longrightarrow>
       (\<exists>con'. nx_con_report_imu_timing con msecs = Some (con', None) \<and>
          imu_timing_inv con' \<and> imu_avg_delta_ms con' = 15 \<and>
          imu_delta_samples_count con' = 0 \<and> imu_delta_samples_sum con' = 0)) \<and>
     (imu_first_packet_received con \<longrightarrow>
       (\<exists>con' d. nx_con_report_imu_timing con msecs = Some (con', d) \<and> imu_timing_inv con' \<and>
          (if imu_delta_samples_count con + 1 = 300
           then imu_avg_delta_ms con' =
                  (if (imu_delta_samples_sum con + (msecs - imu_last_pkt_ms con)) div 300 = 0 then 1
                   else (imu_delta_samples_sum con + (msecs - imu_last_pkt_ms con)) div 300) \<and>
                imu_delta_samples_count con' = 0 \<and> imu_delta_samples_sum con' = 0
           else imu_avg_delta_ms con' = imu_avg_delta_ms con \<and>
                imu_delta_samples_count con' = imu_delta_samples_count con + 1 \<and>
                imu_delta_samples_sum con' =
                  imu_delta_samples_sum con + (msecs - imu_last_pkt_ms con)))) \<and>
     (imu_first_packet_received con \<and> imu_delta_samples_count con = 0 \<and>
      imu_delta_samples_sum con = 0 \<longrightarrow>
       (\<exists>c. imu_feed con (replicate 300 15) = Some c \<and> imu_avg_delta_ms c = 15 \<and>
            imu_delta_samples_count c = 0 \<and> imu_delta_samples_sum c = 0) \<and>
       (\<forall>k < 300. \<exists>c. imu_feed con (replicate k 15) = Some c \<and>
            imu_avg_delta_ms c = imu_avg_delta_ms con \<and> imu_delta_samples_count c = of_nat k))"
proof (intro conjI impI)
  assume "\<not> imu_first_packet_received con"
  then show "\<exists>con'. nx_con_report_imu_timing con msecs = Some (con', None) \<and>
          imu_timing_inv con' \<and> imu_avg_delta_ms con' = 15 \<and>
          imu_delta_samples_count con' = 0 \<and> imu_delta_samples_sum con' = 0"
    by (simp add: timing_first imu_timing_inv_def)
next
  assume f: "imu_first_packet_received con"
  from timing_step[OF f assms, of msecs]
  show "\<exists>con' d. nx_con_report_imu_timing con msecs = Some (con', d) \<and> imu_timing_inv con' \<and>
          (if imu_delta_samples_count con + 1 = 300
           then imu_avg_delta_ms con' =
                  (if (imu_delta_samples_sum con + (msecs - imu_last_pkt_ms con)) div 300 = 0 then 1
                   else (imu_delta_samples_sum con + (msecs - imu_last_pkt_ms con)) div 300) \<and>
                imu_delta_samples_count con' = 0 \<and> imu_delta_samples_sum con' = 0
           else imu_avg_delta_ms con' = imu_avg_delta_ms con \<and>
                imu_delta_samples_count con' = imu_delta_samples_count con + 1 \<and>
                imu_delta_samples_sum con' =
                  imu_delta_samples_sum con + (msecs - imu_last_pkt_ms con))"
    unfolding floor1_def by (auto split: if_splits)
next
  assume a: "imu_first_packet_received con \<and> imu_delta_samples_count con = 0 \<and>
      imu_delta_samples_sum con = 0"
  from feed_300[OF _ assms, of 15] a
  show "\<exists>c. imu_feed con (replicate 300 15) = Some c \<and> imu_avg_delta_ms c = 15 \<and>
            imu_delta_samples_count c = 0 \<and> imu_delta_samples_sum c = 0"
    by (simp add: floor1_def)
next
  assume a: "imu_first_packet_received con \<and> imu_delta_samples_count con = 0 \<and>
      imu_delta_samples_sum con = 0"
  show "\<forall>k < 300. \<exists>c. imu_feed con (replicate k 15) = Some c \<and>
            imu_avg_delta_ms c = imu_avg_delta_ms con \<and> imu_delta_samples_count c = of_nat k"
  proof (intro allI impI)
    fix k :: nat assume "k < 300"
    with a have "unat (imu_delta_samples_count con) + k < 300" by simp
    from feed_below[OF _ assms this, of 15] a
    show "\<exists>c. imu_feed con (replicate k 15) = Some c \<and>
            imu_avg_delta_ms c = imu_avg_delta_ms con \<and> imu_delta_samples_count c = of_nat k"
      by auto
  qed
qed

theorem imu_average_recomputed_every_300_witness:
  "imu_timing_inv con_avg_11 \<and> imu_first_packet_received con_avg_11 \<and>
   imu_avg_delta_ms con_avg_11 = 11 \<and>
   map_option imu_avg_delta_ms (imu_feed con_avg_11 (replicate 299 15)) = Some 11 \<and>
   map_option imu_avg_delta_ms (imu_feed con_avg_11 (replicate 300 15)) = Some 15"
proof -
  have z: "imu_delta_samples_count con_avg_11 = 0" "imu_delta_samples_sum con_avg_11 = 0"
    "imu_avg_delta_ms con_avg_11 = 11"
    by (simp_all add: con_avg_11_def nx_con_probe_alloc_def)
  note t = imu_average_recomputed_every_300[OF con_avg_11_inv(1), of 0]
  from t con_avg_11_inv(2) z
  have A: "\<exists>c. imu_feed con_avg_11 (replicate 300 15) = Some c \<and> imu_avg_delta_ms c = 15"
    by blast
  from t con_avg_11_inv(2) z
  have B: "\<forall>k < 300. \<exists>c. imu_feed con_avg_11 (replicate k 15) = Some c \<and>
            imu_avg_delta_ms c = imu_avg_delta_ms con_avg_11 \<and>
            imu_delta_samples_count c = of_nat k"
    by blast
  from B[rule_format, of 299]
  have C: "\<exists>c. imu_feed con_avg_11 (replicate 299 15) = Some c \<and> imu_avg_delta_ms c = 11"
    by (auto simp: z)
  show ?thesis using con_avg_11_inv z A C by auto
qed

subsection \<open>Rumble: the frequency lookup\<close>

lemma table_less:
  "freq_table_ok data \<Longrightarrow> j < k \<Longrightarrow> k < length data \<Longrightarrow> freq (data ! j) < freq (data ! k)"
proof -
  assume ok: "freq_table_ok data" and jk: "j < k" and k: "k < length data"
  have s: "sorted_wrt (<) (map freq data)" using ok unfolding freq_table_ok_def by (rule conjunct2)
  have "k < length (map freq data)" using k by simp
  from sorted_wrt_nth_less[OF s jk this]
  have "map freq data ! j < map freq data ! k" .
  moreover have "map freq data ! j = freq (data ! j)" using jk k by (intro nth_map) simp
  moreover have "map freq data ! k = freq (data ! k)" using k by (intro nth_map)
  ultimately show ?thesis by (simp only:)
qed

lemma loop_spec:
  assumes ok: "freq_table_ok data"
  shows "1 \<le> i \<Longrightarrow> i \<le> length data - 1 \<Longrightarrow> (\<forall>k < i. freq (data ! k) < f) \<Longrightarrow>
     i \<le> find_rumble_freq_loop data f i \<and>
     find_rumble_freq_loop data f i \<le> length data - 1 \<and>
     (\<forall>k < find_rumble_freq_loop data f i. freq (data ! k) < f) \<and>
     (find_rumble_freq_loop data f i < length data - 1 \<longrightarrow>
        f \<le> freq (data ! find_rumble_freq_loop data f i))"
proof (induction data f i rule: find_rumble_freq_loop.induct)
  case (1 data f i)
  show ?case
  proof (cases "i < length data - 1")
    case False
    then have e: "find_rumble_freq_loop data f i = i"
      by (subst find_rumble_freq_loop.simps) simp
    show ?thesis unfolding e using "1.prems" False by simp
  next
    case True
    show ?thesis
    proof (cases "f > freq (data ! (i - 1)) \<and> f \<le> freq (data ! i)")
      case c: True
      with True have e: "find_rumble_freq_loop data f i = i"
        by (subst find_rumble_freq_loop.simps) simp
      show ?thesis unfolding e using "1.prems" True c by simp
    next
      case c: False
      with True have e: "find_rumble_freq_loop data f i = find_rumble_freq_loop data f (i + 1)"
        by (subst find_rumble_freq_loop.simps) auto
      have prev: "freq (data ! (i - 1)) < f" using "1.prems" by simp
      with c have "freq (data ! i) < f" by simp
      then have all: "\<forall>k < i + 1. freq (data ! k) < f"
        using "1.prems"(3) by (auto simp: less_Suc_eq)
      have "1 \<le> i + 1" "i + 1 \<le> length data - 1" using True by simp_all
      from "1.IH"[OF True c this all]
      show ?thesis unfolding e by simp
    qed
  qed
qed

lemma find_in_index:
  assumes ok: "freq_table_ok data"
  shows "\<exists>r < length data. find_rumble_freq_in data f = data ! r \<and>
           (\<forall>k < r. freq (data ! k) < f) \<and> (r < length data - 1 \<longrightarrow> f \<le> freq (data ! r))"
proof (cases "f > freq (data ! 0)")
  case False
  have "0 < length data" using ok by (auto simp: freq_table_ok_def)
  with False show ?thesis
    by (intro exI[of _ 0]) (simp add: find_rumble_freq_in_def not_less)
next
  case True
  have n: "2 \<le> length data" using ok by (simp add: freq_table_ok_def)
  then have l: "1 \<le> length data - 1" by simp
  have a: "\<forall>k < (1::nat). freq (data ! k) < f" using True by simp
  define r where "r = find_rumble_freq_loop data f 1"
  from loop_spec[OF ok _ l a]
  have s: "r \<le> length data - 1" "\<forall>k < r. freq (data ! k) < f"
    "r < length data - 1 \<longrightarrow> f \<le> freq (data ! r)"
    unfolding r_def by simp_all
  have "r < length data" using s(1) n by simp
  moreover have "find_rumble_freq_in data f = data ! r"
    using True by (simp add: find_rumble_freq_in_def r_def)
  ultimately show ?thesis using s by blast
qed

lemma find_in_first_geq:
  assumes ok: "freq_table_ok data" and f: "List.find (\<lambda>e. f \<le> freq e) data = Some e"
  shows "find_rumble_freq_in data f = e"
proof -
  from f obtain i where i: "i < length data" "f \<le> freq (data ! i)" "e = data ! i"
    "\<forall>j < i. \<not> f \<le> freq (data ! j)"
    by (auto simp: find_Some_iff)
  from find_in_index[OF ok, of f] obtain r where r: "r < length data"
    "find_rumble_freq_in data f = data ! r" "\<forall>k < r. freq (data ! k) < f"
    "r < length data - 1 \<longrightarrow> f \<le> freq (data ! r)" by blast
  have "\<not> i < r" using r(3) i(2) by (auto simp: not_le[symmetric])
  moreover have "\<not> r < i"
  proof
    assume a: "r < i"
    then have "r < length data - 1" using i(1) by simp
    with r(4) have "f \<le> freq (data ! r)" by simp
    with i(4) a show False by simp
  qed
  ultimately have "r = i" by simp
  then show ?thesis by (simp add: r(2) i(3))
qed

lemma find_in_exact:
  assumes ok: "freq_table_ok data" and e: "e \<in> set data"
  shows "find_rumble_freq_in data (freq e) = e"
proof -
  from e obtain i where i: "i < length data" "e = data ! i" by (auto simp: in_set_conv_nth)
  have "\<forall>j < i. \<not> freq e \<le> freq (data ! j)"
    using table_less[OF ok _ i(1)] i(2) by (auto simp: not_le)
  then have "List.find (\<lambda>x. freq e \<le> freq x) data = Some e"
    using i by (auto simp: find_Some_iff intro!: exI[of _ i])
  from find_in_first_geq[OF ok this] show ?thesis .
qed

lemma find_in_below_first:
  assumes ok: "freq_table_ok data" and f: "f \<le> freq (data ! 0)"
  shows "find_rumble_freq_in data f = data ! 0"
  using f by (simp add: find_rumble_freq_in_def not_less)

lemma find_in_above_last:
  assumes ok: "freq_table_ok data" and f: "freq (last data) < f"
  shows "find_rumble_freq_in data f = last data"
proof -
  have ne: "data \<noteq> []" using ok by (auto simp: freq_table_ok_def)
  from find_in_index[OF ok, of f] obtain r where r: "r < length data"
    "find_rumble_freq_in data f = data ! r"
    "r < length data - 1 \<longrightarrow> f \<le> freq (data ! r)" by blast
  have "\<not> r < length data - 1"
  proof
    assume a: "r < length data - 1"
    with r(3) have "f \<le> freq (data ! r)" by simp
    moreover have "freq (data ! r) < freq (data ! (length data - 1))"
      using table_less[OF ok a] ne by simp
    ultimately show False using f ne by (simp add: last_conv_nth)
  qed
  with r(1) have "r = length data - 1" by simp
  then show ?thesis using ne by (simp add: r(2) last_conv_nth)
qed

lemma ascending_sorted: "ascending xs \<Longrightarrow> sorted_wrt (<) xs"
proof (induction xs rule: ascending.induct)
  case (3 x y zs)
  then have xy: "x < y" and s: "sorted_wrt (<) (y # zs)" by simp_all
  have "\<forall>z \<in> set zs. x < z" using xy s by auto
  with xy s show ?case by simp
qed simp_all

lemma frequencies_ascending: "ascending (map freq nx_con_rumble_frequencies)"
  unfolding nx_con_rumble_frequencies_def by simp

lemma frequencies_length: "length nx_con_rumble_frequencies = 159"
  unfolding nx_con_rumble_frequencies_def by simp

lemma frequencies_ok: "freq_table_ok nx_con_rumble_frequencies"
  unfolding freq_table_ok_def
  using ascending_sorted[OF frequencies_ascending] by (simp add: frequencies_length)

lemma frequencies_first_last:
  "freq (nx_con_rumble_frequencies ! 0) = 41" "freq (last nx_con_rumble_frequencies) = 1253"
  unfolding nx_con_rumble_frequencies_def by simp_all

text \<open>
  Claim C8. A frequency equal to the key of a row of the frequency table is looked up as
  exactly that row; whenever some row has a key at least the requested value, the lookup
  returns the first such row; a request at or below the first key (41) returns the first
  row (and one above the last key, 1253, the last row). Encoding two frequencies that are keys
  of rows \<open>lo\<close> and \<open>hi\<close> builds the four bytes from the high pair of \<open>hi\<close> and the low
  byte of \<open>lo\<close>, combined with the amplitude row.
\<close>

theorem rumble_freq_lookup:
  "(\<forall>e \<in> set nx_con_rumble_frequencies. nx_con_find_rumble_freq (freq e) = e) \<and>
   (\<forall>f e. List.find (\<lambda>e. f \<le> freq e) nx_con_rumble_frequencies = Some e
      \<longrightarrow> nx_con_find_rumble_freq f = e) \<and>
   (\<forall>f. f \<le> 41 \<longrightarrow> nx_con_find_rumble_freq f = nx_con_rumble_frequencies ! 0) \<and>
   (\<forall>f. 1253 < f \<longrightarrow> nx_con_find_rumble_freq f = last nx_con_rumble_frequencies) \<and>
   (\<forall>lo \<in> set nx_con_rumble_frequencies. \<forall>hi \<in> set nx_con_rumble_frequencies. \<forall>a.
      nx_con_encode_rumble (freq lo) (freq hi) a =
        [ucast (drop_bit 8 (freq_high hi) AND 0xFF),
         ucast (freq_high hi AND 0xFF) + amp_high (nx_con_find_rumble_amp a),
         freq_low lo + ucast (drop_bit 8 (amp_low (nx_con_find_rumble_amp a)) AND 0xFF),
         ucast (amp_low (nx_con_find_rumble_amp a) AND 0xFF)])"
proof (intro conjI ballI allI impI)
  fix e assume "e \<in> set nx_con_rumble_frequencies"
  then show "nx_con_find_rumble_freq (freq e) = e"
    unfolding nx_con_find_rumble_freq_def by (rule find_in_exact[OF frequencies_ok])
next
  fix f e assume "List.find (\<lambda>e. f \<le> freq e) nx_con_rumble_frequencies = Some e"
  then show "nx_con_find_rumble_freq f = e"
    unfolding nx_con_find_rumble_freq_def by (rule find_in_first_geq[OF frequencies_ok])
next
  fix f :: u16 assume "f \<le> 41"
  then show "nx_con_find_rumble_freq f = nx_con_rumble_frequencies ! 0"
    unfolding nx_con_find_rumble_freq_def
    by (intro find_in_below_first[OF frequencies_ok]) (simp add: frequencies_first_last)
next
  fix f :: u16 assume "1253 < f"
  then show "nx_con_find_rumble_freq f = last nx_con_rumble_frequencies"
    unfolding nx_con_find_rumble_freq_def
    by (intro find_in_above_last[OF frequencies_ok]) (simp add: frequencies_first_last)
next
  fix lo hi a
  assume lo: "lo \<in> set nx_con_rumble_frequencies" and hi: "hi \<in> set nx_con_rumble_frequencies"
  have "nx_con_find_rumble_freq (freq lo) = lo" "nx_con_find_rumble_freq (freq hi) = hi"
    unfolding nx_con_find_rumble_freq_def
    using find_in_exact[OF frequencies_ok lo] find_in_exact[OF frequencies_ok hi] by simp_all
  then show "nx_con_encode_rumble (freq lo) (freq hi) a =
        [ucast (drop_bit 8 (freq_high hi) AND 0xFF),
         ucast (freq_high hi AND 0xFF) + amp_high (nx_con_find_rumble_amp a),
         freq_low lo + ucast (drop_bit 8 (amp_low (nx_con_find_rumble_amp a)) AND 0xFF),
         ucast (amp_low (nx_con_find_rumble_amp a) AND 0xFF)]"
    by (simp add: nx_con_encode_rumble_def Let_def)
qed

lemma entry_160_in: "freq_entry_160 \<in> set nx_con_rumble_frequencies"
  unfolding nx_con_rumble_frequencies_def freq_entry_160_def by simp

lemma find_161: "List.find (\<lambda>e. 161 \<le> freq e) nx_con_rumble_frequencies = Some freq_entry_164"
  unfolding nx_con_rumble_frequencies_def freq_entry_164_def by simp

theorem rumble_freq_lookup_witness:
  "freq_entry_160 \<in> set nx_con_rumble_frequencies \<and>
   nx_con_find_rumble_freq 160 = freq_entry_160 \<and>
   List.find (\<lambda>e. 161 \<le> freq e) nx_con_rumble_frequencies = Some freq_entry_164 \<and>
   nx_con_find_rumble_freq 161 = freq_entry_164 \<and>
   nx_con_find_rumble_freq 7 = \<lparr>freq_high = 0x0000, freq_low = 0x01, freq = 41\<rparr>"
proof -
  note t = rumble_freq_lookup
  have f: "freq freq_entry_160 = 160" by (simp add: freq_entry_160_def)
  from t entry_160_in have "nx_con_find_rumble_freq (freq freq_entry_160) = freq_entry_160"
    by blast
  then have 1: "nx_con_find_rumble_freq 160 = freq_entry_160" by (simp add: f)
  from t find_161 have 2: "nx_con_find_rumble_freq 161 = freq_entry_164" by blast
  have "(7 :: u16) \<le> 41" by simp
  with t have "nx_con_find_rumble_freq 7 = nx_con_rumble_frequencies ! 0" by blast
  then have 3: "nx_con_find_rumble_freq 7 = \<lparr>freq_high = 0x0000, freq_low = 0x01, freq = 41\<rparr>"
    by (simp add: nx_con_rumble_frequencies_def)
  show ?thesis using entry_160_in 1 find_161 2 3 by simp
qed

end
